theory Spec2Isabelle
  imports Complex_Main
begin

section \<open>JavaScript values\<close>

text \<open>
  A JavaScript string is falsy exactly when it is empty, and an absent header, environment
  variable or property is \<open>undefined\<close>. Optional strings are \<open>string option\<close>;
  \<open>truthy\<close> is the test that \<open>if (x)\<close>, \<open>!x\<close>, \<open>x && y\<close> and \<open>x || y\<close> apply to them.
\<close>

fun truthy :: "string option \<Rightarrow> bool" where
  "truthy None = False"
| "truthy (Some s) = (s \<noteq> [])"

text \<open>\<open>x || null\<close> on an optional string.\<close>

definition or_null :: "string option \<Rightarrow> string option" where
  "or_null x = (if truthy x then x else None)"

text \<open>\<open>s.startsWith(p)\<close>\<close>

definition startsWith :: "string \<Rightarrow> string \<Rightarrow> bool" where
  "startsWith s p = (take (length p) s = p)"

text \<open>
  The bodies passed to \<open>res.json\<close>. \<open>JDate t\<close> stands for the ISO-8601 text of the
  instant \<open>t\<close> (milliseconds since the epoch), as \<open>toISOString\<close> and the serialisation of
  a \<open>Date\<close> produce it.
\<close>

datatype json =
    JNull
  | JBool bool
  | JNum rat
  | JStr string
  | JDate int
  | JArr "json list"
  | JObj "(string \<times> json) list"

text \<open>The value of a key of a JSON object; \<open>None\<close> when the key is absent.\<close>

fun jget :: "string \<Rightarrow> json \<Rightarrow> json option" where
  "jget k (JObj kvs) = map_of kvs k"
| "jget k _ = None"

text \<open>The value at a path of keys inside a JSON object.\<close>

fun jpath :: "string list \<Rightarrow> json \<Rightarrow> json option" where
  "jpath [] j = Some j"
| "jpath (k # ks) j = (case jget k j of None \<Rightarrow> None | Some j' \<Rightarrow> jpath ks j')"

record response =
  resp_status :: nat
  resp_body :: json

section \<open>Errors and the error handler (middleware/errorHandler.js)\<close>

text \<open>
  An exception object, with the properties the error handler reads. \<open>err_status\<close> is a
  numeric \<open>status\<close> property of foreign errors; the textual \<open>status\<close> of \<open>AppError\<close> is
  never consulted by the handler, since \<open>AppError\<close> always sets \<open>statusCode\<close>.
\<close>

record js_error =
  err_name :: string
  err_message :: string
  err_statusCode :: "nat option"
  err_status :: "nat option"
  err_code :: "string option"
  err_stack :: string

definition AppError :: "string \<Rightarrow> nat \<Rightarrow> js_error" where
  "AppError m sc =
     \<lparr>err_name = ''Error'', err_message = m, err_statusCode = Some sc,
      err_status = None, err_code = None, err_stack = []\<rparr>"

definition ValidationError :: "string \<Rightarrow> js_error" where
  "ValidationError m = (AppError m 400)\<lparr>err_name := ''ValidationError''\<rparr>"

definition UnauthorizedError :: "string \<Rightarrow> js_error" where
  "UnauthorizedError m = (AppError m 401)\<lparr>err_name := ''UnauthorizedError''\<rparr>"

definition ForbiddenError :: "string \<Rightarrow> js_error" where
  "ForbiddenError m = (AppError m 403)\<lparr>err_name := ''ForbiddenError''\<rparr>"

definition NotFoundError :: "string \<Rightarrow> js_error" where
  "NotFoundError m = (AppError m 404)\<lparr>err_name := ''NotFoundError''\<rparr>"

text \<open>\<open>new Error(m)\<close> and \<open>TypeError\<close>: no status code, no code.\<close>

definition Error :: "string \<Rightarrow> js_error" where
  "Error m =
     \<lparr>err_name = ''Error'', err_message = m, err_statusCode = None,
      err_status = None, err_code = None, err_stack = []\<rparr>"

definition TypeError :: "string \<Rightarrow> js_error" where
  "TypeError m = (Error m)\<lparr>err_name := ''TypeError''\<rparr>"

text \<open>The environment variables the code reads.\<close>

record env =
  API_AUTH_KEY :: "string option"
  JWT_SECRET :: "string option"
  NODE_ENV :: "string option"
  SUPERADMIN_EMAIL :: "string option"
  SUPERADMIN_PASSWORD :: "string option"
  SUPERADMIN_NAME :: "string option"

text \<open>\<open>a || b || 500\<close> on numbers: \<open>0\<close> and \<open>undefined\<close> are falsy.\<close>

definition num_or :: "nat option \<Rightarrow> nat option \<Rightarrow> nat option" where
  "num_or a b = (case a of Some n \<Rightarrow> (if n \<noteq> 0 then Some n else b) | None \<Rightarrow> b)"

definition errorHandler :: "env \<Rightarrow> js_error \<Rightarrow> response" where
  "errorHandler e err =
    (let statusCode0 = (case num_or (err_statusCode err) (err_status err) of
                          Some n \<Rightarrow> n | None \<Rightarrow> 500);
         message0 = (if err_message err \<noteq> [] then err_message err
                     else ''Internal Server Error'');
         (statusCode, message1) =
           (if err_name err = ''ValidationError'' then (400, ''Validation Error'')
            else if err_name err = ''UnauthorizedError'' then (401, ''Unauthorized'')
            else if err_name err = ''ForbiddenError'' then (403, ''Forbidden'')
            else if err_name err = ''NotFoundError'' then (404, ''Not Found'')
            else if err_code err = Some ''P2002'' then (409, ''Resource already exists'')
            else if err_code err = Some ''P2025'' then (404, ''Resource not found'')
            else (statusCode0, message0));
         message = (if NODE_ENV e = Some ''production'' \<and> statusCode = 500
                    then ''Internal Server Error'' else message1)
     in \<lparr>resp_status = statusCode,
         resp_body = JObj ([(''error'', JBool True), (''message'', JStr message)] @
                       (if NODE_ENV e = Some ''development''
                        then [(''stack'', JStr (err_stack err))] else []))\<rparr>)"

section \<open>Authentication (middleware/auth.js)\<close>

record headers =
  authorization :: "string option"
  x_api_key :: "string option"

text \<open>The payload of a verified token; \<open>req.user\<close> is built from it.\<close>

record jwt_payload =
  sub :: string
  role :: string

text \<open>
  What a middleware does with a request: it calls \<open>next()\<close> (with \<open>req.user\<close> set or
  not), calls \<open>next(error)\<close>, or sends a response itself.
\<close>

datatype mw_result =
    Next "jwt_payload option"
  | NextErr js_error
  | Sent response

text \<open>
  \<open>authHeader && authHeader.startsWith("Bearer ") ? authHeader.slice(7) : null\<close>
\<close>

definition bearerToken :: "headers \<Rightarrow> string option" where
  "bearerToken h =
     (case authorization h of
        None \<Rightarrow> None
      | Some a \<Rightarrow> (if a \<noteq> [] \<and> startsWith a ''Bearer '' then Some (drop 7 a) else None))"

text \<open>
  \<open>jwt.verify\<close> belongs to a library: \<open>verify token secret\<close> is \<open>Some\<close> of the decoded
  payload when the signature is good, \<open>None\<close> when \<open>jwt.verify\<close> throws.
\<close>

definition authMiddleware ::
  "env \<Rightarrow> (string \<Rightarrow> string \<Rightarrow> jwt_payload option) \<Rightarrow> headers \<Rightarrow> mw_result" where
  "authMiddleware e verify h =
    (if \<not> truthy (API_AUTH_KEY e) then
       Sent \<lparr>resp_status = 500,
             resp_body = JObj [(''error'', JBool True),
                               (''message'', JStr ''Server configuration error'')]\<rparr>
     else if \<not> truthy (bearerToken h) \<and> \<not> truthy (x_api_key h) then
       NextErr (UnauthorizedError ''API key required'')
     else
       (case (if truthy (bearerToken h) \<and> truthy (JWT_SECRET e)
              then (case (bearerToken h, JWT_SECRET e) of
                      (Some t, Some s) \<Rightarrow> verify t s | _ \<Rightarrow> None)
              else None) of
          Some decoded \<Rightarrow> Next (Some decoded)
        | None \<Rightarrow>
            (let providedKey = (if truthy (x_api_key h) then x_api_key h else bearerToken h)
             in if providedKey \<noteq> API_AUTH_KEY e
                then NextErr (UnauthorizedError ''Invalid credentials'')
                else Next None)))"

text \<open>
  \<open>adminMiddleware\<close>, on \<open>req.user\<close> as the authentication left it: \<open>req.user.id\<close> is the
  subject of the token, falsy when empty.
\<close>

definition adminMiddleware :: "jwt_payload option \<Rightarrow> mw_result" where
  "adminMiddleware user =
     (case user of
        None \<Rightarrow> NextErr (UnauthorizedError ''Authentication required'')
      | Some u \<Rightarrow>
          (if sub u = [] then NextErr (UnauthorizedError ''Authentication required'')
           else if role u \<noteq> ''ADMIN'' then NextErr (ForbiddenError ''Admin access required'')
           else Next user))"

text \<open>
  The states of the specification's per-request machine, and the state a run of the
  middleware ends in: an error passed to \<open>next\<close> reaches the error handler, whose status
  is the status of the rejection.
\<close>

datatype auth_state =
    VERIFIED_BY_TOKEN jwt_payload
  | VERIFIED_BY_KEY
  | REJECTED nat

definition auth_outcome :: "env \<Rightarrow> mw_result \<Rightarrow> auth_state" where
  "auth_outcome e r =
     (case r of
        Next (Some u) \<Rightarrow> VERIFIED_BY_TOKEN u
      | Next None \<Rightarrow> VERIFIED_BY_KEY
      | NextErr err \<Rightarrow> REJECTED (resp_status (errorHandler e err))
      | Sent resp \<Rightarrow> REJECTED (resp_status resp))"

text \<open>
  The machine the code implements, in the specification's words but with the key taken
  from either place: the token is tried first when a token and a signing secret are
  there; otherwise the provided key (the static key header when present, else the bearer
  token itself) is compared with the configured key.
\<close>

definition auth_machine ::
  "string \<Rightarrow> string option \<Rightarrow> (string \<Rightarrow> string \<Rightarrow> jwt_payload option) \<Rightarrow> headers \<Rightarrow> auth_state" where
  "auth_machine apiKey secret verify h =
     (let token = (if truthy (bearerToken h) then bearerToken h else None);
          key = (if truthy (x_api_key h) then x_api_key h else None);
          verified = (case (token, secret) of
                        (Some t, Some s) \<Rightarrow> (if s \<noteq> [] then verify t s else None)
                      | _ \<Rightarrow> None)
      in case verified of
           Some u \<Rightarrow> VERIFIED_BY_TOKEN u
         | None \<Rightarrow>
             (if key = Some apiKey \<or> (key = None \<and> token = Some apiKey)
              then VERIFIED_BY_KEY else REJECTED 401))"

section \<open>Logging (lib/logger.js)\<close>

text \<open>
  Of the logger's output the model keeps the entries of level \<open>error\<close> and \<open>warn\<close>, which
  record the failures the code recovers from or passes on; \<open>info\<close> and \<open>debug\<close> entries
  carry no behaviour and are left out. An entry is the level, the message and the
  metadata object.
\<close>

record log_entry =
  log_level :: string
  log_message :: string
  log_meta :: json

definition log_error :: "string \<Rightarrow> (string \<times> json) list \<Rightarrow> log_entry" where
  "log_error m kvs = \<lparr>log_level = ''error'', log_message = m, log_meta = JObj kvs\<rparr>"

definition log_warn :: "string \<Rightarrow> (string \<times> json) list \<Rightarrow> log_entry" where
  "log_warn m kvs = \<lparr>log_level = ''warn'', log_message = m, log_meta = JObj kvs\<rparr>"

section \<open>Storage (the tables behind lib/database.js)\<close>

text \<open>
  Modelled from the spec: the Prisma schema (\<open>prisma/schema.prisma\<close>) is not among the
  sources. The tables and their columns are taken from the README's "Database Schema"
  section and from the columns the handlers read and write. A table is the list of its
  rows in insertion order; instants are milliseconds since the epoch; the surrogate
  primary key \<open>id\<close> is a text the database generates. The columns \<open>created_at\<close> and
  \<open>updated_at\<close> of a created row are the instant of its creation, and \<open>updated_at\<close>
  changes when a write sets it (the upserts of the sync set it themselves).
\<close>

record agent_row =
  a_id :: string
  a_agent_id :: string
  a_agent_name :: string
  a_status :: string
  a_created_at :: int
  a_updated_at :: int

record call_row =
  c_id :: string
  c_call_id :: string
  c_agent_id :: string
  c_caller_info :: "string option"
  c_start_timestamp :: int
  c_end_timestamp :: int
  c_duration_ms :: int
  c_duration_seconds :: int
  c_transcript :: "string option"
  c_call_status :: string
  c_disconnection_reason :: "string option"
  c_cost :: rat
  c_call_summary :: "string option"
  c_user_sentiment :: "string option"
  c_call_successful :: bool
  c_recording_url :: "string option"
  c_created_at :: int
  c_updated_at :: int

record user_row =
  u_id :: string
  u_email :: string
  u_passwordHash :: string
  u_name :: "string option"
  u_role :: string
  u_status :: string
  u_created_at :: int
  u_updated_at :: int

record db =
  agents :: "agent_row list"
  calls :: "call_row list"
  users :: "user_row list"

text \<open>\<open>prisma.agent.findUnique({ where: { agent_id } })\<close>\<close>

definition agent_findUnique :: "db \<Rightarrow> string \<Rightarrow> agent_row option" where
  "agent_findUnique d aid = find (\<lambda>r. a_agent_id r = aid) (agents d)"

text \<open>
  The three orderings of the call lists; each is descending. The database's order among
  rows with equal keys is taken to be insertion order.
\<close>

datatype order_by = By_start_timestamp | By_duration_seconds | By_cost

fun order_key :: "order_by \<Rightarrow> call_row \<Rightarrow> rat" where
  "order_key By_start_timestamp r = of_int (c_start_timestamp r)"
| "order_key By_duration_seconds r = of_int (c_duration_seconds r)"
| "order_key By_cost r = c_cost r"

text \<open>
  \<open>prisma.call.findMany({ where, orderBy, skip, take })\<close> and
  \<open>prisma.call.count({ where })\<close>, the condition \<open>where\<close> being a predicate on rows.
\<close>

definition call_findMany ::
  "db \<Rightarrow> (call_row \<Rightarrow> bool) \<Rightarrow> order_by \<Rightarrow> nat \<Rightarrow> nat \<Rightarrow> call_row list" where
  "call_findMany d wh ob skip tk =
     take tk (drop skip (sort_key (\<lambda>r. - order_key ob r) (filter wh (calls d))))"

definition call_count :: "db \<Rightarrow> (call_row \<Rightarrow> bool) \<Rightarrow> nat" where
  "call_count d wh = length (filter wh (calls d))"

text \<open>
  The same for agents and users; the handlers order both by \<open>created_at\<close>, descending.
\<close>

definition agent_findMany ::
  "db \<Rightarrow> (agent_row \<Rightarrow> bool) \<Rightarrow> nat \<Rightarrow> nat \<Rightarrow> agent_row list" where
  "agent_findMany d wh skip tk =
     take tk (drop skip (sort_key (\<lambda>r. - a_created_at r) (filter wh (agents d))))"

definition agent_count :: "db \<Rightarrow> (agent_row \<Rightarrow> bool) \<Rightarrow> nat" where
  "agent_count d wh = length (filter wh (agents d))"

definition user_findMany ::
  "db \<Rightarrow> (user_row \<Rightarrow> bool) \<Rightarrow> nat \<Rightarrow> nat \<Rightarrow> user_row list" where
  "user_findMany d wh skip tk =
     take tk (drop skip (sort_key (\<lambda>r. - u_created_at r) (filter wh (users d))))"

definition user_count :: "db \<Rightarrow> (user_row \<Rightarrow> bool) \<Rightarrow> nat" where
  "user_count d wh = length (filter wh (users d))"

section \<open>Request validation (the Joi schemas of routes/dashboard.js)\<close>

text \<open>
  What a client supplied for a numeric parameter: nothing, an integer, a number with a
  fractional part, or something that is no number.
\<close>

datatype raw_number = Absent | IntVal int | Fraction | NotANumber

fun show_nat :: "nat \<Rightarrow> string" where
  "show_nat n =
     (if n < 10 then [char_of (48 + n)]
      else show_nat (n div 10) @ [char_of (48 + n mod 10)])"

declare show_nat.simps [simp del]

definition show_int :: "int \<Rightarrow> string" where
  "show_int i = (if i < 0 then CHR ''-'' # show_nat (nat (- i)) else show_nat (nat i))"

text \<open>
  \<open>Joi.number().integer().min(lo).max(hi).default(d)\<close> applied to the parameter \<open>k\<close>;
  \<open>hi\<close> is \<open>None\<close> for a schema without \<open>max\<close>. The result is the validated value or the
  message of the first failed rule, in the validation library's wording.
\<close>

definition joi_integer ::
  "string \<Rightarrow> int \<Rightarrow> int option \<Rightarrow> int \<Rightarrow> raw_number \<Rightarrow> string + int" where
  "joi_integer k lo hi d v =
     (let q = [CHR 0x22] @ k @ [CHR 0x22] in
      case v of
        Absent \<Rightarrow> Inr d
      | NotANumber \<Rightarrow> Inl (q @ '' must be a number'')
      | Fraction \<Rightarrow> Inl (q @ '' must be an integer'')
      | IntVal n \<Rightarrow>
          (if \<bar>n\<bar> > 9007199254740991 then Inl (q @ '' must be a safe number'')
           else if n < lo then
             Inl (q @ '' must be greater than or equal to '' @ show_int lo)
           else (case hi of
                   None \<Rightarrow> Inr n
                 | Some h \<Rightarrow>
                     (if n > h then
                        Inl (q @ '' must be less than or equal to '' @ show_int h)
                      else Inr n))))"

record call_history_query =
  q_limit :: raw_number
  q_offset :: raw_number
  q_sortBy :: "string option"

record call_history_value =
  v_limit :: int
  v_offset :: int
  v_sortBy :: string

text \<open>
  \<open>callHistorySchema.validate(req.query)\<close>: the keys are validated in the order of the
  schema and the first error is reported. Keys the schema does not declare are outside
  this model.
\<close>

definition callHistorySchema_validate :: "call_history_query \<Rightarrow> string + call_history_value" where
  "callHistorySchema_validate q =
     (case joi_integer ''limit'' 1 (Some 100) 20 (q_limit q) of
        Inl m \<Rightarrow> Inl m
      | Inr l \<Rightarrow>
          (case joi_integer ''offset'' 0 None 0 (q_offset q) of
             Inl m \<Rightarrow> Inl m
           | Inr off \<Rightarrow>
               (case q_sortBy q of
                  None \<Rightarrow> Inr \<lparr>v_limit = l, v_offset = off, v_sortBy = ''date''\<rparr>
                | Some s \<Rightarrow>
                    (if s \<in> set [''date'', ''duration'', ''cost'']
                     then Inr \<lparr>v_limit = l, v_offset = off, v_sortBy = s\<rparr>
                     else Inl ([CHR 0x22] @ ''sortBy'' @ [CHR 0x22] @
                               '' must be one of [date, duration, cost]'')))))"

text \<open>
  What a client supplied for a date parameter: nothing, a text that denotes an instant
  (milliseconds since the epoch), or a text that denotes none.
\<close>

datatype raw_date = NoDate | DateVal int | BadDate

text \<open>
  \<open>Joi.string().optional()\<close> and \<open>Joi.string().max(n).optional()\<close> applied to the
  parameter \<open>k\<close> (\<open>mx\<close> is \<open>None\<close> for a schema without \<open>max\<close>);
  \<open>Joi.string().valid(...).optional()\<close>; \<open>Joi.string().min(1).max(n).required()\<close>, whose
  rule \<open>min(1)\<close> no text can fail that is not empty; and \<open>Joi.date().optional()\<close>.
\<close>

definition joi_string :: "string \<Rightarrow> nat option \<Rightarrow> string option \<Rightarrow> string + string option" where
  "joi_string k mx v =
     (let q = [CHR 0x22] @ k @ [CHR 0x22] in
      case v of
        None \<Rightarrow> Inr None
      | Some s \<Rightarrow>
          (if s = [] then Inl (q @ '' is not allowed to be empty'')
           else (case mx of
                   None \<Rightarrow> Inr (Some s)
                 | Some n \<Rightarrow>
                     (if length s > n then
                        Inl (q @ '' length must be less than or equal to '' @ show_nat n @
                             '' characters long'')
                      else Inr (Some s)))))"

fun commas :: "string list \<Rightarrow> string" where
  "commas [] = []"
| "commas [x] = x"
| "commas (x # y # ys) = x @ '', '' @ commas (y # ys)"

definition joi_valid :: "string \<Rightarrow> string list \<Rightarrow> string option \<Rightarrow> string + string option" where
  "joi_valid k allowed v =
     (case v of
        None \<Rightarrow> Inr None
      | Some s \<Rightarrow>
          (if s \<in> set allowed then Inr (Some s)
           else Inl ([CHR 0x22] @ k @ [CHR 0x22] @ '' must be one of ['' @ commas allowed @
                     '']'')))"

definition joi_required :: "string \<Rightarrow> nat \<Rightarrow> string option \<Rightarrow> string + string" where
  "joi_required k n v =
     (let q = [CHR 0x22] @ k @ [CHR 0x22] in
      case v of
        None \<Rightarrow> Inl (q @ '' is required'')
      | Some s \<Rightarrow>
          (if s = [] then Inl (q @ '' is not allowed to be empty'')
           else if length s > n then
             Inl (q @ '' length must be less than or equal to '' @ show_nat n @
                  '' characters long'')
           else Inr s))"

definition joi_date :: "string \<Rightarrow> raw_date \<Rightarrow> string + int option" where
  "joi_date k v =
     (case v of
        NoDate \<Rightarrow> Inr None
      | DateVal t \<Rightarrow> Inr (Some t)
      | BadDate \<Rightarrow> Inl ([CHR 0x22] @ k @ [CHR 0x22] @ '' must be a valid date''))"

text \<open>\<open>agentListSchema\<close>\<close>

record agent_list_query =
  alq_limit :: raw_number
  alq_offset :: raw_number
  alq_status :: "string option"
  alq_search :: "string option"

record agent_list_value =
  alv_limit :: int
  alv_offset :: int
  alv_status :: "string option"
  alv_search :: "string option"

definition agentListSchema_validate :: "agent_list_query \<Rightarrow> string + agent_list_value" where
  "agentListSchema_validate q =
     (case joi_integer ''limit'' 1 (Some 100) 20 (alq_limit q) of
        Inl m \<Rightarrow> Inl m
      | Inr l \<Rightarrow>
          (case joi_integer ''offset'' 0 None 0 (alq_offset q) of
             Inl m \<Rightarrow> Inl m
           | Inr off \<Rightarrow>
               (case joi_valid ''status'' [''ACTIVE'', ''INACTIVE''] (alq_status q) of
                  Inl m \<Rightarrow> Inl m
                | Inr st \<Rightarrow>
                    (case joi_string ''search'' (Some 200) (alq_search q) of
                       Inl m \<Rightarrow> Inl m
                     | Inr se \<Rightarrow>
                         Inr \<lparr>alv_limit = l, alv_offset = off, alv_status = st,
                              alv_search = se\<rparr>))))"

text \<open>\<open>callsListSchema\<close>\<close>

record calls_list_query =
  clq_limit :: raw_number
  clq_offset :: raw_number
  clq_agentId :: "string option"
  clq_startDate :: raw_date
  clq_endDate :: raw_date
  clq_callStatus :: "string option"
  clq_sortBy :: "string option"

record calls_list_value =
  clv_limit :: int
  clv_offset :: int
  clv_agentId :: "string option"
  clv_startDate :: "int option"
  clv_endDate :: "int option"
  clv_callStatus :: "string option"
  clv_sortBy :: string

definition callsListSchema_validate :: "calls_list_query \<Rightarrow> string + calls_list_value" where
  "callsListSchema_validate q =
     (case joi_integer ''limit'' 1 (Some 100) 20 (clq_limit q) of
        Inl m \<Rightarrow> Inl m
      | Inr l \<Rightarrow>
     (case joi_integer ''offset'' 0 None 0 (clq_offset q) of
        Inl m \<Rightarrow> Inl m
      | Inr off \<Rightarrow>
     (case joi_string ''agentId'' None (clq_agentId q) of
        Inl m \<Rightarrow> Inl m
      | Inr aid \<Rightarrow>
     (case joi_date ''startDate'' (clq_startDate q) of
        Inl m \<Rightarrow> Inl m
      | Inr sd \<Rightarrow>
     (case joi_date ''endDate'' (clq_endDate q) of
        Inl m \<Rightarrow> Inl m
      | Inr ed \<Rightarrow>
     (case joi_string ''callStatus'' None (clq_callStatus q) of
        Inl m \<Rightarrow> Inl m
      | Inr cst \<Rightarrow>
     (case joi_valid ''sortBy'' [''date'', ''duration'', ''cost''] (clq_sortBy q) of
        Inl m \<Rightarrow> Inl m
      | Inr sb \<Rightarrow>
          Inr \<lparr>clv_limit = l, clv_offset = off, clv_agentId = aid, clv_startDate = sd,
               clv_endDate = ed, clv_callStatus = cst,
               clv_sortBy = (case sb of None \<Rightarrow> ''date'' | Some s \<Rightarrow> s)\<rparr>)))))))"

text \<open>\<open>userListSchema\<close>\<close>

record user_list_query =
  ulq_limit :: raw_number
  ulq_offset :: raw_number
  ulq_role :: "string option"
  ulq_search :: "string option"

record user_list_value =
  ulv_limit :: int
  ulv_offset :: int
  ulv_role :: "string option"
  ulv_search :: "string option"

definition userListSchema_validate :: "user_list_query \<Rightarrow> string + user_list_value" where
  "userListSchema_validate q =
     (case joi_integer ''limit'' 1 (Some 100) 20 (ulq_limit q) of
        Inl m \<Rightarrow> Inl m
      | Inr l \<Rightarrow>
          (case joi_integer ''offset'' 0 None 0 (ulq_offset q) of
             Inl m \<Rightarrow> Inl m
           | Inr off \<Rightarrow>
               (case joi_valid ''role'' [''USER'', ''ADMIN''] (ulq_role q) of
                  Inl m \<Rightarrow> Inl m
                | Inr ro \<Rightarrow>
                    (case joi_string ''search'' (Some 200) (ulq_search q) of
                       Inl m \<Rightarrow> Inl m
                     | Inr se \<Rightarrow>
                         Inr \<lparr>ulv_limit = l, ulv_offset = off, ulv_role = ro,
                              ulv_search = se\<rparr>))))"

text \<open>\<open>searchCallsSchema\<close> and \<open>searchAgentsSchema\<close>\<close>

record search_calls_query =
  scq_query :: "string option"
  scq_limit :: raw_number
  scq_offset :: raw_number
  scq_agentId :: "string option"

record search_calls_value =
  scv_query :: string
  scv_limit :: int
  scv_offset :: int
  scv_agentId :: "string option"

definition searchCallsSchema_validate :: "search_calls_query \<Rightarrow> string + search_calls_value" where
  "searchCallsSchema_validate q =
     (case joi_required ''query'' 500 (scq_query q) of
        Inl m \<Rightarrow> Inl m
      | Inr qu \<Rightarrow>
          (case joi_integer ''limit'' 1 (Some 100) 20 (scq_limit q) of
             Inl m \<Rightarrow> Inl m
           | Inr l \<Rightarrow>
               (case joi_integer ''offset'' 0 None 0 (scq_offset q) of
                  Inl m \<Rightarrow> Inl m
                | Inr off \<Rightarrow>
                    (case joi_string ''agentId'' None (scq_agentId q) of
                       Inl m \<Rightarrow> Inl m
                     | Inr aid \<Rightarrow>
                         Inr \<lparr>scv_query = qu, scv_limit = l, scv_offset = off,
                              scv_agentId = aid\<rparr>))))"

record search_agents_query =
  saq_query :: "string option"
  saq_limit :: raw_number
  saq_offset :: raw_number

record search_agents_value =
  sav_query :: string
  sav_limit :: int
  sav_offset :: int

definition searchAgentsSchema_validate :: "search_agents_query \<Rightarrow> string + search_agents_value" where
  "searchAgentsSchema_validate q =
     (case joi_required ''query'' 200 (saq_query q) of
        Inl m \<Rightarrow> Inl m
      | Inr qu \<Rightarrow>
          (case joi_integer ''limit'' 1 (Some 100) 20 (saq_limit q) of
             Inl m \<Rightarrow> Inl m
           | Inr l \<Rightarrow>
               (case joi_integer ''offset'' 0 None 0 (saq_offset q) of
                  Inl m \<Rightarrow> Inl m
                | Inr off \<Rightarrow>
                    Inr \<lparr>sav_query = qu, sav_limit = l, sav_offset = off\<rparr>)))"

section \<open>GET /call-history/:agentId (routes/dashboard.js)\<close>

definition jopt :: "string option \<Rightarrow> json" where
  "jopt x = (case x of None \<Rightarrow> JNull | Some s \<Rightarrow> JStr s)"

text \<open>
  \<open>Number(x)\<close> for a \<open>BigInt\<close>: the nearest double, a tie going to the even significand.
  It is \<open>x\<close> itself below \<open>2^53\<close> in absolute value; the 64-bit integers of the
  timestamp columns are far from the range where a double overflows.
\<close>

fun bitLength :: "int \<Rightarrow> nat" where
  "bitLength n = (if n \<le> 0 then 0 else Suc (bitLength (n div 2)))"

declare bitLength.simps [simp del]

definition Number_of_BigInt :: "int \<Rightarrow> int" where
  "Number_of_BigInt x =
     (let m = \<bar>x\<bar>; e = bitLength m - 53 in
      if e = 0 then x
      else (let q = m div 2 ^ e; r = m mod 2 ^ e; half = 2 ^ (e - 1);
                q' = (if r > half \<or> (r = half \<and> odd q) then q + 1 else q)
            in sgn x * (q' * 2 ^ e)))"

text \<open>
  One element of \<open>formattedCalls\<close>: the selected columns of the row, the two timestamps
  converted with \<open>Number\<close>.
\<close>

definition formattedCall :: "call_row \<Rightarrow> json" where
  "formattedCall r = JObj
     [(''id'', JStr (c_id r)),
      (''call_id'', JStr (c_call_id r)),
      (''caller_info'', jopt (c_caller_info r)),
      (''start_timestamp'', JNum (of_int (Number_of_BigInt (c_start_timestamp r)))),
      (''end_timestamp'', JNum (of_int (Number_of_BigInt (c_end_timestamp r)))),
      (''duration_ms'', JNum (of_int (c_duration_ms r))),
      (''duration_seconds'', JNum (of_int (c_duration_seconds r))),
      (''transcript'', jopt (c_transcript r)),
      (''call_status'', JStr (c_call_status r)),
      (''disconnection_reason'', jopt (c_disconnection_reason r)),
      (''cost'', JNum (c_cost r)),
      (''call_summary'', jopt (c_call_summary r)),
      (''user_sentiment'', jopt (c_user_sentiment r)),
      (''call_successful'', JBool (c_call_successful r)),
      (''recording_url'', jopt (c_recording_url r)),
      (''created_at'', JDate (c_created_at r)),
      (''updated_at'', JDate (c_updated_at r))]"

definition orderBy_of :: "string \<Rightarrow> order_by" where
  "orderBy_of sortBy =
     (if sortBy = ''duration'' then By_duration_seconds
      else if sortBy = ''cost'' then By_cost
      else By_start_timestamp)"

text \<open>
  The route handler: it sends a response, or throws, and \<open>asyncHandler\<close> passes what it
  throws to \<open>next\<close>.
\<close>

definition call_history_handler :: "db \<Rightarrow> string \<Rightarrow> call_history_query \<Rightarrow> js_error + response" where
  "call_history_handler d agentId q =
     (case callHistorySchema_validate q of
        Inl m \<Rightarrow> Inl (ValidationError m)
      | Inr v \<Rightarrow>
          (if agentId = [] then Inl (ValidationError ''Agent ID is required'')
           else
             (case agent_findUnique d agentId of
                None \<Rightarrow> Inl (NotFoundError (''Agent with ID '' @ agentId @ '' not found''))
              | Some agent \<Rightarrow>
                  (let limit = nat (v_limit v);
                       offset = nat (v_offset v);
                       orderBy = orderBy_of (v_sortBy v);
                       wh = (\<lambda>r. c_agent_id r = agentId);
                       found = call_findMany d wh orderBy offset limit;
                       totalCount = call_count d wh;
                       formattedCalls = map formattedCall found
                   in Inr \<lparr>resp_status = 200,
                           resp_body = JObj
                             [(''success'', JBool True),
                              (''data'', JObj
                                 [(''calls'', JArr formattedCalls),
                                  (''pagination'', JObj
                                     [(''total'', JNum (of_nat totalCount)),
                                      (''limit'', JNum (of_nat limit)),
                                      (''offset'', JNum (of_nat offset)),
                                      (''hasMore'', JBool (offset + limit < totalCount))])])]\<rparr>))))"

text \<open>
  The response the client receives: the handler's own, or the error handler's rendering
  of what the handler threw (\<open>app.use(errorHandler)\<close> in index.js).
\<close>

definition call_history_endpoint :: "env \<Rightarrow> db \<Rightarrow> string \<Rightarrow> call_history_query \<Rightarrow> response" where
  "call_history_endpoint e d agentId q =
     (case call_history_handler d agentId q of
        Inl err \<Rightarrow> errorHandler e err
      | Inr resp \<Rightarrow> resp)"

text \<open>
  What the client receives from a route: the handler's own response, or the error
  handler's rendering of what the handler threw or a middleware passed to \<open>next\<close>.
\<close>

definition client_response :: "env \<Rightarrow> js_error + response \<Rightarrow> response" where
  "client_response e r = (case r of Inl err \<Rightarrow> errorHandler e err | Inr resp \<Rightarrow> resp)"

section \<open>The other paginated lists (routes/dashboard.js)\<close>

text \<open>
  Modelled from the spec: the relation \<open>agent\<close> of a call and the relation \<open>calls\<close> of an
  agent are declared in the Prisma schema, which is not among the sources. They are
  taken to join a call and an agent on \<open>agent_id\<close> (README: "\<open>agent_id\<close>: Foreign key to
  agents table"); for a call whose agent is not stored the selected relation is \<open>null\<close>.
  The test of \<open>{ contains: s, mode: "insensitive" }\<close> is the database's; it is the
  parameter \<open>contains\<close> of the handlers that search, \<open>contains column s\<close> telling whether
  the text of the column has \<open>s\<close> as a substring, case ignored. A column that is \<open>null\<close>
  matches nothing.
\<close>

definition contains_opt :: "(string \<Rightarrow> string \<Rightarrow> bool) \<Rightarrow> string option \<Rightarrow> string \<Rightarrow> bool" where
  "contains_opt contains column s =
     (case column of None \<Rightarrow> False | Some text \<Rightarrow> contains text s)"

definition agent_relation :: "db \<Rightarrow> string \<Rightarrow> json" where
  "agent_relation d aid =
     (case agent_findUnique d aid of
        None \<Rightarrow> JNull
      | Some a \<Rightarrow> JObj [(''agent_id'', JStr (a_agent_id a)),
                        (''agent_name'', JStr (a_agent_name a))])"

text \<open>
  An element of \<open>agents\<close> in the two lists of agents: the selected columns and
  \<open>_count.calls\<close>.
\<close>

definition agent_item :: "db \<Rightarrow> agent_row \<Rightarrow> json" where
  "agent_item d r = JObj
     [(''id'', JStr (a_id r)),
      (''agent_id'', JStr (a_agent_id r)),
      (''agent_name'', JStr (a_agent_name r)),
      (''status'', JStr (a_status r)),
      (''created_at'', JDate (a_created_at r)),
      (''updated_at'', JDate (a_updated_at r)),
      (''_count'', JObj
         [(''calls'', JNum (of_nat (call_count d (\<lambda>c. c_agent_id c = a_agent_id r))))])]"

text \<open>
  An element of \<open>formattedCalls\<close> in \<open>GET /calls\<close> and \<open>GET /call-history\<close>, and in
  \<open>GET /search/calls\<close>, whose \<open>select\<close> has no \<open>disconnection_reason\<close>.
\<close>

definition formattedCall_agent :: "db \<Rightarrow> call_row \<Rightarrow> json" where
  "formattedCall_agent d r = JObj
     [(''id'', JStr (c_id r)),
      (''call_id'', JStr (c_call_id r)),
      (''agent_id'', JStr (c_agent_id r)),
      (''caller_info'', jopt (c_caller_info r)),
      (''start_timestamp'', JNum (of_int (Number_of_BigInt (c_start_timestamp r)))),
      (''end_timestamp'', JNum (of_int (Number_of_BigInt (c_end_timestamp r)))),
      (''duration_ms'', JNum (of_int (c_duration_ms r))),
      (''duration_seconds'', JNum (of_int (c_duration_seconds r))),
      (''transcript'', jopt (c_transcript r)),
      (''call_status'', JStr (c_call_status r)),
      (''disconnection_reason'', jopt (c_disconnection_reason r)),
      (''cost'', JNum (c_cost r)),
      (''call_summary'', jopt (c_call_summary r)),
      (''user_sentiment'', jopt (c_user_sentiment r)),
      (''call_successful'', JBool (c_call_successful r)),
      (''recording_url'', jopt (c_recording_url r)),
      (''created_at'', JDate (c_created_at r)),
      (''updated_at'', JDate (c_updated_at r)),
      (''agent'', agent_relation d (c_agent_id r))]"

definition formattedCall_search :: "db \<Rightarrow> call_row \<Rightarrow> json" where
  "formattedCall_search d r = JObj
     [(''id'', JStr (c_id r)),
      (''call_id'', JStr (c_call_id r)),
      (''agent_id'', JStr (c_agent_id r)),
      (''caller_info'', jopt (c_caller_info r)),
      (''start_timestamp'', JNum (of_int (Number_of_BigInt (c_start_timestamp r)))),
      (''end_timestamp'', JNum (of_int (Number_of_BigInt (c_end_timestamp r)))),
      (''duration_ms'', JNum (of_int (c_duration_ms r))),
      (''duration_seconds'', JNum (of_int (c_duration_seconds r))),
      (''transcript'', jopt (c_transcript r)),
      (''call_status'', JStr (c_call_status r)),
      (''cost'', JNum (c_cost r)),
      (''call_summary'', jopt (c_call_summary r)),
      (''user_sentiment'', jopt (c_user_sentiment r)),
      (''call_successful'', JBool (c_call_successful r)),
      (''recording_url'', jopt (c_recording_url r)),
      (''created_at'', JDate (c_created_at r)),
      (''updated_at'', JDate (c_updated_at r)),
      (''agent'', agent_relation d (c_agent_id r))]"

text \<open>An element of \<open>users\<close> in \<open>GET /users\<close>.\<close>

definition user_item :: "user_row \<Rightarrow> json" where
  "user_item r = JObj
     [(''id'', JStr (u_id r)),
      (''email'', JStr (u_email r)),
      (''name'', jopt (u_name r)),
      (''role'', JStr (u_role r)),
      (''created_at'', JDate (u_created_at r)),
      (''updated_at'', JDate (u_updated_at r))]"

text \<open>\<open>GET /agents\<close>: the \<open>where\<close> clause it builds, and the handler.\<close>

definition agents_where ::
  "(string \<Rightarrow> string \<Rightarrow> bool) \<Rightarrow> agent_list_value \<Rightarrow> agent_row \<Rightarrow> bool" where
  "agents_where contains v r =
     ((if truthy (alv_status v) then Some (a_status r) = alv_status v else True)
      \<and> (case alv_search v of
           None \<Rightarrow> True
         | Some s \<Rightarrow>
             (if truthy (Some s)
              then contains (a_agent_name r) s \<or> contains (a_agent_id r) s
              else True)))"

definition agents_handler ::
  "(string \<Rightarrow> string \<Rightarrow> bool) \<Rightarrow> db \<Rightarrow> agent_list_query \<Rightarrow> js_error + response" where
  "agents_handler contains d q =
     (case agentListSchema_validate q of
        Inl m \<Rightarrow> Inl (ValidationError m)
      | Inr v \<Rightarrow>
          (let limit = nat (alv_limit v);
               offset = nat (alv_offset v);
               wh = agents_where contains v;
               found = agent_findMany d wh offset limit;
               totalCount = agent_count d wh
           in Inr \<lparr>resp_status = 200,
                   resp_body = JObj
                     [(''success'', JBool True),
                      (''data'', JObj
                         [(''agents'', JArr (map (agent_item d) found)),
                          (''pagination'', JObj
                             [(''total'', JNum (of_nat totalCount)),
                              (''limit'', JNum (of_nat limit)),
                              (''offset'', JNum (of_nat offset)),
                              (''hasMore'', JBool (offset + limit < totalCount))])])]\<rparr>))"

text \<open>
  \<open>GET /calls\<close>. A validated date is a \<open>Date\<close>, which is truthy, and
  \<open>BigInt(Math.floor(new Date(x).getTime()))\<close> is its instant.
\<close>

definition calls_where :: "calls_list_value \<Rightarrow> call_row \<Rightarrow> bool" where
  "calls_where v r =
     ((if truthy (clv_agentId v) then Some (c_agent_id r) = clv_agentId v else True)
      \<and> (if truthy (clv_callStatus v) then Some (c_call_status r) = clv_callStatus v else True)
      \<and> (case clv_startDate v of None \<Rightarrow> True | Some t \<Rightarrow> t \<le> c_start_timestamp r)
      \<and> (case clv_endDate v of None \<Rightarrow> True | Some t \<Rightarrow> c_start_timestamp r \<le> t))"

definition calls_handler :: "db \<Rightarrow> calls_list_query \<Rightarrow> js_error + response" where
  "calls_handler d q =
     (case callsListSchema_validate q of
        Inl m \<Rightarrow> Inl (ValidationError m)
      | Inr v \<Rightarrow>
          (let limit = nat (clv_limit v);
               offset = nat (clv_offset v);
               wh = calls_where v;
               orderBy = orderBy_of (clv_sortBy v);
               found = call_findMany d wh orderBy offset limit;
               totalCount = call_count d wh;
               formattedCalls = map (formattedCall_agent d) found
           in Inr \<lparr>resp_status = 200,
                   resp_body = JObj
                     [(''success'', JBool True),
                      (''data'', JObj
                         [(''calls'', JArr formattedCalls),
                          (''pagination'', JObj
                             [(''total'', JNum (of_nat totalCount)),
                              (''limit'', JNum (of_nat limit)),
                              (''offset'', JNum (of_nat offset)),
                              (''hasMore'', JBool (offset + limit < totalCount))])])]\<rparr>))"

text \<open>\<open>GET /call-history\<close>, the history across all agents: no \<open>where\<close>.\<close>

definition call_history_all_handler :: "db \<Rightarrow> call_history_query \<Rightarrow> js_error + response" where
  "call_history_all_handler d q =
     (case callHistorySchema_validate q of
        Inl m \<Rightarrow> Inl (ValidationError m)
      | Inr v \<Rightarrow>
          (let limit = nat (v_limit v);
               offset = nat (v_offset v);
               orderBy = orderBy_of (v_sortBy v);
               found = call_findMany d (\<lambda>r. True) orderBy offset limit;
               totalCount = call_count d (\<lambda>r. True);
               formattedCalls = map (formattedCall_agent d) found
           in Inr \<lparr>resp_status = 200,
                   resp_body = JObj
                     [(''success'', JBool True),
                      (''data'', JObj
                         [(''calls'', JArr formattedCalls),
                          (''pagination'', JObj
                             [(''total'', JNum (of_nat totalCount)),
                              (''limit'', JNum (of_nat limit)),
                              (''offset'', JNum (of_nat offset)),
                              (''hasMore'', JBool (offset + limit < totalCount))])])]\<rparr>))"

text \<open>
  \<open>GET /users\<close>: the handler, and the route, on which \<open>adminMiddleware\<close> runs first.
\<close>

definition users_where ::
  "(string \<Rightarrow> string \<Rightarrow> bool) \<Rightarrow> user_list_value \<Rightarrow> user_row \<Rightarrow> bool" where
  "users_where contains v r =
     ((if truthy (ulv_role v) then Some (u_role r) = ulv_role v else True)
      \<and> (case ulv_search v of
           None \<Rightarrow> True
         | Some s \<Rightarrow>
             (if truthy (Some s)
              then contains (u_email r) s \<or> contains_opt contains (u_name r) s
              else True)))"

definition users_handler ::
  "(string \<Rightarrow> string \<Rightarrow> bool) \<Rightarrow> db \<Rightarrow> user_list_query \<Rightarrow> js_error + response" where
  "users_handler contains d q =
     (case userListSchema_validate q of
        Inl m \<Rightarrow> Inl (ValidationError m)
      | Inr v \<Rightarrow>
          (let limit = nat (ulv_limit v);
               offset = nat (ulv_offset v);
               wh = users_where contains v;
               found = user_findMany d wh offset limit;
               totalCount = user_count d wh
           in Inr \<lparr>resp_status = 200,
                   resp_body = JObj
                     [(''success'', JBool True),
                      (''data'', JObj
                         [(''users'', JArr (map user_item found)),
                          (''pagination'', JObj
                             [(''total'', JNum (of_nat totalCount)),
                              (''limit'', JNum (of_nat limit)),
                              (''offset'', JNum (of_nat offset)),
                              (''hasMore'', JBool (offset + limit < totalCount))])])]\<rparr>))"

definition users_route ::
  "(string \<Rightarrow> string \<Rightarrow> bool) \<Rightarrow> jwt_payload option \<Rightarrow> db \<Rightarrow> user_list_query
     \<Rightarrow> js_error + response" where
  "users_route contains user d q =
     (case adminMiddleware user of
        Next u \<Rightarrow> users_handler contains d q
      | NextErr err \<Rightarrow> Inl err
      | Sent resp \<Rightarrow> Inr resp)"

text \<open>\<open>GET /search/calls\<close>\<close>

definition search_calls_where ::
  "(string \<Rightarrow> string \<Rightarrow> bool) \<Rightarrow> search_calls_value \<Rightarrow> call_row \<Rightarrow> bool" where
  "search_calls_where contains v r =
     ((contains_opt contains (c_transcript r) (scv_query v)
       \<or> contains_opt contains (c_caller_info r) (scv_query v)
       \<or> contains_opt contains (c_call_summary r) (scv_query v)
       \<or> contains (c_call_id r) (scv_query v))
      \<and> (if truthy (scv_agentId v) then Some (c_agent_id r) = scv_agentId v else True))"

definition search_calls_handler ::
  "(string \<Rightarrow> string \<Rightarrow> bool) \<Rightarrow> db \<Rightarrow> search_calls_query \<Rightarrow> js_error + response" where
  "search_calls_handler contains d q =
     (case searchCallsSchema_validate q of
        Inl m \<Rightarrow> Inl (ValidationError m)
      | Inr v \<Rightarrow>
          (let limit = nat (scv_limit v);
               offset = nat (scv_offset v);
               wh = search_calls_where contains v;
               found = call_findMany d wh By_start_timestamp offset limit;
               totalCount = call_count d wh;
               formattedCalls = map (formattedCall_search d) found
           in Inr \<lparr>resp_status = 200,
                   resp_body = JObj
                     [(''success'', JBool True),
                      (''data'', JObj
                         [(''calls'', JArr formattedCalls),
                          (''pagination'', JObj
                             [(''total'', JNum (of_nat totalCount)),
                              (''limit'', JNum (of_nat limit)),
                              (''offset'', JNum (of_nat offset)),
                              (''hasMore'', JBool (offset + limit < totalCount))])])]\<rparr>))"

text \<open>\<open>GET /search/agents\<close>\<close>

definition search_agents_where ::
  "(string \<Rightarrow> string \<Rightarrow> bool) \<Rightarrow> search_agents_value \<Rightarrow> agent_row \<Rightarrow> bool" where
  "search_agents_where contains v r =
     (contains (a_agent_name r) (sav_query v) \<or> contains (a_agent_id r) (sav_query v))"

definition search_agents_handler ::
  "(string \<Rightarrow> string \<Rightarrow> bool) \<Rightarrow> db \<Rightarrow> search_agents_query \<Rightarrow> js_error + response" where
  "search_agents_handler contains d q =
     (case searchAgentsSchema_validate q of
        Inl m \<Rightarrow> Inl (ValidationError m)
      | Inr v \<Rightarrow>
          (let limit = nat (sav_limit v);
               offset = nat (sav_offset v);
               wh = search_agents_where contains v;
               found = agent_findMany d wh offset limit;
               totalCount = agent_count d wh
           in Inr \<lparr>resp_status = 200,
                   resp_body = JObj
                     [(''success'', JBool True),
                      (''data'', JObj
                         [(''agents'', JArr (map (agent_item d) found)),
                          (''pagination'', JObj
                             [(''total'', JNum (of_nat totalCount)),
                              (''limit'', JNum (of_nat limit)),
                              (''offset'', JNum (of_nat offset)),
                              (''hasMore'', JBool (offset + limit < totalCount))])])]\<rparr>))"

text \<open>
  What the claims say of a paginated response with the page under \<open>data.key\<close>, for the
  validated \<open>limit\<close> and \<open>offset\<close> and \<open>totalCount\<close> records matching the filter: the page has
  at most \<open>limit\<close> records, as many as are left after \<open>offset\<close> up to \<open>limit\<close>; \<open>total\<close>,
  \<open>limit\<close> and \<open>offset\<close> are reported; and \<open>hasMore\<close> is \<open>offset + limit < total\<close>.
\<close>

definition page_ok :: "string \<Rightarrow> nat \<Rightarrow> int \<Rightarrow> int \<Rightarrow> json \<Rightarrow> bool" where
  "page_ok key totalCount limit offset body =
     (case jpath [''data'', key] body of
        Some (JArr items) \<Rightarrow>
          int (length items) \<le> limit
          \<and> length items = min (nat limit) (totalCount - nat offset)
          \<and> jpath [''data'', ''pagination'', ''total''] body = Some (JNum (of_nat totalCount))
          \<and> jpath [''data'', ''pagination'', ''limit''] body = Some (JNum (of_int limit))
          \<and> jpath [''data'', ''pagination'', ''offset''] body = Some (JNum (of_int offset))
          \<and> jpath [''data'', ''pagination'', ''hasMore''] body
              = Some (JBool (offset + limit < int totalCount))
      | _ \<Rightarrow> False)"

text \<open>
  What validation makes of the two pagination parameters, and a supplied limit outside
  \<open>[1,100]\<close>.
\<close>

definition limit_ok :: "raw_number \<Rightarrow> int \<Rightarrow> bool" where
  "limit_ok supplied limit =
     (supplied = Absent \<and> limit = 20
      \<or> supplied = IntVal limit \<and> 1 \<le> limit \<and> limit \<le> 100)"

definition offset_ok :: "raw_number \<Rightarrow> int \<Rightarrow> bool" where
  "offset_ok supplied offset =
     (supplied = Absent \<and> offset = 0 \<or> supplied = IntVal offset \<and> 0 \<le> offset)"

definition limit_out_of_range :: "raw_number \<Rightarrow> bool" where
  "limit_out_of_range supplied =
     (case supplied of IntVal n \<Rightarrow> n < 1 \<or> 100 < n | _ \<Rightarrow> False)"

section \<open>Superadmin bootstrap (lib/superadmin.js)\<close>

text \<open>
  An update or upsert addressed by a unique key changes the row that \<open>findUnique\<close> finds:
  the first row of the table with that key.
\<close>

fun update_first :: "('a \<Rightarrow> bool) \<Rightarrow> ('a \<Rightarrow> 'a) \<Rightarrow> 'a list \<Rightarrow> 'a list" where
  "update_first p f [] = []"
| "update_first p f (x # xs) = (if p x then f x # xs else x # update_first p f xs)"

text \<open>\<open>prisma.user.findUnique({ where: { email } })\<close>\<close>

definition user_findUnique :: "db \<Rightarrow> string \<Rightarrow> user_row option" where
  "user_findUnique d email = find (\<lambda>u. u_email u = email) (users d)"

text \<open>
  \<open>ensureSuperAdmin\<close>. The collaborators are parameters: \<open>hash\<close> is
  \<open>bcrypt.hash(password, 12)\<close>, \<open>new_id\<close> the primary key the database generates for a
  created row and \<open>now\<close> the instant of the run. The result is the store afterwards and
  the log entries written.
\<close>

definition ensureSuperAdmin ::
  "env \<Rightarrow> (string \<Rightarrow> string) \<Rightarrow> string \<Rightarrow> int \<Rightarrow> db \<Rightarrow> db \<times> log_entry list" where
  "ensureSuperAdmin e hash new_id now d =
     (let name = (if truthy (SUPERADMIN_NAME e) then SUPERADMIN_NAME e
                  else Some ''Super Admin'')
      in case (SUPERADMIN_EMAIL e, SUPERADMIN_PASSWORD e) of
           (Some email, Some password) \<Rightarrow>
             (if email = [] \<or> password = [] then
                (d, [log_warn (''SUPERADMIN_EMAIL or SUPERADMIN_PASSWORD not set; '' @
                               ''skipping superadmin bootstrap'') []])
              else
                (case user_findUnique d email of
                   Some existing \<Rightarrow>
                     (if u_role existing \<noteq> ''SUPERADMIN'' then
                        (d\<lparr>users := update_first (\<lambda>u. u_email u = email)
                                      (\<lambda>u. u\<lparr>u_role := ''SUPERADMIN'', u_status := ''APPROVED''\<rparr>)
                                      (users d)\<rparr>, [])
                      else (d, []))
                 | None \<Rightarrow>
                     (d\<lparr>users := users d @
                          [\<lparr>u_id = new_id, u_email = email, u_passwordHash = hash password,
                            u_name = name, u_role = ''SUPERADMIN'', u_status = ''APPROVED'',
                            u_created_at = now, u_updated_at = now\<rparr>]\<rparr>, [])))
         | _ \<Rightarrow>
             (d, [log_warn (''SUPERADMIN_EMAIL or SUPERADMIN_PASSWORD not set; '' @
                            ''skipping superadmin bootstrap'') []]))"

section \<open>The telephony provider's client (lib/retell.js)\<close>

text \<open>A call record as the provider returns it, with the properties the code reads.\<close>

record retell_call_cost =
  combined_cost :: "rat option"

record retell_call_analysis =
  call_summary :: "string option"
  user_sentiment :: "string option"
  call_successful :: "bool option"

record retell_call =
  call_id :: string
  agent_id :: string
  caller_info :: "string option"
  start_timestamp :: "int option"
  end_timestamp :: "int option"
  duration_ms :: "int option"
  transcript :: "string option"
  call_status :: string
  disconnection_reason :: "string option"
  call_cost :: "retell_call_cost option"
  call_analysis :: "retell_call_analysis option"
  recording_url :: "string option"

text \<open>The \<open>options\<close> argument of \<open>getCalls\<close> and the body it posts to \<open>/list-calls\<close>.\<close>

record getCalls_options =
  opt_limit :: "nat option"
  opt_startAfter :: "string option"
  opt_startTimestamp :: "int option"
  opt_endTimestamp :: "int option"

record list_calls_body =
  b_limit :: nat
  b_start_after :: "string option"
  b_start_timestamp :: "int option"
  b_end_timestamp :: "int option"

text \<open>
  \<open>response.data\<close>: an array of calls, an object (whose \<open>calls\<close> property may be missing),
  or \<open>null\<close>.
\<close>

datatype list_calls_data =
    DataArray "retell_call list"
  | DataObject "retell_call list option"
  | DataNull

text \<open>
  The HTTP client is a collaborator: \<open>post body\<close> is the data of the response, or the
  message of the error the request fails with.
\<close>

type_synonym http_post = "list_calls_body \<Rightarrow> string + list_calls_data"

text \<open>\<open>x && { key: x }\<close> for a number: \<open>0\<close> and \<open>undefined\<close> add nothing.\<close>

definition nonzero :: "int option \<Rightarrow> int option" where
  "nonzero x = (case x of Some n \<Rightarrow> (if n = 0 then None else Some n) | None \<Rightarrow> None)"

definition requestBody :: "getCalls_options \<Rightarrow> list_calls_body" where
  "requestBody options =
     \<lparr>b_limit = (case opt_limit options of
                   Some n \<Rightarrow> (if n = 0 then 100 else n) | None \<Rightarrow> 100),
      b_start_after = or_null (opt_startAfter options),
      b_start_timestamp = nonzero (opt_startTimestamp options),
      b_end_timestamp = nonzero (opt_endTimestamp options)\<rparr>"

definition jnum_opt :: "int option \<Rightarrow> json" where
  "jnum_opt x = (case x of None \<Rightarrow> JNull | Some n \<Rightarrow> JNum (of_int n))"

definition options_json :: "getCalls_options \<Rightarrow> json" where
  "options_json options = JObj
     [(''limit'', (case opt_limit options of None \<Rightarrow> JNull | Some n \<Rightarrow> JNum (of_nat n))),
      (''startAfter'', jopt (opt_startAfter options)),
      (''startTimestamp'', jnum_opt (opt_startTimestamp options)),
      (''endTimestamp'', jnum_opt (opt_endTimestamp options))]"

text \<open>\<open>getCalls\<close>: the result or the error thrown, and the log entries written.\<close>

definition getCalls ::
  "http_post \<Rightarrow> getCalls_options \<Rightarrow> (js_error + list_calls_data) \<times> log_entry list" where
  "getCalls post options =
     (case post (requestBody options) of
        Inr data \<Rightarrow> (Inr data, [])
      | Inl m \<Rightarrow>
          (Inl (Error (''Failed to fetch calls: '' @ m)),
           [log_error ''Failed to fetch calls from Retell API''
              [(''error'', JStr m), (''options'', options_json options)]]))"

text \<open>
  \<open>Array.isArray(response) ? response : response.calls || []\<close>; reading \<open>calls\<close> of
  \<open>null\<close> throws a \<open>TypeError\<close>, here \<open>None\<close>.
\<close>

fun response_calls :: "list_calls_data \<Rightarrow> retell_call list option" where
  "response_calls (DataArray cs) = Some cs"
| "response_calls (DataObject (Some cs)) = Some cs"
| "response_calls (DataObject None) = Some []"
| "response_calls DataNull = None"

text \<open>
  The state of the loop of \<open>getAllCallsInRange\<close>: \<open>allCalls\<close>, \<open>startAfter\<close>, the bodies
  posted so far and the log. What the function leaves behind: the array returned or the
  error thrown, the bodies it posted in order, and the log entries written.
\<close>

record drain_state =
  allCalls :: "retell_call list"
  startAfter :: "string option"
  posted :: "list_calls_body list"
  ds_log :: "log_entry list"

record drain_result =
  dr_value :: "js_error + retell_call list"
  dr_posted :: "list_calls_body list"
  dr_log :: "log_entry list"

text \<open>One pass through the body of \<open>while (hasMore)\<close>.\<close>

definition drain_step ::
  "http_post \<Rightarrow> nat \<Rightarrow> int \<Rightarrow> int \<Rightarrow> drain_state \<Rightarrow> drain_state + drain_result" where
  "drain_step post limit startTimestamp endTimestamp s =
     (let options = \<lparr>opt_limit = Some limit, opt_startAfter = startAfter s,
                      opt_startTimestamp = Some startTimestamp,
                      opt_endTimestamp = Some endTimestamp\<rparr>;
          posted' = posted s @ [requestBody options];
          failed = (\<lambda>err l. Inr
            \<lparr>dr_value = Inl err, dr_posted = posted',
             dr_log = ds_log s @ l @
               [log_error ''Error fetching calls batch''
                  [(''error'', JStr (err_message err)),
                   (''startAfter'', jopt (startAfter s))]]\<rparr>)
      in case getCalls post options of
           (Inl err, l) \<Rightarrow> failed err l
         | (Inr response, l) \<Rightarrow>
             (case response_calls response of
                None \<Rightarrow>
                  failed (TypeError ''Cannot read properties of null (reading 'calls')'') l
              | Some cs \<Rightarrow>
                  (let allCalls' = allCalls s @ cs;
                       hasMore = (length cs = limit \<and> length cs > 0)
                   in if hasMore then
                        Inl \<lparr>allCalls = allCalls', startAfter = Some (call_id (last cs)),
                             posted = posted', ds_log = ds_log s @ l\<rparr>
                      else
                        Inr \<lparr>dr_value = Inr allCalls', dr_posted = posted',
                             dr_log = ds_log s @ l\<rparr>)))"

text \<open>
  The loop may run forever (a provider that keeps returning full pages): the result is
  \<open>None\<close> then.
\<close>

partial_function (option) drain_loop ::
  "http_post \<Rightarrow> nat \<Rightarrow> int \<Rightarrow> int \<Rightarrow> drain_state \<Rightarrow> drain_result option" where
  "drain_loop post limit startTimestamp endTimestamp s =
     (case drain_step post limit startTimestamp endTimestamp s of
        Inr r \<Rightarrow> Some r
      | Inl s' \<Rightarrow> drain_loop post limit startTimestamp endTimestamp s')"

declare drain_loop.simps [code]

text \<open>
  \<open>getAllCallsInRange(startDate, endDate, limit)\<close>; the dates are instants in
  milliseconds, \<open>Math.floor(date.getTime() / 1000)\<close> their seconds.
\<close>

definition getAllCallsInRange :: "http_post \<Rightarrow> int \<Rightarrow> int \<Rightarrow> nat \<Rightarrow> drain_result option" where
  "getAllCallsInRange post startDate endDate limit =
     drain_loop post limit (startDate div 1000) (endDate div 1000)
       \<lparr>allCalls = [], startAfter = None, posted = [], ds_log = []\<rparr>"

text \<open>
  The specification's view of the drain: the single-page fetch \<open>fetchPage\<close> at a cursor
  (the records of the page, \<open>None\<close> when the fetch fails), the cursor of the \<open>i\<close>-th
  fetch, which is the identifier of the last record of the page before, and the \<open>i\<close>-th
  page.
\<close>

definition fetchPage ::
  "http_post \<Rightarrow> nat \<Rightarrow> int \<Rightarrow> int \<Rightarrow> string option \<Rightarrow> retell_call list option" where
  "fetchPage post limit startDate endDate cursor =
     (case fst (getCalls post \<lparr>opt_limit = Some limit, opt_startAfter = cursor,
                                opt_startTimestamp = Some (startDate div 1000),
                                opt_endTimestamp = Some (endDate div 1000)\<rparr>) of
        Inl err \<Rightarrow> None
      | Inr response \<Rightarrow> response_calls response)"

fun cursor_at :: "(string option \<Rightarrow> retell_call list option) \<Rightarrow> nat \<Rightarrow> string option" where
  "cursor_at fetch 0 = None"
| "cursor_at fetch (Suc i) =
     (case fetch (cursor_at fetch i) of
        Some (c # cs) \<Rightarrow> Some (call_id (last (c # cs)))
      | _ \<Rightarrow> cursor_at fetch i)"

definition page_at :: "(string option \<Rightarrow> retell_call list option) \<Rightarrow> nat \<Rightarrow> retell_call list option" where
  "page_at fetch i = fetch (cursor_at fetch i)"

text \<open>The body posted for the page at a cursor.\<close>

definition body_at :: "nat \<Rightarrow> int \<Rightarrow> int \<Rightarrow> string option \<Rightarrow> list_calls_body" where
  "body_at limit startDate endDate cursor =
     requestBody \<lparr>opt_limit = Some limit, opt_startAfter = cursor,
                  opt_startTimestamp = Some (startDate div 1000),
                  opt_endTimestamp = Some (endDate div 1000)\<rparr>"

text \<open>
  An agent of the provider's roster, and \<open>getAgents\<close>: \<open>get\<close> is what the request for
  \<open>/agents\<close> yields, the data of the response (an array, or \<open>null\<close>) or the message of
  the error. Of the metadata of the error entry the HTTP status fields are left out.
\<close>

record retell_agent =
  ag_agent_id :: string
  ag_agent_name :: "string option"
  ag_is_published :: "bool option"
  ag_last_modification_timestamp :: "int option"

type_synonym http_get_agents = "string + retell_agent list option"

definition getAgents ::
  "http_get_agents \<Rightarrow> (js_error + retell_agent list option) \<times> log_entry list" where
  "getAgents get =
     (case get of
        Inr data \<Rightarrow> (Inr data, [])
      | Inl m \<Rightarrow>
          (Inl (Error (''Failed to fetch agents: '' @ m)),
           [log_error ''Failed to fetch agents from Retell API'' [(''error'', JStr m)]]))"

section \<open>Writes to storage\<close>

text \<open>
  \<open>prisma.agent.upsert\<close> as the sync calls it: \<open>where: { agent_id }\<close>, the update sets the
  name and \<open>updated_at\<close>, the creation sets identifier, name and status \<open>ACTIVE\<close>. \<open>now\<close>
  is the instant of the operation and \<open>new_id\<close> the primary key generated for a new row.
\<close>

definition agent_upsert :: "int \<Rightarrow> string \<Rightarrow> string \<Rightarrow> string \<Rightarrow> db \<Rightarrow> db" where
  "agent_upsert now new_id aid agentName d =
     (case agent_findUnique d aid of
        Some existing \<Rightarrow>
          d\<lparr>agents := update_first (\<lambda>r. a_agent_id r = aid)
                         (\<lambda>r. r\<lparr>a_agent_name := agentName, a_updated_at := now\<rparr>) (agents d)\<rparr>
      | None \<Rightarrow>
          d\<lparr>agents := agents d @
               [\<lparr>a_id = new_id, a_agent_id = aid, a_agent_name = agentName,
                 a_status = ''ACTIVE'', a_created_at = now, a_updated_at = now\<rparr>]\<rparr>)"

text \<open>
  The object \<open>callData\<close> of the sync. \<open>Math.floor(undefined / 1000)\<close> is \<open>NaN\<close>: a missing
  duration leaves both duration fields without a number, here \<open>None\<close>.
\<close>

record call_data =
  d_call_id :: string
  d_agent_id :: string
  d_caller_info :: "string option"
  d_start_timestamp :: int
  d_end_timestamp :: int
  d_duration_ms :: "int option"
  d_duration_seconds :: "int option"
  d_transcript :: "string option"
  d_call_status :: string
  d_disconnection_reason :: "string option"
  d_cost :: rat
  d_call_summary :: "string option"
  d_user_sentiment :: "string option"
  d_call_successful :: bool
  d_recording_url :: "string option"

definition call_findUnique :: "db \<Rightarrow> string \<Rightarrow> call_row option" where
  "call_findUnique d cid = find (\<lambda>r. c_call_id r = cid) (calls d)"

definition write_call_data :: "call_data \<Rightarrow> int \<Rightarrow> int \<Rightarrow> call_row \<Rightarrow> call_row" where
  "write_call_data cd ms secs r =
     r\<lparr>c_call_id := d_call_id cd, c_agent_id := d_agent_id cd,
       c_caller_info := d_caller_info cd, c_start_timestamp := d_start_timestamp cd,
       c_end_timestamp := d_end_timestamp cd, c_duration_ms := ms,
       c_duration_seconds := secs, c_transcript := d_transcript cd,
       c_call_status := d_call_status cd,
       c_disconnection_reason := d_disconnection_reason cd, c_cost := d_cost cd,
       c_call_summary := d_call_summary cd, c_user_sentiment := d_user_sentiment cd,
       c_call_successful := d_call_successful cd, c_recording_url := d_recording_url cd\<rparr>"

text \<open>
  Modelled from the spec: the Prisma schema is not among the sources, so
  \<open>prisma.call.upsert({ where: { call_id }, update: callData, create: callData })\<close> is
  the specification's upsert by unique key: the row with the call identifier is
  overwritten, and created when there is none. A created row gets equal creation and
  update instants and an updated row a new update instant ("\<open>updated_at\<close>: Last update
  timestamp" in the README). The duration columns hold numbers: a write in which a
  duration is not a number is refused. Whatever else a store may refuse (a constraint
  its schema declares, a lost connection) is a failure of the operation and belongs to
  \<open>w_fault\<close> below. The result is the error, or the store afterwards with the row
  written.
\<close>

definition call_upsert :: "int \<Rightarrow> string \<Rightarrow> call_data \<Rightarrow> db \<Rightarrow> js_error + db \<times> call_row" where
  "call_upsert now new_id cd d =
     (case (d_duration_ms cd, d_duration_seconds cd) of
        (Some ms, Some secs) \<Rightarrow>
          (case call_findUnique d (d_call_id cd) of
             Some existing \<Rightarrow>
               (let row = (write_call_data cd ms secs existing)\<lparr>c_updated_at := now\<rparr>
                in Inr (d\<lparr>calls := update_first (\<lambda>r. c_call_id r = d_call_id cd)
                                        (\<lambda>r. row) (calls d)\<rparr>, row))
           | None \<Rightarrow>
               (let row = write_call_data cd ms secs
                            \<lparr>c_id = new_id, c_call_id = [], c_agent_id = [],
                             c_caller_info = None, c_start_timestamp = 0,
                             c_end_timestamp = 0, c_duration_ms = 0,
                             c_duration_seconds = 0, c_transcript = None,
                             c_call_status = [], c_disconnection_reason = None,
                             c_cost = 0, c_call_summary = None,
                             c_user_sentiment = None, c_call_successful = False,
                             c_recording_url = None, c_created_at = now,
                             c_updated_at = now\<rparr>
                in Inr (d\<lparr>calls := calls d @ [row]\<rparr>, row)))
      | _ \<Rightarrow> Inl (Error ''Invalid value provided for a duration field: expected Int''))"

section \<open>POST /sync-calls (routes/dashboard.js)\<close>

text \<open>
  The surroundings of one run of the handler, indexed by the ordinal of the storage
  operation within the run: the instant of the operation, the primary key the database
  would generate, and the message of the failure the operation meets for reasons outside
  the handler (a lost connection, a constraint of the schema), if any.
\<close>

record world =
  w_clock :: "nat \<Rightarrow> int"
  w_new_id :: "nat \<Rightarrow> string"
  w_fault :: "nat \<Rightarrow> string option"

record sync_body =
  b_days :: raw_number
  b_agentId :: "string option"

text \<open>
  \<open>syncCallsSchema.validate(req.body)\<close>; \<open>Joi.string()\<close> does not admit the empty string.
\<close>

definition syncCallsSchema_validate :: "sync_body \<Rightarrow> string + int \<times> string option" where
  "syncCallsSchema_validate b =
     (case joi_integer ''days'' 1 (Some 90) 30 (b_days b) of
        Inl m \<Rightarrow> Inl m
      | Inr days \<Rightarrow>
          (if b_agentId b = Some []
           then Inl ([CHR 0x22] @ ''agentId'' @ [CHR 0x22] @ '' is not allowed to be empty'')
           else Inr (days, b_agentId b)))"

text \<open>
  \<open>agentMap\<close>: the name under which each agent of the roster is known, a later entry of
  the roster replacing an earlier one with the same identifier. Only the name is read
  afterwards.
\<close>

definition agentMap_of :: "retell_agent list \<Rightarrow> (string \<rightharpoonup> string)" where
  "agentMap_of roster =
     fold (\<lambda>agent m. m(ag_agent_id agent \<mapsto>
              (case ag_agent_name agent of
                 Some n \<Rightarrow> (if n \<noteq> [] then n else ''Agent '' @ ag_agent_id agent)
               | None \<Rightarrow> ''Agent '' @ ag_agent_id agent)))
          roster Map.empty"

text \<open>\<open>[...new Set(xs)]\<close>: the distinct elements in the order of their first occurrence.\<close>

definition uniq :: "'a list \<Rightarrow> 'a list" where
  "uniq xs = rev (remdups (rev xs))"

record sync_state =
  s_db :: db
  s_op :: nat
  s_log :: "log_entry list"
  syncedCount :: nat
  updatedCount :: nat
  errorCount :: nat

text \<open>The body of \<open>for (const agentId of uniqueAgentIds)\<close>.\<close>

definition agent_step :: "world \<Rightarrow> (string \<rightharpoonup> string) \<Rightarrow> string \<Rightarrow> sync_state \<Rightarrow> sync_state" where
  "agent_step w agentMap agentId s =
     (let agentName = (case agentMap agentId of
                         Some n \<Rightarrow> n | None \<Rightarrow> ''Agent '' @ agentId)
      in case w_fault w (s_op s) of
           None \<Rightarrow>
             s\<lparr>s_db := agent_upsert (w_clock w (s_op s)) (w_new_id w (s_op s))
                         agentId agentName (s_db s),
               s_op := Suc (s_op s)\<rparr>
         | Some m \<Rightarrow>
             s\<lparr>s_op := Suc (s_op s),
               s_log := s_log s @
                 [log_error ''Error creating/updating agent''
                    [(''agentId'', JStr agentId), (''error'', JStr m)]]\<rparr>)"

fun upsert_agents :: "world \<Rightarrow> (string \<rightharpoonup> string) \<Rightarrow> string list \<Rightarrow> sync_state \<Rightarrow> sync_state" where
  "upsert_agents w agentMap [] s = s"
| "upsert_agents w agentMap (agentId # ids) s =
     upsert_agents w agentMap ids (agent_step w agentMap agentId s)"

text \<open>
  The body of \<open>for (const call of filteredCalls)\<close>. \<open>BigInt(undefined)\<close> throws before
  anything is sent to storage.
\<close>

definition callData_of :: "retell_call \<Rightarrow> int \<Rightarrow> int \<Rightarrow> call_data" where
  "callData_of call start end =
     \<lparr>d_call_id = call_id call,
      d_agent_id = agent_id call,
      d_caller_info = or_null (caller_info call),
      d_start_timestamp = start,
      d_end_timestamp = end,
      d_duration_ms = duration_ms call,
      d_duration_seconds = map_option (\<lambda>ms. ms div 1000) (duration_ms call),
      d_transcript = or_null (transcript call),
      d_call_status = call_status call,
      d_disconnection_reason = or_null (disconnection_reason call),
      d_cost = (case call_cost call of
                  None \<Rightarrow> 0
                | Some c \<Rightarrow> (case combined_cost c of None \<Rightarrow> 0 | Some x \<Rightarrow> x)),
      d_call_summary = (case call_analysis call of
                          None \<Rightarrow> None | Some a \<Rightarrow> or_null (call_summary a)),
      d_user_sentiment = (case call_analysis call of
                            None \<Rightarrow> None | Some a \<Rightarrow> or_null (user_sentiment a)),
      d_call_successful = (case call_analysis call of
                             None \<Rightarrow> False
                           | Some a \<Rightarrow> (case call_successful a of
                                         None \<Rightarrow> False | Some b \<Rightarrow> b)),
      d_recording_url = or_null (recording_url call)\<rparr>"

definition call_failed :: "retell_call \<Rightarrow> string \<Rightarrow> sync_state \<Rightarrow> sync_state" where
  "call_failed call m s =
     s\<lparr>s_log := s_log s @
          [log_error ''Error processing call''
             [(''callId'', JStr (call_id call)), (''error'', JStr m)]],
       errorCount := Suc (errorCount s)\<rparr>"

definition call_step :: "world \<Rightarrow> retell_call \<Rightarrow> sync_state \<Rightarrow> sync_state" where
  "call_step w call s =
     (case (start_timestamp call, end_timestamp call) of
        (Some start, Some end) \<Rightarrow>
          (let s' = s\<lparr>s_op := Suc (s_op s)\<rparr> in
           case w_fault w (s_op s) of
             Some m \<Rightarrow> call_failed call m s'
           | None \<Rightarrow>
               (case call_upsert (w_clock w (s_op s)) (w_new_id w (s_op s))
                       (callData_of call start end) (s_db s) of
                  Inl err \<Rightarrow> call_failed call (err_message err) s'
                | Inr (d', result) \<Rightarrow>
                    (if c_created_at result = c_updated_at result
                     then s'\<lparr>s_db := d', syncedCount := Suc (syncedCount s)\<rparr>
                     else s'\<lparr>s_db := d', updatedCount := Suc (updatedCount s)\<rparr>)))
      | _ \<Rightarrow> call_failed call ''Cannot convert undefined to a BigInt'' s)"

fun process_calls :: "world \<Rightarrow> retell_call list \<Rightarrow> sync_state \<Rightarrow> sync_state" where
  "process_calls w [] s = s"
| "process_calls w (call # cs) s = process_calls w cs (call_step w call s)"

text \<open>
  What a run of the handler leaves behind: the response sent or the error thrown, the
  store, and the log entries written.
\<close>

record handler_result =
  hr_response :: "js_error + response"
  hr_db :: db
  hr_log :: "log_entry list"

text \<open>
  \<open>filteredCalls\<close> and \<open>uniqueAgentIds\<close>, and the state in which the handler enters its
  two loops.
\<close>

definition filteredCalls_of :: "string option \<Rightarrow> retell_call list \<Rightarrow> retell_call list" where
  "filteredCalls_of agentId cs =
     (case agentId of
        Some a \<Rightarrow> (if a \<noteq> [] then filter (\<lambda>call. agent_id call = a) cs else cs)
      | None \<Rightarrow> cs)"

definition uniqueAgentIds_of :: "retell_call list \<Rightarrow> string list" where
  "uniqueAgentIds_of filteredCalls = uniq (map agent_id filteredCalls)"

definition sync_start :: "db \<Rightarrow> log_entry list \<Rightarrow> sync_state" where
  "sync_start d l =
     \<lparr>s_db = d, s_op = 0, s_log = l, syncedCount = 0, updatedCount = 0, errorCount = 0\<rparr>"

text \<open>
  The first \<open>try\<close> block of the handler: \<open>agentMap\<close> from the provider's roster, empty
  when the roster is empty or cannot be fetched, and the log entries written.
\<close>

definition fetch_agentMap :: "http_get_agents \<Rightarrow> (string \<rightharpoonup> string) \<times> log_entry list" where
  "fetch_agentMap get =
     (case getAgents get of
        (Inr (Some (a # as)), l) \<Rightarrow> (agentMap_of (a # as), l)
      | (Inr _, l) \<Rightarrow> (Map.empty, l @ [log_warn ''No agents found in Retell API'' []])
      | (Inl agentError, l) \<Rightarrow>
          (Map.empty, l @
             [log_warn ''Failed to fetch agents from Retell API, will use default names''
                [(''error'', JStr (err_message agentError))]]))"

text \<open>
  The handler. \<open>now\<close> is the instant of the request; the window starts \<open>days\<close> days
  before it (\<open>setDate\<close> moves the calendar day, which is \<open>days\<close> times 24 hours where the
  server's time zone has no clock change in between). The result is \<open>None\<close> when the
  drain of the provider's call list does not return.
\<close>

definition sync_calls_handler ::
  "world \<Rightarrow> http_get_agents \<Rightarrow> http_post \<Rightarrow> int \<Rightarrow> db \<Rightarrow> sync_body \<Rightarrow> handler_result option" where
  "sync_calls_handler w get post now d body =
     (case syncCallsSchema_validate body of
        Inl m \<Rightarrow> Some \<lparr>hr_response = Inl (ValidationError m), hr_db = d, hr_log = []\<rparr>
      | Inr (days, agentId) \<Rightarrow>
          (let endDate = now;
               startDate = now - days * 86400000;
               dateRange = JObj [(''start'', JDate startDate), (''end'', JDate endDate)];
               (agentMap, log1) = fetch_agentMap get
           in case getAllCallsInRange post startDate endDate 100 of
                None \<Rightarrow> None
              | Some drained \<Rightarrow>
                  (let log2 = log1 @ dr_log drained in
                   case dr_value drained of
                     Inl error \<Rightarrow>
                       Some \<lparr>hr_response = Inl error, hr_db = d,
                             hr_log = log2 @
                               [log_error ''Call sync failed''
                                  [(''error'', JStr (err_message error)),
                                   (''days'', JNum (of_int days)),
                                   (''agentId'', jopt agentId)]]\<rparr>
                   | Inr [] \<Rightarrow>
                       Some \<lparr>hr_response = Inr
                               \<lparr>resp_status = 200,
                                resp_body = JObj
                                  [(''success'', JBool True),
                                   (''message'',
                                      JStr ''No calls found in the specified date range''),
                                   (''callsSynced'', JNum 0),
                                   (''dateRange'', dateRange)]\<rparr>,
                             hr_db = d, hr_log = log2\<rparr>
                   | Inr (c # cs) \<Rightarrow>
                       (let filteredCalls = filteredCalls_of agentId (c # cs);
                            uniqueAgentIds = uniqueAgentIds_of filteredCalls;
                            s1 = upsert_agents w agentMap uniqueAgentIds (sync_start d log2);
                            s2 = process_calls w filteredCalls s1
                        in Some \<lparr>hr_response = Inr
                                   \<lparr>resp_status = 200,
                                    resp_body = JObj
                                      [(''success'', JBool True),
                                       (''message'', JStr ''Call sync completed''),
                                       (''callsSynced'', JNum (of_nat (syncedCount s2))),
                                       (''callsUpdated'', JNum (of_nat (updatedCount s2))),
                                       (''errors'', JNum (of_nat (errorCount s2))),
                                       (''dateRange'', dateRange)]\<rparr>,
                                 hr_db = s_db s2, hr_log = s_log s2\<rparr>))))"


text \<open>
  Notions the properties of the sync are stated with. A stored row comes from a fetched
  record when it carries the record's identifiers, timestamps and duration, the seconds
  being the whole seconds of the milliseconds.
\<close>

definition stored_from :: "retell_call \<Rightarrow> call_row \<Rightarrow> bool" where
  "stored_from c r =
     (c_call_id r = call_id c \<and> c_agent_id r = agent_id c
      \<and> duration_ms c = Some (c_duration_ms r)
      \<and> c_duration_seconds r = c_duration_ms r div 1000
      \<and> start_timestamp c = Some (c_start_timestamp r)
      \<and> end_timestamp c = Some (c_end_timestamp r))"


definition count_msg :: "string \<Rightarrow> log_entry list \<Rightarrow> nat" where
  "count_msg m l = length (filter (\<lambda>e. log_message e = m) l)"

text \<open>The body of the response of a run, when the run ends in a response.\<close>

definition response_body :: "handler_result option \<Rightarrow> json option" where
  "response_body r =
     (case r of
        None \<Rightarrow> None
      | Some res \<Rightarrow> (case hr_response res of Inl err \<Rightarrow> None | Inr resp \<Rightarrow> Some (resp_body resp)))"

text \<open>
  For each stored call, the stored duration in milliseconds and the difference of the
  stored end and start timestamps.
\<close>

definition stored_durations :: "db \<Rightarrow> (int \<times> int) list" where
  "stored_durations d =
     map (\<lambda>r. (c_duration_ms r, c_end_timestamp r - c_start_timestamp r)) (calls d)"


section \<open>Fixtures\<close>

text \<open>Concrete environments and collaborators on which the theorems below are exercised.\<close>

definition never_verify :: "string \<Rightarrow> string \<Rightarrow> jwt_payload option" where
  "never_verify t s = None"

definition env0 :: env where
  "env0 = \<lparr>API_AUTH_KEY = Some ''key-1'', JWT_SECRET = Some ''secret'', NODE_ENV = None,
     SUPERADMIN_EMAIL = Some ''root@example.org'', SUPERADMIN_PASSWORD = Some ''pw'',
     SUPERADMIN_NAME = None\<rparr>"

definition agent1 :: agent_row where
  "agent1 = \<lparr>a_id = ''a-1'', a_agent_id = ''agent_1'', a_agent_name = ''Front desk'',
     a_status = ''ACTIVE'', a_created_at = 1000, a_updated_at = 1000\<rparr>"

definition call1 :: call_row where
  "call1 = \<lparr>c_id = ''c-1'', c_call_id = ''call_1'', c_agent_id = ''agent_1'',
     c_caller_info = None, c_start_timestamp = 1000, c_end_timestamp = 5000,
     c_duration_ms = 4000, c_duration_seconds = 4, c_transcript = None,
     c_call_status = ''ended'', c_disconnection_reason = None, c_cost = 12,
     c_call_summary = None, c_user_sentiment = None, c_call_successful = True,
     c_recording_url = None, c_created_at = 6000, c_updated_at = 6000\<rparr>"

definition db0 :: db where
  "db0 = \<lparr>agents = [], calls = [], users = []\<rparr>"

definition db1 :: db where
  "db1 = \<lparr>agents = [agent1],
           calls = [call1, call1\<lparr>c_id := ''c-2'', c_call_id := ''call_2'', c_cost := 30\<rparr>],
           users = []\<rparr>"

definition query0 :: call_history_query where
  "query0 = \<lparr>q_limit = Absent, q_offset = Absent, q_sortBy = None\<rparr>"

definition user1 :: user_row where
  "user1 = \<lparr>u_id = ''u-1'', u_email = ''root@example.org'', u_passwordHash = ''h1'',
     u_name = None, u_role = ''USER'', u_status = ''PENDING'', u_created_at = 100,
     u_updated_at = 100\<rparr>"

definition user2 :: user_row where
  "user2 = \<lparr>u_id = ''u-2'', u_email = ''ann@example.org'', u_passwordHash = ''h2'',
     u_name = Some ''Ann'', u_role = ''ADMIN'', u_status = ''APPROVED'', u_created_at = 200,
     u_updated_at = 250\<rparr>"

definition db_users :: db where
  "db_users = \<lparr>agents = [], calls = [], users = [user1, user2]\<rparr>"

definition hash0 :: "string \<Rightarrow> string" where
  "hash0 p = ''$2a$12$'' @ p"

definition rc :: "string \<Rightarrow> string \<Rightarrow> retell_call" where
  "rc cid aid = \<lparr>call_id = cid, agent_id = aid, caller_info = None,
     start_timestamp = Some 1000, end_timestamp = Some 5000, duration_ms = Some 4000,
     transcript = None, call_status = ''ended'', disconnection_reason = None,
     call_cost = None, call_analysis = None, recording_url = None\<rparr>"

definition post0 :: http_post where
  "post0 b =
     (if b_start_after b = None then Inr (DataArray [rc ''call_a'' ''agent_1'', rc ''call_b'' ''agent_2''])
      else if b_start_after b = Some ''call_b''
        then Inr (DataArray [rc ''call_c'' ''agent_1'', rc ''call_d'' ''agent_1''])
      else if b_start_after b = Some ''call_d''
        then Inr (DataObject (Some [rc ''call_e'' ''agent_2'']))
      else Inl ''Request failed with status code 500'')"

definition pages0 :: "nat \<Rightarrow> retell_call list" where
  "pages0 i =
     (if i = 0 then [rc ''call_a'' ''agent_1'', rc ''call_b'' ''agent_2'']
      else if i = 1 then [rc ''call_c'' ''agent_1'', rc ''call_d'' ''agent_1'']
      else [rc ''call_e'' ''agent_2''])"

definition w0 :: world where
  "w0 = \<lparr>w_clock = (\<lambda>k. 1700000000000 + int k), w_new_id = (\<lambda>k. ''row-'' @ show_nat k),
          w_fault = (\<lambda>k. None)\<rparr>"

definition w_agent_down :: world where
  "w_agent_down = w0\<lparr>w_fault := (\<lambda>k. if k = 0 then Some ''Connection lost'' else None)\<rparr>"

definition get0 :: http_get_agents where
  "get0 = Inr (Some [\<lparr>ag_agent_id = ''agent_1'', ag_agent_name = Some ''Front desk'',
                      ag_is_published = Some True,
                      ag_last_modification_timestamp = Some 1690000000000\<rparr>])"

definition post_empty :: http_post where
  "post_empty b = Inr (DataArray [])"

definition post_one :: http_post where
  "post_one b = Inr (DataArray [(rc ''call_1'' ''agent_1'')\<lparr>duration_ms := Some 3000\<rparr>])"

definition body7 :: sync_body where
  "body7 = \<lparr>b_days = IntVal 7, b_agentId = None\<rparr>"

definition call_one :: retell_call where
  "call_one = (rc ''call_1'' ''agent_1'')\<lparr>duration_ms := Some 3000\<rparr>"

definition drained_one :: drain_result where
  "drained_one = \<lparr>dr_value = Inr [call_one],
       dr_posted = [body_at 100 (1700000000000 - 7 * 86400000) 1700000000000 None],
       dr_log = []\<rparr>"

text \<open>
  A store with two agents, two calls and two users, the default query of each list, an
  administrator, and a test of containment that ignores the case of the letters A to Z.
\<close>

definition db2 :: db where
  "db2 = \<lparr>agents = [agent1, agent1\<lparr>a_id := ''a-2'', a_agent_id := ''agent_2'',
                                   a_agent_name := ''Sales'', a_created_at := 2000\<rparr>],
           calls = [call1, call1\<lparr>c_id := ''c-2'', c_call_id := ''call_2'', c_cost := 30\<rparr>],
           users = [user1, user2]\<rparr>"

definition agents_query0 :: agent_list_query where
  "agents_query0 = \<lparr>alq_limit = Absent, alq_offset = Absent, alq_status = None,
     alq_search = None\<rparr>"

definition calls_query0 :: calls_list_query where
  "calls_query0 = \<lparr>clq_limit = Absent, clq_offset = Absent, clq_agentId = None,
     clq_startDate = NoDate, clq_endDate = NoDate, clq_callStatus = None, clq_sortBy = None\<rparr>"

definition users_query0 :: user_list_query where
  "users_query0 = \<lparr>ulq_limit = Absent, ulq_offset = Absent, ulq_role = None,
     ulq_search = None\<rparr>"

definition search_calls_query0 :: search_calls_query where
  "search_calls_query0 = \<lparr>scq_query = Some ''CALL'', scq_limit = Absent, scq_offset = Absent,
     scq_agentId = None\<rparr>"

definition search_agents_query0 :: search_agents_query where
  "search_agents_query0 = \<lparr>saq_query = Some ''Agent'', saq_limit = Absent,
     saq_offset = Absent\<rparr>"

definition admin0 :: jwt_payload where
  "admin0 = \<lparr>sub = ''u-2'', role = ''ADMIN''\<rparr>"

definition lower :: "char \<Rightarrow> char" where
  "lower c =
     (case map_of (zip ''ABCDEFGHIJKLMNOPQRSTUVWXYZ'' ''abcdefghijklmnopqrstuvwxyz'') c of
        Some l \<Rightarrow> l
      | None \<Rightarrow> c)"

fun substring :: "string \<Rightarrow> string \<Rightarrow> bool" where
  "substring [] s = (s = [])"
| "substring (c # cs) s = (take (length s) (c # cs) = s \<or> substring cs s)"

definition contains0 :: "string \<Rightarrow> string \<Rightarrow> bool" where
  "contains0 text s = substring (map lower text) (map lower s)"

section \<open>Properties of the error handler and of authentication\<close>

lemma errorHandler_Unauthorized:
  "resp_status (errorHandler e (UnauthorizedError m)) = 401"
  by (simp add: errorHandler_def UnauthorizedError_def AppError_def Let_def)

text \<open>
  Claim C5, as the specification states it, says that a request carrying only a bearer
  token that fails signature verification is rejected with 401. The middleware also
  accepts the static key in the \<open>Authorization\<close> header (its own comment says "Checks for
  API key in Authorization header or x-api-key header"): a bearer token that is no valid
  signed token but equals the configured key authenticates the request.
\<close>

theorem authMiddleware_bearer_key_counterexample:
  "bearerToken \<lparr>authorization = Some ''Bearer key-1'', x_api_key = None\<rparr> = Some ''key-1''
   \<and> never_verify ''key-1'' ''secret'' = None
   \<and> auth_outcome env0 (authMiddleware env0 never_verify
        \<lparr>authorization = Some ''Bearer key-1'', x_api_key = None\<rparr>) = VERIFIED_BY_KEY"
  by (simp add: authMiddleware_def auth_outcome_def bearerToken_def startsWith_def
      never_verify_def env0_def)

text \<open>
  Claim C5, amended: when the static key is configured, every request ends in the state
  the machine \<open>auth_machine\<close> gives. A present bearer token is verified first (when a
  signing secret is configured) and success authenticates by token; otherwise the
  request is authenticated by key exactly when the provided key, which is the static key
  header when present and else the bearer token, equals the configured key; every other
  request is rejected with 401.
\<close>

theorem authMiddleware_machine:
  assumes "API_AUTH_KEY e = Some apiKey" and "apiKey \<noteq> []"
  shows "auth_outcome e (authMiddleware e verify h) =
         auth_machine apiKey (JWT_SECRET e) verify h"
  using assms
  by (cases "bearerToken h"; cases "x_api_key h"; cases "JWT_SECRET e")
     (auto simp: authMiddleware_def auth_machine_def auth_outcome_def
        errorHandler_Unauthorized Let_def split: option.splits)

theorem authMiddleware_machine_witness:
  "API_AUTH_KEY env0 = Some ''key-1'' \<and> ''key-1'' \<noteq> []
   \<and> auth_outcome env0 (authMiddleware env0 never_verify
        \<lparr>authorization = Some ''Bearer other'', x_api_key = None\<rparr>) = REJECTED 401"
  using authMiddleware_machine [of env0 "''key-1''" never_verify
      "\<lparr>authorization = Some ''Bearer other'', x_api_key = None\<rparr>"]
  by (simp add: env0_def auth_machine_def bearerToken_def startsWith_def never_verify_def)

section \<open>Properties of GET /call-history/:agentId\<close>

lemma errorHandler_Validation:
  "resp_status (errorHandler e (ValidationError m)) = 400"
  by (simp add: errorHandler_def ValidationError_def AppError_def Let_def)

lemma joi_integer_range:
  "joi_integer k lo hi d v = Inr n \<Longrightarrow>
     (v = Absent \<and> n = d \<or> v = IntVal n \<and> lo \<le> n \<and> (\<forall>h. hi = Some h \<longrightarrow> n \<le> h))"
  by (auto simp: joi_integer_def Let_def split: raw_number.splits if_splits option.splits)

lemma validate_range:
  assumes "callHistorySchema_validate q = Inr v"
  shows "(q_limit q = Absent \<and> v_limit v = 20
           \<or> q_limit q = IntVal (v_limit v) \<and> 1 \<le> v_limit v \<and> v_limit v \<le> 100)
       \<and> (q_offset q = Absent \<and> v_offset v = 0
           \<or> q_offset q = IntVal (v_offset v) \<and> 0 \<le> v_offset v)"
  using assms
  by (auto simp: callHistorySchema_validate_def split: sum.splits option.splits if_splits
        dest!: joi_integer_range)

text \<open>
  Claim C6 says that for an agent identifier not in storage the response is a 404 whose
  message is \<open>Agent with ID <id> not found\<close>. The handler throws \<open>NotFoundError\<close> with
  exactly that message, but the error handler replaces the message of every
  \<open>NotFoundError\<close> by \<open>Not Found\<close>: the client receives status 404 and the message
  \<open>Not Found\<close>.
\<close>

theorem call_history_unknown_agent_message:
  "call_history_handler db0 ''agent_x'' query0 =
     Inl (NotFoundError ''Agent with ID agent_x not found'')
   \<and> call_history_endpoint env0 db0 ''agent_x'' query0 =
     \<lparr>resp_status = 404,
      resp_body = JObj [(''error'', JBool True), (''message'', JStr ''Not Found'')]\<rparr>"
  by (simp add: call_history_endpoint_def call_history_handler_def
      callHistorySchema_validate_def joi_integer_def query0_def db0_def agent_findUnique_def
      errorHandler_def NotFoundError_def AppError_def env0_def Let_def)

section \<open>Properties of the paginated lists\<close>

lemma limit_okI:
  "joi_integer ''limit'' 1 (Some 100) 20 x = Inr l \<Longrightarrow> limit_ok x l"
  by (drule joi_integer_range) (auto simp: limit_ok_def)

lemma offset_okI:
  "joi_integer ''offset'' 0 None 0 x = Inr off \<Longrightarrow> offset_ok x off"
  by (drule joi_integer_range) (auto simp: offset_ok_def)

lemma limit_rejected:
  "limit_out_of_range x \<Longrightarrow> \<exists>m. joi_integer ''limit'' 1 (Some 100) 20 x = Inl m"
  by (cases x) (auto simp: limit_out_of_range_def joi_integer_def Let_def)

lemma callHistory_valid:
  assumes "callHistorySchema_validate q = Inr v"
  shows "limit_ok (q_limit q) (v_limit v) \<and> offset_ok (q_offset q) (v_offset v)"
  using validate_range [OF assms] by (simp add: limit_ok_def offset_ok_def)

lemma agentList_valid:
  assumes "agentListSchema_validate q = Inr v"
  shows "limit_ok (alq_limit q) (alv_limit v) \<and> offset_ok (alq_offset q) (alv_offset v)"
proof -
  from assms obtain l off where
    "joi_integer ''limit'' 1 (Some 100) 20 (alq_limit q) = Inr l"
    "joi_integer ''offset'' 0 None 0 (alq_offset q) = Inr off"
    "alv_limit v = l" "alv_offset v = off"
    by (auto simp: agentListSchema_validate_def split: sum.splits)
  then show ?thesis by (auto intro: limit_okI offset_okI)
qed

lemma callsList_valid:
  assumes "callsListSchema_validate q = Inr v"
  shows "limit_ok (clq_limit q) (clv_limit v) \<and> offset_ok (clq_offset q) (clv_offset v)"
proof -
  from assms obtain l off where
    "joi_integer ''limit'' 1 (Some 100) 20 (clq_limit q) = Inr l"
    "joi_integer ''offset'' 0 None 0 (clq_offset q) = Inr off"
    "clv_limit v = l" "clv_offset v = off"
    by (auto simp: callsListSchema_validate_def split: sum.splits)
  then show ?thesis by (auto intro: limit_okI offset_okI)
qed

lemma userList_valid:
  assumes "userListSchema_validate q = Inr v"
  shows "limit_ok (ulq_limit q) (ulv_limit v) \<and> offset_ok (ulq_offset q) (ulv_offset v)"
proof -
  from assms obtain l off where
    "joi_integer ''limit'' 1 (Some 100) 20 (ulq_limit q) = Inr l"
    "joi_integer ''offset'' 0 None 0 (ulq_offset q) = Inr off"
    "ulv_limit v = l" "ulv_offset v = off"
    by (auto simp: userListSchema_validate_def split: sum.splits)
  then show ?thesis by (auto intro: limit_okI offset_okI)
qed

lemma searchCalls_valid:
  assumes "searchCallsSchema_validate q = Inr v"
  shows "limit_ok (scq_limit q) (scv_limit v) \<and> offset_ok (scq_offset q) (scv_offset v)"
proof -
  from assms obtain l off where
    "joi_integer ''limit'' 1 (Some 100) 20 (scq_limit q) = Inr l"
    "joi_integer ''offset'' 0 None 0 (scq_offset q) = Inr off"
    "scv_limit v = l" "scv_offset v = off"
    by (auto simp: searchCallsSchema_validate_def split: sum.splits)
  then show ?thesis by (auto intro: limit_okI offset_okI)
qed

lemma searchAgents_valid:
  assumes "searchAgentsSchema_validate q = Inr v"
  shows "limit_ok (saq_limit q) (sav_limit v) \<and> offset_ok (saq_offset q) (sav_offset v)"
proof -
  from assms obtain l off where
    "joi_integer ''limit'' 1 (Some 100) 20 (saq_limit q) = Inr l"
    "joi_integer ''offset'' 0 None 0 (saq_offset q) = Inr off"
    "sav_limit v = l" "sav_offset v = off"
    by (auto simp: searchAgentsSchema_validate_def split: sum.splits)
  then show ?thesis by (auto intro: limit_okI offset_okI)
qed

lemma limit_ok_pos: "limit_ok x l \<Longrightarrow> 0 \<le> l"
  by (auto simp: limit_ok_def)

lemma offset_ok_pos: "offset_ok x off \<Longrightarrow> 0 \<le> off"
  by (auto simp: offset_ok_def)

lemma page_ok_body:
  assumes "0 \<le> limit" and "0 \<le> offset" and "length xs = n" and "key \<noteq> ''pagination''"
  shows "page_ok key n limit offset
     (JObj [(''success'', JBool True),
            (''data'', JObj
               [(key, JArr (map f (take (nat limit) (drop (nat offset) xs)))),
                (''pagination'', JObj
                   [(''total'', JNum (of_nat n)),
                    (''limit'', JNum (of_nat (nat limit))),
                    (''offset'', JNum (of_nat (nat offset))),
                    (''hasMore'', JBool (nat offset + nat limit < n))])])])"
proof -
  have h: "(nat offset + nat limit < n) = (offset + limit < int n)"
    using assms(1,2) by linarith
  have l: "(of_nat (nat limit) :: rat) = of_int limit" "(of_nat (nat offset) :: rat) = of_int offset"
    using assms(1,2) by simp_all
  have c: "int (min (length xs - nat offset) (nat limit)) \<le> limit"
    using assms(1) by linarith
  show ?thesis
    using assms(3,4) c by (simp add: page_ok_def h l min.commute)
qed

lemma page_okD:
  assumes "page_ok key n limit offset body"
  shows "\<exists>items. jpath [''data'', key] body = Some (JArr items)
           \<and> int (length items) \<le> limit
           \<and> length items = min (nat limit) (n - nat offset)"
    and "jpath [''data'', ''pagination'', ''total''] body = Some (JNum (of_nat n))"
    and "jpath [''data'', ''pagination'', ''hasMore''] body
              = Some (JBool (offset + limit < int n))"
  using assms by (auto simp: page_ok_def split: option.splits json.splits)

lemma call_history_page:
  assumes "call_history_handler d agentId q = Inr resp"
  shows "\<exists>v. callHistorySchema_validate q = Inr v
     \<and> page_ok ''calls'' (length (filter (\<lambda>r. c_agent_id r = agentId) (calls d)))
         (v_limit v) (v_offset v) (resp_body resp)"
proof -
  from assms obtain v where v: "callHistorySchema_validate q = Inr v"
    by (auto simp: call_history_handler_def split: sum.splits)
  note r = callHistory_valid [OF v]
  from r have p: "0 \<le> v_limit v" "0 \<le> v_offset v"
    by (auto dest: limit_ok_pos offset_ok_pos)
  from assms v obtain ag where a: "agentId \<noteq> []" "agent_findUnique d agentId = Some ag"
    by (auto simp: call_history_handler_def split: sum.splits if_splits option.splits)
  have b: "resp_body resp = JObj [(''success'', JBool True),
            (''data'', JObj
               [(''calls'', JArr (map formattedCall (take (nat (v_limit v)) (drop (nat (v_offset v))
                   (sort_key (\<lambda>r. - order_key (orderBy_of (v_sortBy v)) r)
                      (filter (\<lambda>r. c_agent_id r = agentId) (calls d))))))),
                (''pagination'', JObj
                   [(''total'', JNum (of_nat (length (filter (\<lambda>r. c_agent_id r = agentId) (calls d))))),
                    (''limit'', JNum (of_nat (nat (v_limit v)))),
                    (''offset'', JNum (of_nat (nat (v_offset v)))),
                    (''hasMore'', JBool (nat (v_offset v) + nat (v_limit v)
                        < length (filter (\<lambda>r. c_agent_id r = agentId) (calls d))))])])]"
    using assms v a
    by (auto simp: call_history_handler_def call_findMany_def call_count_def Let_def)
  show ?thesis
    unfolding b by (intro exI [of _ v] conjI v page_ok_body p) simp_all
qed

lemma call_history_all_page:
  assumes "call_history_all_handler d q = Inr resp"
  shows "\<exists>v. callHistorySchema_validate q = Inr v
     \<and> page_ok ''calls'' (length (calls d)) (v_limit v) (v_offset v) (resp_body resp)"
proof -
  from assms obtain v where v: "callHistorySchema_validate q = Inr v"
    by (auto simp: call_history_all_handler_def split: sum.splits)
  note r = callHistory_valid [OF v]
  from r have p: "0 \<le> v_limit v" "0 \<le> v_offset v"
    by (auto dest: limit_ok_pos offset_ok_pos)
  have b: "resp_body resp = JObj [(''success'', JBool True),
            (''data'', JObj
               [(''calls'', JArr (map (formattedCall_agent d) (take (nat (v_limit v)) (drop (nat (v_offset v))
                   (sort_key (\<lambda>r. - order_key (orderBy_of (v_sortBy v)) r) (calls d)))))),
                (''pagination'', JObj
                   [(''total'', JNum (of_nat (length (calls d)))),
                    (''limit'', JNum (of_nat (nat (v_limit v)))),
                    (''offset'', JNum (of_nat (nat (v_offset v)))),
                    (''hasMore'', JBool (nat (v_offset v) + nat (v_limit v) < length (calls d)))])])]"
    using assms v
    by (auto simp: call_history_all_handler_def call_findMany_def call_count_def Let_def)
  show ?thesis
    unfolding b by (intro exI [of _ v] conjI v page_ok_body p) simp_all
qed

lemma agents_page:
  assumes "agents_handler contains d q = Inr resp"
  shows "\<exists>v. agentListSchema_validate q = Inr v
     \<and> page_ok ''agents'' (length (filter (agents_where contains v) (agents d)))
         (alv_limit v) (alv_offset v) (resp_body resp)"
proof -
  from assms obtain v where v: "agentListSchema_validate q = Inr v"
    by (auto simp: agents_handler_def split: sum.splits)
  note r = agentList_valid [OF v]
  from r have p: "0 \<le> alv_limit v" "0 \<le> alv_offset v"
    by (auto dest: limit_ok_pos offset_ok_pos)
  have b: "resp_body resp = JObj [(''success'', JBool True),
            (''data'', JObj
               [(''agents'', JArr (map (agent_item d) (take (nat (alv_limit v)) (drop (nat (alv_offset v))
                   (sort_key (\<lambda>r. - a_created_at r) (filter (agents_where contains v) (agents d))))))),
                (''pagination'', JObj
                   [(''total'', JNum (of_nat (length (filter (agents_where contains v) (agents d))))),
                    (''limit'', JNum (of_nat (nat (alv_limit v)))),
                    (''offset'', JNum (of_nat (nat (alv_offset v)))),
                    (''hasMore'', JBool (nat (alv_offset v) + nat (alv_limit v)
                        < length (filter (agents_where contains v) (agents d))))])])]"
    using assms v
    by (auto simp: agents_handler_def agent_findMany_def agent_count_def Let_def)
  show ?thesis
    unfolding b by (intro exI [of _ v] conjI v page_ok_body p) simp_all
qed

lemma calls_page:
  assumes "calls_handler d q = Inr resp"
  shows "\<exists>v. callsListSchema_validate q = Inr v
     \<and> page_ok ''calls'' (length (filter (calls_where v) (calls d)))
         (clv_limit v) (clv_offset v) (resp_body resp)"
proof -
  from assms obtain v where v: "callsListSchema_validate q = Inr v"
    by (auto simp: calls_handler_def split: sum.splits)
  note r = callsList_valid [OF v]
  from r have p: "0 \<le> clv_limit v" "0 \<le> clv_offset v"
    by (auto dest: limit_ok_pos offset_ok_pos)
  have b: "resp_body resp = JObj [(''success'', JBool True),
            (''data'', JObj
               [(''calls'', JArr (map (formattedCall_agent d) (take (nat (clv_limit v)) (drop (nat (clv_offset v))
                   (sort_key (\<lambda>r. - order_key (orderBy_of (clv_sortBy v)) r)
                      (filter (calls_where v) (calls d))))))),
                (''pagination'', JObj
                   [(''total'', JNum (of_nat (length (filter (calls_where v) (calls d))))),
                    (''limit'', JNum (of_nat (nat (clv_limit v)))),
                    (''offset'', JNum (of_nat (nat (clv_offset v)))),
                    (''hasMore'', JBool (nat (clv_offset v) + nat (clv_limit v)
                        < length (filter (calls_where v) (calls d))))])])]"
    using assms v
    by (auto simp: calls_handler_def call_findMany_def call_count_def Let_def)
  show ?thesis
    unfolding b by (intro exI [of _ v] conjI v page_ok_body p) simp_all
qed

lemma users_page:
  assumes "users_handler contains d q = Inr resp"
  shows "\<exists>v. userListSchema_validate q = Inr v
     \<and> page_ok ''users'' (length (filter (users_where contains v) (users d)))
         (ulv_limit v) (ulv_offset v) (resp_body resp)"
proof -
  from assms obtain v where v: "userListSchema_validate q = Inr v"
    by (auto simp: users_handler_def split: sum.splits)
  note r = userList_valid [OF v]
  from r have p: "0 \<le> ulv_limit v" "0 \<le> ulv_offset v"
    by (auto dest: limit_ok_pos offset_ok_pos)
  have b: "resp_body resp = JObj [(''success'', JBool True),
            (''data'', JObj
               [(''users'', JArr (map user_item (take (nat (ulv_limit v)) (drop (nat (ulv_offset v))
                   (sort_key (\<lambda>r. - u_created_at r) (filter (users_where contains v) (users d))))))),
                (''pagination'', JObj
                   [(''total'', JNum (of_nat (length (filter (users_where contains v) (users d))))),
                    (''limit'', JNum (of_nat (nat (ulv_limit v)))),
                    (''offset'', JNum (of_nat (nat (ulv_offset v)))),
                    (''hasMore'', JBool (nat (ulv_offset v) + nat (ulv_limit v)
                        < length (filter (users_where contains v) (users d))))])])]"
    using assms v
    by (auto simp: users_handler_def user_findMany_def user_count_def Let_def)
  show ?thesis
    unfolding b by (intro exI [of _ v] conjI v page_ok_body p) simp_all
qed

lemma adminMiddleware_cases:
  "adminMiddleware user = Next user
   \<or> adminMiddleware user = NextErr (UnauthorizedError ''Authentication required'')
   \<or> adminMiddleware user = NextErr (ForbiddenError ''Admin access required'')"
  by (simp add: adminMiddleware_def split: option.splits)

lemma users_route_served:
  assumes "users_route contains user d q = Inr resp"
  shows "adminMiddleware user = Next user" and "users_handler contains d q = Inr resp"
  using assms adminMiddleware_cases [of user]
  by (auto simp: users_route_def)

lemma search_calls_page:
  assumes "search_calls_handler contains d q = Inr resp"
  shows "\<exists>v. searchCallsSchema_validate q = Inr v
     \<and> page_ok ''calls'' (length (filter (search_calls_where contains v) (calls d)))
         (scv_limit v) (scv_offset v) (resp_body resp)"
proof -
  from assms obtain v where v: "searchCallsSchema_validate q = Inr v"
    by (auto simp: search_calls_handler_def split: sum.splits)
  note r = searchCalls_valid [OF v]
  from r have p: "0 \<le> scv_limit v" "0 \<le> scv_offset v"
    by (auto dest: limit_ok_pos offset_ok_pos)
  have b: "resp_body resp = JObj [(''success'', JBool True),
            (''data'', JObj
               [(''calls'', JArr (map (formattedCall_search d) (take (nat (scv_limit v)) (drop (nat (scv_offset v))
                   (sort_key (\<lambda>r. - order_key By_start_timestamp r)
                      (filter (search_calls_where contains v) (calls d))))))),
                (''pagination'', JObj
                   [(''total'', JNum (of_nat (length (filter (search_calls_where contains v) (calls d))))),
                    (''limit'', JNum (of_nat (nat (scv_limit v)))),
                    (''offset'', JNum (of_nat (nat (scv_offset v)))),
                    (''hasMore'', JBool (nat (scv_offset v) + nat (scv_limit v)
                        < length (filter (search_calls_where contains v) (calls d))))])])]"
    using assms v
    by (auto simp: search_calls_handler_def call_findMany_def call_count_def Let_def)
  show ?thesis
    unfolding b by (intro exI [of _ v] conjI v page_ok_body p) simp_all
qed

lemma search_agents_page:
  assumes "search_agents_handler contains d q = Inr resp"
  shows "\<exists>v. searchAgentsSchema_validate q = Inr v
     \<and> page_ok ''agents'' (length (filter (search_agents_where contains v) (agents d)))
         (sav_limit v) (sav_offset v) (resp_body resp)"
proof -
  from assms obtain v where v: "searchAgentsSchema_validate q = Inr v"
    by (auto simp: search_agents_handler_def split: sum.splits)
  note r = searchAgents_valid [OF v]
  from r have p: "0 \<le> sav_limit v" "0 \<le> sav_offset v"
    by (auto dest: limit_ok_pos offset_ok_pos)
  have b: "resp_body resp = JObj [(''success'', JBool True),
            (''data'', JObj
               [(''agents'', JArr (map (agent_item d) (take (nat (sav_limit v)) (drop (nat (sav_offset v))
                   (sort_key (\<lambda>r. - a_created_at r)
                      (filter (search_agents_where contains v) (agents d))))))),
                (''pagination'', JObj
                   [(''total'', JNum (of_nat (length (filter (search_agents_where contains v) (agents d))))),
                    (''limit'', JNum (of_nat (nat (sav_limit v)))),
                    (''offset'', JNum (of_nat (nat (sav_offset v)))),
                    (''hasMore'', JBool (nat (sav_offset v) + nat (sav_limit v)
                        < length (filter (search_agents_where contains v) (agents d))))])])]"
    using assms v
    by (auto simp: search_agents_handler_def agent_findMany_def agent_count_def Let_def)
  show ?thesis
    unfolding b by (intro exI [of _ v] conjI v page_ok_body p) simp_all
qed

text \<open>
  Claim C7: in every successful response of each of the seven paginated lists (the call
  history of an agent, the call history across agents, the agents, the calls, the users,
  the search of calls and the search of agents) the number of returned records is at
  most the validated limit, and is what is left of the matching records after \<open>offset\<close>, up
  to \<open>limit\<close>; \<open>total\<close> is the number of stored records matching the filter of the
  query (the \<open>where\<close> clause the handler builds); and \<open>hasMore\<close> is
  \<open>offset + limit < total\<close>.
\<close>

theorem list_pagination:
  "(\<forall>resp. call_history_handler d agentId q = Inr resp \<longrightarrow>
      (\<exists>v. callHistorySchema_validate q = Inr v
         \<and> page_ok ''calls'' (length (filter (\<lambda>r. c_agent_id r = agentId) (calls d)))
              (v_limit v) (v_offset v) (resp_body resp)))
   \<and> (\<forall>resp. call_history_all_handler d q = Inr resp \<longrightarrow>
      (\<exists>v. callHistorySchema_validate q = Inr v
         \<and> page_ok ''calls'' (length (calls d)) (v_limit v) (v_offset v) (resp_body resp)))
   \<and> (\<forall>resp. agents_handler contains d qa = Inr resp \<longrightarrow>
      (\<exists>v. agentListSchema_validate qa = Inr v
         \<and> page_ok ''agents'' (length (filter (agents_where contains v) (agents d)))
              (alv_limit v) (alv_offset v) (resp_body resp)))
   \<and> (\<forall>resp. calls_handler d qc = Inr resp \<longrightarrow>
      (\<exists>v. callsListSchema_validate qc = Inr v
         \<and> page_ok ''calls'' (length (filter (calls_where v) (calls d)))
              (clv_limit v) (clv_offset v) (resp_body resp)))
   \<and> (\<forall>resp. users_route contains user d qu = Inr resp \<longrightarrow>
      (\<exists>v. userListSchema_validate qu = Inr v
         \<and> page_ok ''users'' (length (filter (users_where contains v) (users d)))
              (ulv_limit v) (ulv_offset v) (resp_body resp)))
   \<and> (\<forall>resp. search_calls_handler contains d qs = Inr resp \<longrightarrow>
      (\<exists>v. searchCallsSchema_validate qs = Inr v
         \<and> page_ok ''calls'' (length (filter (search_calls_where contains v) (calls d)))
              (scv_limit v) (scv_offset v) (resp_body resp)))
   \<and> (\<forall>resp. search_agents_handler contains d qg = Inr resp \<longrightarrow>
      (\<exists>v. searchAgentsSchema_validate qg = Inr v
         \<and> page_ok ''agents'' (length (filter (search_agents_where contains v) (agents d)))
              (sav_limit v) (sav_offset v) (resp_body resp)))"
proof (intro conjI allI impI)
  fix resp assume "call_history_handler d agentId q = Inr resp"
  then show "\<exists>v. callHistorySchema_validate q = Inr v
         \<and> page_ok ''calls'' (length (filter (\<lambda>r. c_agent_id r = agentId) (calls d)))
              (v_limit v) (v_offset v) (resp_body resp)"
    by (rule call_history_page)
next
  fix resp assume "call_history_all_handler d q = Inr resp"
  then show "\<exists>v. callHistorySchema_validate q = Inr v
         \<and> page_ok ''calls'' (length (calls d)) (v_limit v) (v_offset v) (resp_body resp)"
    by (rule call_history_all_page)
next
  fix resp assume "agents_handler contains d qa = Inr resp"
  then show "\<exists>v. agentListSchema_validate qa = Inr v
         \<and> page_ok ''agents'' (length (filter (agents_where contains v) (agents d)))
              (alv_limit v) (alv_offset v) (resp_body resp)"
    by (rule agents_page)
next
  fix resp assume "calls_handler d qc = Inr resp"
  then show "\<exists>v. callsListSchema_validate qc = Inr v
         \<and> page_ok ''calls'' (length (filter (calls_where v) (calls d)))
              (clv_limit v) (clv_offset v) (resp_body resp)"
    by (rule calls_page)
next
  fix resp assume "users_route contains user d qu = Inr resp"
  then have "users_handler contains d qu = Inr resp"
    by (rule users_route_served)
  then show "\<exists>v. userListSchema_validate qu = Inr v
         \<and> page_ok ''users'' (length (filter (users_where contains v) (users d)))
              (ulv_limit v) (ulv_offset v) (resp_body resp)"
    by (rule users_page)
next
  fix resp assume "search_calls_handler contains d qs = Inr resp"
  then show "\<exists>v. searchCallsSchema_validate qs = Inr v
         \<and> page_ok ''calls'' (length (filter (search_calls_where contains v) (calls d)))
              (scv_limit v) (scv_offset v) (resp_body resp)"
    by (rule search_calls_page)
next
  fix resp assume "search_agents_handler contains d qg = Inr resp"
  then show "\<exists>v. searchAgentsSchema_validate qg = Inr v
         \<and> page_ok ''agents'' (length (filter (search_agents_where contains v) (agents d)))
              (sav_limit v) (sav_offset v) (resp_body resp)"
    by (rule search_agents_page)
qed

lemma page_shown:
  assumes "page_ok key n limit offset body" and "min (nat limit) (n - nat offset) = k"
    and "(offset + limit < int n) = h"
  shows "page_ok key n limit offset body
     \<and> (\<exists>items. jpath [''data'', key] body = Some (JArr items) \<and> length items = k)
     \<and> jpath [''data'', ''pagination'', ''hasMore''] body = Some (JBool h)"
  using page_okD [OF assms(1)] assms by auto

lemma db2_agents:
  "agent_findUnique db2 ''agent_1'' = Some agent1"
  by (simp add: agent_findUnique_def db2_def agent1_def)

lemma valid_history_1:
  "callHistorySchema_validate (query0\<lparr>q_limit := IntVal 1\<rparr>)
     = Inr \<lparr>v_limit = 1, v_offset = 0, v_sortBy = ''date''\<rparr>"
  by (simp add: callHistorySchema_validate_def joi_integer_def query0_def)

lemma valid_history_2:
  "callHistorySchema_validate (query0\<lparr>q_limit := IntVal 2\<rparr>)
     = Inr \<lparr>v_limit = 2, v_offset = 0, v_sortBy = ''date''\<rparr>"
  by (simp add: callHistorySchema_validate_def joi_integer_def query0_def)

lemma valid_agents_1:
  "agentListSchema_validate (agents_query0\<lparr>alq_limit := IntVal 1, alq_search := Some ''SALES''\<rparr>)
     = Inr \<lparr>alv_limit = 1, alv_offset = 0, alv_status = None, alv_search = Some ''SALES''\<rparr>"
  by (simp add: agentListSchema_validate_def joi_integer_def joi_valid_def joi_string_def
      agents_query0_def)

lemma valid_calls_1:
  "callsListSchema_validate
     (calls_query0\<lparr>clq_limit := IntVal 1, clq_offset := IntVal 1, clq_agentId := Some ''agent_1''\<rparr>)
     = Inr \<lparr>clv_limit = 1, clv_offset = 1, clv_agentId = Some ''agent_1'', clv_startDate = None,
            clv_endDate = None, clv_callStatus = None, clv_sortBy = ''date''\<rparr>"
  by (simp add: callsListSchema_validate_def joi_integer_def joi_valid_def joi_string_def
      joi_date_def calls_query0_def)

lemma valid_users_1:
  "userListSchema_validate (users_query0\<lparr>ulq_limit := IntVal 1\<rparr>)
     = Inr \<lparr>ulv_limit = 1, ulv_offset = 0, ulv_role = None, ulv_search = None\<rparr>"
  by (simp add: userListSchema_validate_def joi_integer_def joi_valid_def joi_string_def
      users_query0_def)

lemma valid_search_calls_1:
  "searchCallsSchema_validate (search_calls_query0\<lparr>scq_limit := IntVal 1\<rparr>)
     = Inr \<lparr>scv_query = ''CALL'', scv_limit = 1, scv_offset = 0, scv_agentId = None\<rparr>"
  by (simp add: searchCallsSchema_validate_def joi_integer_def joi_required_def joi_string_def
      search_calls_query0_def)

lemma valid_search_agents_0:
  "searchAgentsSchema_validate search_agents_query0
     = Inr \<lparr>sav_query = ''Agent'', sav_limit = 20, sav_offset = 0\<rparr>"
  by (simp add: searchAgentsSchema_validate_def joi_integer_def joi_required_def
      search_agents_query0_def)

lemma admin0_passes: "adminMiddleware (Some admin0) = Next (Some admin0)"
  by (simp add: adminMiddleware_def admin0_def)

theorem list_pagination_witness:
  "(\<exists>resp. call_history_handler db2 ''agent_1'' (query0\<lparr>q_limit := IntVal 1\<rparr>) = Inr resp
      \<and> page_ok ''calls'' 2 1 0 (resp_body resp)
      \<and> (\<exists>items. jpath [''data'', ''calls''] (resp_body resp) = Some (JArr items)
            \<and> length items = 1)
      \<and> jpath [''data'', ''pagination'', ''hasMore''] (resp_body resp) = Some (JBool True))
   \<and> (\<exists>resp. call_history_all_handler db2 (query0\<lparr>q_limit := IntVal 2\<rparr>) = Inr resp
      \<and> page_ok ''calls'' 2 2 0 (resp_body resp)
      \<and> (\<exists>items. jpath [''data'', ''calls''] (resp_body resp) = Some (JArr items)
            \<and> length items = 2)
      \<and> jpath [''data'', ''pagination'', ''hasMore''] (resp_body resp) = Some (JBool False))
   \<and> (\<exists>resp. agents_handler contains0 db2
               (agents_query0\<lparr>alq_limit := IntVal 1, alq_search := Some ''SALES''\<rparr>) = Inr resp
      \<and> page_ok ''agents'' 1 1 0 (resp_body resp)
      \<and> (\<exists>items. jpath [''data'', ''agents''] (resp_body resp) = Some (JArr items)
            \<and> length items = 1)
      \<and> jpath [''data'', ''pagination'', ''hasMore''] (resp_body resp) = Some (JBool False))
   \<and> (\<exists>resp. calls_handler db2
               (calls_query0\<lparr>clq_limit := IntVal 1, clq_offset := IntVal 1,
                              clq_agentId := Some ''agent_1''\<rparr>) = Inr resp
      \<and> page_ok ''calls'' 2 1 1 (resp_body resp)
      \<and> (\<exists>items. jpath [''data'', ''calls''] (resp_body resp) = Some (JArr items)
            \<and> length items = 1)
      \<and> jpath [''data'', ''pagination'', ''hasMore''] (resp_body resp) = Some (JBool False))
   \<and> (\<exists>resp. users_route contains0 (Some admin0) db2 (users_query0\<lparr>ulq_limit := IntVal 1\<rparr>)
               = Inr resp
      \<and> page_ok ''users'' 2 1 0 (resp_body resp)
      \<and> (\<exists>items. jpath [''data'', ''users''] (resp_body resp) = Some (JArr items)
            \<and> length items = 1)
      \<and> jpath [''data'', ''pagination'', ''hasMore''] (resp_body resp) = Some (JBool True))
   \<and> (\<exists>resp. search_calls_handler contains0 db2 (search_calls_query0\<lparr>scq_limit := IntVal 1\<rparr>)
               = Inr resp
      \<and> page_ok ''calls'' 2 1 0 (resp_body resp)
      \<and> (\<exists>items. jpath [''data'', ''calls''] (resp_body resp) = Some (JArr items)
            \<and> length items = 1)
      \<and> jpath [''data'', ''pagination'', ''hasMore''] (resp_body resp) = Some (JBool True))
   \<and> (\<exists>resp. search_agents_handler contains0 db2 search_agents_query0 = Inr resp
      \<and> page_ok ''agents'' 2 20 0 (resp_body resp)
      \<and> (\<exists>items. jpath [''data'', ''agents''] (resp_body resp) = Some (JArr items)
            \<and> length items = 2)
      \<and> jpath [''data'', ''pagination'', ''hasMore''] (resp_body resp) = Some (JBool False))"
proof -
  note T = list_pagination [where d = db2 and contains = contains0 and agentId = "''agent_1''"
      and user = "Some admin0"]
  have 1: "\<exists>resp. call_history_handler db2 ''agent_1'' (query0\<lparr>q_limit := IntVal 1\<rparr>) = Inr resp
      \<and> page_ok ''calls'' 2 1 0 (resp_body resp)
      \<and> (\<exists>items. jpath [''data'', ''calls''] (resp_body resp) = Some (JArr items)
            \<and> length items = 1)
      \<and> jpath [''data'', ''pagination'', ''hasMore''] (resp_body resp) = Some (JBool True)"
  proof -
    obtain resp where
      r: "call_history_handler db2 ''agent_1'' (query0\<lparr>q_limit := IntVal 1\<rparr>) = Inr resp"
      by (simp add: call_history_handler_def valid_history_1 db2_agents Let_def)
    have n: "length (filter (\<lambda>r. c_agent_id r = ''agent_1'') (calls db2)) = 2"
      by (simp add: db2_def call1_def)
    from T [where q = "query0\<lparr>q_limit := IntVal 1\<rparr>", THEN conjunct1, rule_format, OF r]
    have "page_ok ''calls'' 2 1 0 (resp_body resp)"
      unfolding valid_history_1 n by simp
    from page_shown [OF this, of 1 True] r show ?thesis by simp
  qed
  have 2: "\<exists>resp. call_history_all_handler db2 (query0\<lparr>q_limit := IntVal 2\<rparr>) = Inr resp
      \<and> page_ok ''calls'' 2 2 0 (resp_body resp)
      \<and> (\<exists>items. jpath [''data'', ''calls''] (resp_body resp) = Some (JArr items)
            \<and> length items = 2)
      \<and> jpath [''data'', ''pagination'', ''hasMore''] (resp_body resp) = Some (JBool False)"
  proof -
    obtain resp where
      r: "call_history_all_handler db2 (query0\<lparr>q_limit := IntVal 2\<rparr>) = Inr resp"
      by (simp add: call_history_all_handler_def valid_history_2 Let_def)
    have n: "length (calls db2) = 2"
      by (simp add: db2_def)
    from T [where q = "query0\<lparr>q_limit := IntVal 2\<rparr>", THEN conjunct2, THEN conjunct1,
        rule_format, OF r]
    have "page_ok ''calls'' 2 2 0 (resp_body resp)"
      unfolding valid_history_2 n by simp
    from page_shown [OF this, of 2 False] r show ?thesis by simp
  qed
  have 3: "\<exists>resp. agents_handler contains0 db2
               (agents_query0\<lparr>alq_limit := IntVal 1, alq_search := Some ''SALES''\<rparr>) = Inr resp
      \<and> page_ok ''agents'' 1 1 0 (resp_body resp)
      \<and> (\<exists>items. jpath [''data'', ''agents''] (resp_body resp) = Some (JArr items)
            \<and> length items = 1)
      \<and> jpath [''data'', ''pagination'', ''hasMore''] (resp_body resp) = Some (JBool False)"
  proof -
    obtain resp where
      r: "agents_handler contains0 db2
            (agents_query0\<lparr>alq_limit := IntVal 1, alq_search := Some ''SALES''\<rparr>) = Inr resp"
      by (simp add: agents_handler_def valid_agents_1 Let_def)
    have n: "length (filter (agents_where contains0
               \<lparr>alv_limit = 1, alv_offset = 0, alv_status = None, alv_search = Some ''SALES''\<rparr>)
               (agents db2)) = 1"
      by (simp add: agents_where_def db2_def agent1_def contains0_def lower_def)
    from T [where qa = "agents_query0\<lparr>alq_limit := IntVal 1, alq_search := Some ''SALES''\<rparr>",
        THEN conjunct2, THEN conjunct2, THEN conjunct1, rule_format, OF r]
    have "page_ok ''agents'' 1 1 0 (resp_body resp)"
      unfolding valid_agents_1 by (simp add: n)
    from page_shown [OF this, of 1 False] r show ?thesis by simp
  qed
  have 4: "\<exists>resp. calls_handler db2
               (calls_query0\<lparr>clq_limit := IntVal 1, clq_offset := IntVal 1,
                              clq_agentId := Some ''agent_1''\<rparr>) = Inr resp
      \<and> page_ok ''calls'' 2 1 1 (resp_body resp)
      \<and> (\<exists>items. jpath [''data'', ''calls''] (resp_body resp) = Some (JArr items)
            \<and> length items = 1)
      \<and> jpath [''data'', ''pagination'', ''hasMore''] (resp_body resp) = Some (JBool False)"
  proof -
    obtain resp where
      r: "calls_handler db2
            (calls_query0\<lparr>clq_limit := IntVal 1, clq_offset := IntVal 1,
                           clq_agentId := Some ''agent_1''\<rparr>) = Inr resp"
      by (simp add: calls_handler_def valid_calls_1 Let_def)
    have n: "length (filter (calls_where
               \<lparr>clv_limit = 1, clv_offset = 1, clv_agentId = Some ''agent_1'', clv_startDate = None,
                clv_endDate = None, clv_callStatus = None, clv_sortBy = ''date''\<rparr>)
               (calls db2)) = 2"
      by (simp add: calls_where_def db2_def call1_def)
    from T [where qc = "calls_query0\<lparr>clq_limit := IntVal 1, clq_offset := IntVal 1,
                           clq_agentId := Some ''agent_1''\<rparr>",
        THEN conjunct2, THEN conjunct2, THEN conjunct2, THEN conjunct1, rule_format, OF r]
    have "page_ok ''calls'' 2 1 1 (resp_body resp)"
      unfolding valid_calls_1 by (simp add: n)
    from page_shown [OF this, of 1 False] r show ?thesis by simp
  qed
  have 5: "\<exists>resp. users_route contains0 (Some admin0) db2 (users_query0\<lparr>ulq_limit := IntVal 1\<rparr>)
               = Inr resp
      \<and> page_ok ''users'' 2 1 0 (resp_body resp)
      \<and> (\<exists>items. jpath [''data'', ''users''] (resp_body resp) = Some (JArr items)
            \<and> length items = 1)
      \<and> jpath [''data'', ''pagination'', ''hasMore''] (resp_body resp) = Some (JBool True)"
  proof -
    obtain resp where
      r: "users_route contains0 (Some admin0) db2 (users_query0\<lparr>ulq_limit := IntVal 1\<rparr>)
            = Inr resp"
      by (simp add: users_route_def admin0_passes users_handler_def valid_users_1 Let_def)
    have n: "length (filter (users_where contains0
               \<lparr>ulv_limit = 1, ulv_offset = 0, ulv_role = None, ulv_search = None\<rparr>)
               (users db2)) = 2"
      by (simp add: users_where_def db2_def)
    from T [where qu = "users_query0\<lparr>ulq_limit := IntVal 1\<rparr>",
        THEN conjunct2, THEN conjunct2, THEN conjunct2, THEN conjunct2, THEN conjunct1,
        rule_format, OF r]
    have "page_ok ''users'' 2 1 0 (resp_body resp)"
      unfolding valid_users_1 by (simp add: n)
    from page_shown [OF this, of 1 True] r show ?thesis by simp
  qed
  have 6: "\<exists>resp. search_calls_handler contains0 db2 (search_calls_query0\<lparr>scq_limit := IntVal 1\<rparr>)
               = Inr resp
      \<and> page_ok ''calls'' 2 1 0 (resp_body resp)
      \<and> (\<exists>items. jpath [''data'', ''calls''] (resp_body resp) = Some (JArr items)
            \<and> length items = 1)
      \<and> jpath [''data'', ''pagination'', ''hasMore''] (resp_body resp) = Some (JBool True)"
  proof -
    obtain resp where
      r: "search_calls_handler contains0 db2 (search_calls_query0\<lparr>scq_limit := IntVal 1\<rparr>)
            = Inr resp"
      by (simp add: search_calls_handler_def valid_search_calls_1 Let_def)
    have n: "length (filter (search_calls_where contains0
               \<lparr>scv_query = ''CALL'', scv_limit = 1, scv_offset = 0, scv_agentId = None\<rparr>)
               (calls db2)) = 2"
      by (simp add: search_calls_where_def contains_opt_def db2_def call1_def contains0_def
          lower_def)
    from T [where qs = "search_calls_query0\<lparr>scq_limit := IntVal 1\<rparr>",
        THEN conjunct2, THEN conjunct2, THEN conjunct2, THEN conjunct2, THEN conjunct2,
        THEN conjunct1, rule_format, OF r]
    have "page_ok ''calls'' 2 1 0 (resp_body resp)"
      unfolding valid_search_calls_1 by (simp add: n)
    from page_shown [OF this, of 1 True] r show ?thesis by simp
  qed
  have 7: "\<exists>resp. search_agents_handler contains0 db2 search_agents_query0 = Inr resp
      \<and> page_ok ''agents'' 2 20 0 (resp_body resp)
      \<and> (\<exists>items. jpath [''data'', ''agents''] (resp_body resp) = Some (JArr items)
            \<and> length items = 2)
      \<and> jpath [''data'', ''pagination'', ''hasMore''] (resp_body resp) = Some (JBool False)"
  proof -
    obtain resp where
      r: "search_agents_handler contains0 db2 search_agents_query0 = Inr resp"
      by (simp add: search_agents_handler_def valid_search_agents_0 Let_def)
    have n: "length (filter (search_agents_where contains0
               \<lparr>sav_query = ''Agent'', sav_limit = 20, sav_offset = 0\<rparr>)
               (agents db2)) = 2"
      by (simp add: search_agents_where_def db2_def agent1_def contains0_def lower_def)
    from T [where qg = search_agents_query0,
        THEN conjunct2, THEN conjunct2, THEN conjunct2, THEN conjunct2, THEN conjunct2,
        THEN conjunct2, rule_format, OF r]
    have "page_ok ''agents'' 2 20 0 (resp_body resp)"
      unfolding valid_search_agents_0 by (simp add: n)
    from page_shown [OF this, of 2 False] r show ?thesis by simp
  qed
  from 1 2 3 4 5 6 7 show ?thesis by (intro conjI)
qed

text \<open>
  Claim C8 says that a limit outside \<open>[1,100]\<close> is clamped and the request still served.
  The schema validates instead: \<open>limit=500\<close> is answered with status 400.
\<close>

theorem call_history_limit_500_counterexample:
  "resp_status (call_history_endpoint env0 db1 ''agent_1'' (query0\<lparr>q_limit := IntVal 500\<rparr>))
     = 400"
  by (simp add: call_history_endpoint_def call_history_handler_def
      callHistorySchema_validate_def joi_integer_def query0_def errorHandler_Validation
      Let_def)

lemma ValidationError_400:
  "H = Inl (ValidationError m) \<Longrightarrow> resp_status (client_response e H) = 400"
  by (simp add: client_response_def errorHandler_Validation)

text \<open>
  Claim C8, amended: under each of the six schemas of the lists (\<open>callHistorySchema\<close>,
  \<open>agentListSchema\<close>, \<open>callsListSchema\<close>, \<open>userListSchema\<close>, \<open>searchCallsSchema\<close> and
  \<open>searchAgentsSchema\<close>) a request that passes validation has a limit in \<open>[1,100]\<close>, which
  is 20 when the parameter is absent and the supplied integer otherwise, and an offset
  \<open>\<ge> 0\<close>, which is 0 when absent and the supplied integer otherwise; on each of the
  seven lists a request supplying a limit outside \<open>[1,100]\<close> is not served but answered
  with status 400 (on the list of users, when \<open>adminMiddleware\<close> lets the request pass).
\<close>

theorem list_limit_validated:
  "(\<forall>v. callHistorySchema_validate q = Inr v \<longrightarrow>
       limit_ok (q_limit q) (v_limit v) \<and> offset_ok (q_offset q) (v_offset v))
   \<and> (\<forall>v. agentListSchema_validate qa = Inr v \<longrightarrow>
       limit_ok (alq_limit qa) (alv_limit v) \<and> offset_ok (alq_offset qa) (alv_offset v))
   \<and> (\<forall>v. callsListSchema_validate qc = Inr v \<longrightarrow>
       limit_ok (clq_limit qc) (clv_limit v) \<and> offset_ok (clq_offset qc) (clv_offset v))
   \<and> (\<forall>v. userListSchema_validate qu = Inr v \<longrightarrow>
       limit_ok (ulq_limit qu) (ulv_limit v) \<and> offset_ok (ulq_offset qu) (ulv_offset v))
   \<and> (\<forall>v. searchCallsSchema_validate qs = Inr v \<longrightarrow>
       limit_ok (scq_limit qs) (scv_limit v) \<and> offset_ok (scq_offset qs) (scv_offset v))
   \<and> (\<forall>v. searchAgentsSchema_validate qg = Inr v \<longrightarrow>
       limit_ok (saq_limit qg) (sav_limit v) \<and> offset_ok (saq_offset qg) (sav_offset v))
   \<and> (limit_out_of_range (q_limit q) \<longrightarrow>
         resp_status (call_history_endpoint e d agentId q) = 400
       \<and> resp_status (client_response e (call_history_all_handler d q)) = 400)
   \<and> (limit_out_of_range (alq_limit qa) \<longrightarrow>
         resp_status (client_response e (agents_handler contains d qa)) = 400)
   \<and> (limit_out_of_range (clq_limit qc) \<longrightarrow>
         resp_status (client_response e (calls_handler d qc)) = 400)
   \<and> (limit_out_of_range (ulq_limit qu) \<and> adminMiddleware user = Next user \<longrightarrow>
         resp_status (client_response e (users_route contains user d qu)) = 400)
   \<and> (limit_out_of_range (scq_limit qs) \<longrightarrow>
         resp_status (client_response e (search_calls_handler contains d qs)) = 400)
   \<and> (limit_out_of_range (saq_limit qg) \<longrightarrow>
         resp_status (client_response e (search_agents_handler contains d qg)) = 400)"
proof -
  have v1: "\<forall>v. callHistorySchema_validate q = Inr v \<longrightarrow>
       limit_ok (q_limit q) (v_limit v) \<and> offset_ok (q_offset q) (v_offset v)"
    using callHistory_valid by blast
  have v2: "\<forall>v. agentListSchema_validate qa = Inr v \<longrightarrow>
       limit_ok (alq_limit qa) (alv_limit v) \<and> offset_ok (alq_offset qa) (alv_offset v)"
    using agentList_valid by blast
  have v3: "\<forall>v. callsListSchema_validate qc = Inr v \<longrightarrow>
       limit_ok (clq_limit qc) (clv_limit v) \<and> offset_ok (clq_offset qc) (clv_offset v)"
    using callsList_valid by blast
  have v4: "\<forall>v. userListSchema_validate qu = Inr v \<longrightarrow>
       limit_ok (ulq_limit qu) (ulv_limit v) \<and> offset_ok (ulq_offset qu) (ulv_offset v)"
    using userList_valid by blast
  have v5: "\<forall>v. searchCallsSchema_validate qs = Inr v \<longrightarrow>
       limit_ok (scq_limit qs) (scv_limit v) \<and> offset_ok (scq_offset qs) (scv_offset v)"
    using searchCalls_valid by blast
  have v6: "\<forall>v. searchAgentsSchema_validate qg = Inr v \<longrightarrow>
       limit_ok (saq_limit qg) (sav_limit v) \<and> offset_ok (saq_offset qg) (sav_offset v)"
    using searchAgents_valid by blast
  have r1: "limit_out_of_range (q_limit q) \<longrightarrow>
         resp_status (call_history_endpoint e d agentId q) = 400
       \<and> resp_status (client_response e (call_history_all_handler d q)) = 400"
  proof
    assume "limit_out_of_range (q_limit q)"
    from limit_rejected [OF this] obtain m where
      "joi_integer ''limit'' 1 (Some 100) 20 (q_limit q) = Inl m" ..
    then have "callHistorySchema_validate q = Inl m"
      by (simp add: callHistorySchema_validate_def)
    then have "call_history_handler d agentId q = Inl (ValidationError m)"
      "call_history_all_handler d q = Inl (ValidationError m)"
      by (simp_all add: call_history_handler_def call_history_all_handler_def)
    then show "resp_status (call_history_endpoint e d agentId q) = 400
       \<and> resp_status (client_response e (call_history_all_handler d q)) = 400"
      by (simp add: call_history_endpoint_def client_response_def errorHandler_Validation)
  qed
  have r2: "limit_out_of_range (alq_limit qa) \<longrightarrow>
         resp_status (client_response e (agents_handler contains d qa)) = 400"
  proof
    assume "limit_out_of_range (alq_limit qa)"
    from limit_rejected [OF this] obtain m where
      "joi_integer ''limit'' 1 (Some 100) 20 (alq_limit qa) = Inl m" ..
    then have "agents_handler contains d qa = Inl (ValidationError m)"
      by (simp add: agents_handler_def agentListSchema_validate_def)
    then show "resp_status (client_response e (agents_handler contains d qa)) = 400"
      by (rule ValidationError_400)
  qed
  have r3: "limit_out_of_range (clq_limit qc) \<longrightarrow>
         resp_status (client_response e (calls_handler d qc)) = 400"
  proof
    assume "limit_out_of_range (clq_limit qc)"
    from limit_rejected [OF this] obtain m where
      "joi_integer ''limit'' 1 (Some 100) 20 (clq_limit qc) = Inl m" ..
    then have "calls_handler d qc = Inl (ValidationError m)"
      by (simp add: calls_handler_def callsListSchema_validate_def)
    then show "resp_status (client_response e (calls_handler d qc)) = 400"
      by (rule ValidationError_400)
  qed
  have r4: "limit_out_of_range (ulq_limit qu) \<and> adminMiddleware user = Next user \<longrightarrow>
         resp_status (client_response e (users_route contains user d qu)) = 400"
  proof
    assume a: "limit_out_of_range (ulq_limit qu) \<and> adminMiddleware user = Next user"
    then have "limit_out_of_range (ulq_limit qu)" ..
    from limit_rejected [OF this] obtain m where
      "joi_integer ''limit'' 1 (Some 100) 20 (ulq_limit qu) = Inl m" ..
    with a have "users_route contains user d qu = Inl (ValidationError m)"
      by (simp add: users_route_def users_handler_def userListSchema_validate_def)
    then show "resp_status (client_response e (users_route contains user d qu)) = 400"
      by (rule ValidationError_400)
  qed
  have r5: "limit_out_of_range (scq_limit qs) \<longrightarrow>
         resp_status (client_response e (search_calls_handler contains d qs)) = 400"
  proof
    assume "limit_out_of_range (scq_limit qs)"
    from limit_rejected [OF this] obtain m where
      "joi_integer ''limit'' 1 (Some 100) 20 (scq_limit qs) = Inl m" ..
    then have "\<exists>m'. search_calls_handler contains d qs = Inl (ValidationError m')"
      by (auto simp: search_calls_handler_def searchCallsSchema_validate_def split: sum.splits)
    then show "resp_status (client_response e (search_calls_handler contains d qs)) = 400"
      by (auto intro: ValidationError_400)
  qed
  have r6: "limit_out_of_range (saq_limit qg) \<longrightarrow>
         resp_status (client_response e (search_agents_handler contains d qg)) = 400"
  proof
    assume "limit_out_of_range (saq_limit qg)"
    from limit_rejected [OF this] obtain m where
      "joi_integer ''limit'' 1 (Some 100) 20 (saq_limit qg) = Inl m" ..
    then have "\<exists>m'. search_agents_handler contains d qg = Inl (ValidationError m')"
      by (auto simp: search_agents_handler_def searchAgentsSchema_validate_def split: sum.splits)
    then show "resp_status (client_response e (search_agents_handler contains d qg)) = 400"
      by (auto intro: ValidationError_400)
  qed
  from v1 v2 v3 v4 v5 v6 r1 r2 r3 r4 r5 r6 show ?thesis by (intro conjI)
qed

theorem list_limit_validated_witness:
  "callHistorySchema_validate (query0\<lparr>q_limit := IntVal 50\<rparr>) =
      Inr \<lparr>v_limit = 50, v_offset = 0, v_sortBy = ''date''\<rparr>
   \<and> limit_ok (IntVal 50) 50 \<and> offset_ok Absent 0
   \<and> agentListSchema_validate (agents_query0\<lparr>alq_offset := IntVal 40\<rparr>) =
      Inr \<lparr>alv_limit = 20, alv_offset = 40, alv_status = None, alv_search = None\<rparr>
   \<and> limit_ok Absent 20 \<and> offset_ok (IntVal 40) 40
   \<and> callsListSchema_validate (calls_query0\<lparr>clq_limit := IntVal 100\<rparr>) =
      Inr \<lparr>clv_limit = 100, clv_offset = 0, clv_agentId = None, clv_startDate = None,
           clv_endDate = None, clv_callStatus = None, clv_sortBy = ''date''\<rparr>
   \<and> limit_ok (IntVal 100) 100
   \<and> userListSchema_validate (users_query0\<lparr>ulq_limit := IntVal 1\<rparr>) =
      Inr \<lparr>ulv_limit = 1, ulv_offset = 0, ulv_role = None, ulv_search = None\<rparr>
   \<and> limit_ok (IntVal 1) 1
   \<and> searchCallsSchema_validate (search_calls_query0\<lparr>scq_limit := IntVal 1\<rparr>) =
      Inr \<lparr>scv_query = ''CALL'', scv_limit = 1, scv_offset = 0, scv_agentId = None\<rparr>
   \<and> searchAgentsSchema_validate search_agents_query0 =
      Inr \<lparr>sav_query = ''Agent'', sav_limit = 20, sav_offset = 0\<rparr>
   \<and> resp_status (call_history_endpoint env0 db2 ''agent_1'' (query0\<lparr>q_limit := IntVal 0\<rparr>))
      = 400
   \<and> resp_status (client_response env0
        (call_history_all_handler db2 (query0\<lparr>q_limit := IntVal 0\<rparr>))) = 400
   \<and> resp_status (client_response env0
        (agents_handler contains0 db2 (agents_query0\<lparr>alq_limit := IntVal 101\<rparr>))) = 400
   \<and> resp_status (client_response env0
        (calls_handler db2 (calls_query0\<lparr>clq_limit := IntVal 500\<rparr>))) = 400
   \<and> adminMiddleware (Some admin0) = Next (Some admin0)
   \<and> resp_status (client_response env0
        (users_route contains0 (Some admin0) db2 (users_query0\<lparr>ulq_limit := IntVal (- 1)\<rparr>)))
      = 400
   \<and> resp_status (client_response env0
        (search_calls_handler contains0 db2 (search_calls_query0\<lparr>scq_limit := IntVal 1000\<rparr>)))
      = 400
   \<and> resp_status (client_response env0
        (search_agents_handler contains0 db2 (search_agents_query0\<lparr>saq_limit := IntVal 0\<rparr>)))
      = 400"
proof -
  have a1: "callHistorySchema_validate (query0\<lparr>q_limit := IntVal 50\<rparr>) =
      Inr \<lparr>v_limit = 50, v_offset = 0, v_sortBy = ''date''\<rparr>"
    by (simp add: callHistorySchema_validate_def joi_integer_def query0_def)
  have a2: "agentListSchema_validate (agents_query0\<lparr>alq_offset := IntVal 40\<rparr>) =
      Inr \<lparr>alv_limit = 20, alv_offset = 40, alv_status = None, alv_search = None\<rparr>"
    by (simp add: agentListSchema_validate_def joi_integer_def joi_valid_def joi_string_def
        agents_query0_def)
  have a3: "callsListSchema_validate (calls_query0\<lparr>clq_limit := IntVal 100\<rparr>) =
      Inr \<lparr>clv_limit = 100, clv_offset = 0, clv_agentId = None, clv_startDate = None,
           clv_endDate = None, clv_callStatus = None, clv_sortBy = ''date''\<rparr>"
    by (simp add: callsListSchema_validate_def joi_integer_def joi_valid_def joi_string_def
        joi_date_def calls_query0_def)
  note a4 = valid_users_1
  note a5 = valid_search_calls_1
  note a6 = valid_search_agents_0
  note T = list_limit_validated [where e = env0 and d = db2 and contains = contains0
      and agentId = "''agent_1''" and user = "Some admin0"]
  from T [where q = "query0\<lparr>q_limit := IntVal 50\<rparr>", THEN conjunct1, rule_format, OF a1]
  have b1: "limit_ok (IntVal 50) 50" "offset_ok Absent 0"
    by (simp_all add: query0_def)
  from T [where qa = "agents_query0\<lparr>alq_offset := IntVal 40\<rparr>",
      THEN conjunct2, THEN conjunct1, rule_format, OF a2]
  have b2: "limit_ok Absent 20" "offset_ok (IntVal 40) 40"
    by (simp_all add: agents_query0_def)
  from T [where qc = "calls_query0\<lparr>clq_limit := IntVal 100\<rparr>",
      THEN conjunct2, THEN conjunct2, THEN conjunct1, rule_format, OF a3]
  have b3: "limit_ok (IntVal 100) 100"
    by (simp_all add: calls_query0_def)
  from T [where qu = "users_query0\<lparr>ulq_limit := IntVal 1\<rparr>",
      THEN conjunct2, THEN conjunct2, THEN conjunct2, THEN conjunct1, rule_format, OF a4]
  have b4: "limit_ok (IntVal 1) 1"
    by (simp_all add: users_query0_def)
  have o: "limit_out_of_range (IntVal 0)" "limit_out_of_range (IntVal 101)"
    "limit_out_of_range (IntVal 500)" "limit_out_of_range (IntVal (- 1))"
    "limit_out_of_range (IntVal 1000)"
    by (simp_all add: limit_out_of_range_def)
  from T [where q = "query0\<lparr>q_limit := IntVal 0\<rparr>",
      THEN conjunct2, THEN conjunct2, THEN conjunct2, THEN conjunct2, THEN conjunct2,
      THEN conjunct2,
      THEN conjunct1] o(1)
  have c1: "resp_status (call_history_endpoint env0 db2 ''agent_1'' (query0\<lparr>q_limit := IntVal 0\<rparr>))
      = 400"
    "resp_status (client_response env0
        (call_history_all_handler db2 (query0\<lparr>q_limit := IntVal 0\<rparr>))) = 400"
    by simp_all
  from T [where qa = "agents_query0\<lparr>alq_limit := IntVal 101\<rparr>",
      THEN conjunct2, THEN conjunct2, THEN conjunct2, THEN conjunct2, THEN conjunct2,
      THEN conjunct2,
      THEN conjunct2, THEN conjunct1]
    o(2)
  have c2: "resp_status (client_response env0
        (agents_handler contains0 db2 (agents_query0\<lparr>alq_limit := IntVal 101\<rparr>))) = 400"
    by simp
  from T [where qc = "calls_query0\<lparr>clq_limit := IntVal 500\<rparr>",
      THEN conjunct2, THEN conjunct2, THEN conjunct2, THEN conjunct2, THEN conjunct2,
      THEN conjunct2,
      THEN conjunct2, THEN conjunct2, THEN conjunct1] o(3)
  have c3: "resp_status (client_response env0
        (calls_handler db2 (calls_query0\<lparr>clq_limit := IntVal 500\<rparr>))) = 400"
    by simp
  from T [where qu = "users_query0\<lparr>ulq_limit := IntVal (- 1)\<rparr>",
      THEN conjunct2, THEN conjunct2, THEN conjunct2, THEN conjunct2, THEN conjunct2,
      THEN conjunct2,
      THEN conjunct2, THEN conjunct2, THEN conjunct2, THEN conjunct1] o(4) admin0_passes
  have c4: "resp_status (client_response env0
        (users_route contains0 (Some admin0) db2 (users_query0\<lparr>ulq_limit := IntVal (- 1)\<rparr>)))
      = 400"
    by simp
  from T [where qs = "search_calls_query0\<lparr>scq_limit := IntVal 1000\<rparr>",
      THEN conjunct2, THEN conjunct2, THEN conjunct2, THEN conjunct2, THEN conjunct2,
      THEN conjunct2,
      THEN conjunct2, THEN conjunct2, THEN conjunct2, THEN conjunct2, THEN conjunct1] o(5)
  have c5: "resp_status (client_response env0
        (search_calls_handler contains0 db2 (search_calls_query0\<lparr>scq_limit := IntVal 1000\<rparr>)))
      = 400"
    by simp
  from T [where qg = "search_agents_query0\<lparr>saq_limit := IntVal 0\<rparr>",
      THEN conjunct2, THEN conjunct2, THEN conjunct2, THEN conjunct2, THEN conjunct2,
      THEN conjunct2,
      THEN conjunct2, THEN conjunct2, THEN conjunct2, THEN conjunct2, THEN conjunct2] o(1)
  have c6: "resp_status (client_response env0
        (search_agents_handler contains0 db2 (search_agents_query0\<lparr>saq_limit := IntVal 0\<rparr>)))
      = 400"
    by simp
  from a1 b1 a2 b2 a3 b3 a4 b4 a5 a6 c1 c2 c3 admin0_passes c4 c5 c6 show ?thesis
    by (intro conjI)
qed

section \<open>Properties of the superadmin bootstrap\<close>

lemma find_SomeD: "find p xs = Some x \<Longrightarrow> p x \<and> x \<in> set xs"
  by (induction xs) (auto split: if_splits)

lemma find_None_iff2: "find p xs = None \<longleftrightarrow> (\<forall>x\<in>set xs. \<not> p x)"
  by (induction xs) auto

lemma find_update_first_Some:
  "find p xs = Some x \<Longrightarrow> p (f x) \<Longrightarrow> find p (update_first p f xs) = Some (f x)"
  by (induction xs) (auto split: if_splits)

lemma find_append_new:
  "find p xs = None \<Longrightarrow> p y \<Longrightarrow> find p (xs @ [y]) = Some y"
  by (induction xs) (auto split: if_splits)

lemma map_update_first_key:
  "(\<And>x. k (f x) = k x) \<Longrightarrow> map k (update_first p f xs) = map k xs"
  by (induction xs) auto

lemma update_first_distinct_key:
  "distinct (map k xs) \<Longrightarrow> update_first (\<lambda>x. k x = a) f xs = map (\<lambda>x. if k x = a then f x else x) xs"
proof (induction xs)
  case Nil then show ?case by simp
next
  case (Cons x xs)
  then have "k x = a \<Longrightarrow> map (\<lambda>x. if k x = a then f x else x) xs = xs"
    by (intro map_idI) (auto simp: image_iff)
  with Cons show ?case by auto
qed

lemma filter_key_distinct_length:
  "distinct (map k xs) \<Longrightarrow> a \<in> k ` set xs \<Longrightarrow> length (filter (\<lambda>x. k x = a) xs) = 1"
proof (induction xs)
  case Nil then show ?case by simp
next
  case (Cons x xs)
  show ?case
  proof (cases "k x = a")
    case True
    with Cons.prems have "filter (\<lambda>x. k x = a) xs = []"
      by (auto simp: filter_empty_conv image_iff)
    with True show ?thesis by simp
  next
    case False
    with Cons show ?thesis by auto
  qed
qed

lemma ensure_cases:
  assumes "SUPERADMIN_EMAIL e = Some email" "email \<noteq> []"
          "SUPERADMIN_PASSWORD e = Some password" "password \<noteq> []"
  shows "fst (ensureSuperAdmin e hash new_id now d) =
     (case user_findUnique d email of
        None \<Rightarrow> d\<lparr>users := users d @ [\<lparr>u_id = new_id, u_email = email, u_passwordHash = hash password,
                            u_name = (if truthy (SUPERADMIN_NAME e) then SUPERADMIN_NAME e
                  else Some ''Super Admin''), u_role = ''SUPERADMIN'', u_status = ''APPROVED'',
                            u_created_at = now, u_updated_at = now\<rparr>]\<rparr>
      | Some u \<Rightarrow> if u_role u \<noteq> ''SUPERADMIN'' then d\<lparr>users := update_first (\<lambda>u. u_email u = email)
                                      (\<lambda>u. u\<lparr>u_role := ''SUPERADMIN'', u_status := ''APPROVED''\<rparr>)
                                      (users d)\<rparr> else d)"
  using assms by (simp add: ensureSuperAdmin_def Let_def split: option.splits)

lemma ensure_find:
  assumes "SUPERADMIN_EMAIL e = Some email" "email \<noteq> []"
          "SUPERADMIN_PASSWORD e = Some password" "password \<noteq> []"
  shows "\<exists>u. user_findUnique (fst (ensureSuperAdmin e hash new_id now d)) email = Some u \<and> u_role u = ''SUPERADMIN''"
proof (cases "user_findUnique d email")
  case None
  then show ?thesis unfolding ensure_cases [OF assms]
    by (simp add: user_findUnique_def find_append_new)
next
  case (Some u)
  then have "u_email u = email" by (auto simp: user_findUnique_def dest: find_SomeD)
  with Some show ?thesis unfolding ensure_cases [OF assms]
    using find_update_first_Some[of "\<lambda>u. u_email u = email" "users d" u "\<lambda>u. u\<lparr>u_role := ''SUPERADMIN'', u_status := ''APPROVED''\<rparr>"]
    by (auto simp: user_findUnique_def)
qed

lemma ensure_idem:
  assumes "SUPERADMIN_EMAIL e = Some email" "email \<noteq> []"
          "SUPERADMIN_PASSWORD e = Some password" "password \<noteq> []"
  shows "fst (ensureSuperAdmin e hash2 id2 now2 (fst (ensureSuperAdmin e hash1 id1 now1 d)))
       = fst (ensureSuperAdmin e hash1 id1 now1 d)"
  using ensure_find [OF assms, of hash1 id1 now1 d]
  by (auto simp: ensure_cases [OF assms, of hash2 id2 now2])

lemma ensure_distinct:
  assumes "SUPERADMIN_EMAIL e = Some email" "email \<noteq> []"
          "SUPERADMIN_PASSWORD e = Some password" "password \<noteq> []"
      and "distinct (map u_email (users d))"
  shows "distinct (map u_email (users (fst (ensureSuperAdmin e hash new_id now d))))"
proof (cases "user_findUnique d email")
  case None
  then have "email \<notin> u_email ` set (users d)"
    by (auto simp: user_findUnique_def find_None_iff2)
  with None assms(5) show ?thesis unfolding ensure_cases [OF assms(1-4)]
    by simp
next
  case (Some u)
  with assms(5) show ?thesis unfolding ensure_cases [OF assms(1-4)]
    by (simp add: map_update_first_key)
qed

lemma ensure_all_super:
  assumes "SUPERADMIN_EMAIL e = Some email" "email \<noteq> []"
          "SUPERADMIN_PASSWORD e = Some password" "password \<noteq> []"
      and "distinct (map u_email (users d))"
  shows "\<forall>u\<in>set (users (fst (ensureSuperAdmin e hash new_id now d))).
           u_email u = email \<longrightarrow> u_role u = ''SUPERADMIN''"
proof (cases "user_findUnique d email")
  case None
  then have "\<forall>x\<in>set (users d). u_email x \<noteq> email"
    by (auto simp: user_findUnique_def find_None_iff2)
  with None show ?thesis unfolding ensure_cases [OF assms(1-4)]
    by simp
next
  case (Some v)
  then have v: "v \<in> set (users d)" "u_email v = email" by (auto simp: user_findUnique_def dest: find_SomeD)
  show ?thesis 
  proof (cases "u_role v = ''SUPERADMIN''")
    case True
    have "u = v" if "u \<in> set (users d)" "u_email u = email" for u
      using that v assms(5) by (metis distinct_map inj_onD)
    with True Some show ?thesis unfolding ensure_cases [OF assms(1-4)] by auto
  next
    case False
    have "\<forall>u\<in>set (map (\<lambda>x. if u_email x = email
                 then x\<lparr>u_role := ''SUPERADMIN'', u_status := ''APPROVED''\<rparr> else x) (users d)).
            u_email u = email \<longrightarrow> u_role u = ''SUPERADMIN''"
      unfolding set_map by (rule ballI, erule imageE) (simp split: if_splits)
    with False Some assms(5) show ?thesis unfolding ensure_cases [OF assms(1-4)]
      by (simp add: update_first_distinct_key[where k=u_email] del: set_map)
  qed
qed

lemma ensure_count:
  assumes "SUPERADMIN_EMAIL e = Some email" "email \<noteq> []"
          "SUPERADMIN_PASSWORD e = Some password" "password \<noteq> []"
      and "distinct (map u_email (users d))"
  shows "length (filter (\<lambda>u. u_email u = email \<and> u_role u = ''SUPERADMIN'')
            (users (fst (ensureSuperAdmin e hash new_id now d)))) = 1"
proof -
  let ?d = "fst (ensureSuperAdmin e hash new_id now d)"
  from ensure_find [OF assms(1-4), of hash new_id now d]
  have "email \<in> u_email ` set (users ?d)"
    by (force simp: user_findUnique_def dest: find_SomeD)
  with ensure_distinct [OF assms, of hash new_id now]
  have "length (filter (\<lambda>u. u_email u = email) (users ?d)) = 1"
    by (rule filter_key_distinct_length)
  moreover have "filter (\<lambda>u. u_email u = email \<and> u_role u = ''SUPERADMIN'') (users ?d)
      = filter (\<lambda>u. u_email u = email) (users ?d)"
    using ensure_all_super [OF assms, of hash new_id now]
    by (intro filter_cong) auto
  ultimately show ?thesis by simp
qed

text \<open>
  Claim C9: with the bootstrap email and password configured, on a store whose accounts
  have distinct emails (the unique constraint on \<open>email\<close>), running the bootstrap a
  second time (with whatever hash, identifier and instant) changes nothing after the
  first run; after the first run exactly one account has the configured email and it is
  the one SUPERADMIN account with that email; and when an account with that email
  existed before, no account is created: the store is unchanged if its role was
  SUPERADMIN already and otherwise differs only in that account being promoted.
\<close>

theorem ensureSuperAdmin_idempotent:
  assumes "SUPERADMIN_EMAIL e = Some email" and "email \<noteq> []"
      and "SUPERADMIN_PASSWORD e = Some password" and "password \<noteq> []"
      and "distinct (map u_email (users d))"
  shows "let d1 = fst (ensureSuperAdmin e hash1 id1 now1 d) in
           fst (ensureSuperAdmin e hash2 id2 now2 d1) = d1
         \<and> length (filter (\<lambda>u. u_email u = email) (users d1)) = 1
         \<and> length (filter (\<lambda>u. u_email u = email \<and> u_role u = ''SUPERADMIN'') (users d1)) = 1
         \<and> (\<forall>u. user_findUnique d email = Some u \<longrightarrow>
                d1 = (if u_role u \<noteq> ''SUPERADMIN''
                      then d\<lparr>users := update_first (\<lambda>u. u_email u = email)
                             (\<lambda>u. u\<lparr>u_role := ''SUPERADMIN'', u_status := ''APPROVED''\<rparr>)
                             (users d)\<rparr>
                      else d)
                \<and> map u_email (users d1) = map u_email (users d))"
proof -
  let ?d1 = "fst (ensureSuperAdmin e hash1 id1 now1 d)"
  note c = assms(1-4)
  have 1: "fst (ensureSuperAdmin e hash2 id2 now2 ?d1) = ?d1"
    by (rule ensure_idem [OF c])
  have "email \<in> u_email ` set (users ?d1)"
    using ensure_find [OF c, of hash1 id1 now1 d]
    by (force simp: user_findUnique_def dest: find_SomeD)
  with ensure_distinct [OF assms, of hash1 id1 now1]
  have 2: "length (filter (\<lambda>u. u_email u = email) (users ?d1)) = 1"
    by (rule filter_key_distinct_length)
  have 3: "length (filter (\<lambda>u. u_email u = email \<and> u_role u = ''SUPERADMIN'') (users ?d1)) = 1"
    by (rule ensure_count [OF assms])
  have 4: "?d1 = (if u_role u \<noteq> ''SUPERADMIN''
                  then d\<lparr>users := update_first (\<lambda>u. u_email u = email)
                         (\<lambda>u. u\<lparr>u_role := ''SUPERADMIN'', u_status := ''APPROVED''\<rparr>)
                         (users d)\<rparr>
                  else d)
           \<and> map u_email (users ?d1) = map u_email (users d)"
    if "user_findUnique d email = Some u" for u
    using that by (simp add: ensure_cases [OF c] map_update_first_key)
  from 1 2 3 4 show ?thesis
    unfolding Let_def by blast
qed

theorem ensureSuperAdmin_idempotent_witness:
  "SUPERADMIN_EMAIL env0 = Some ''root@example.org'' \<and> ''root@example.org'' \<noteq> []
   \<and> SUPERADMIN_PASSWORD env0 = Some ''pw'' \<and> ''pw'' \<noteq> []
   \<and> distinct (map u_email (users db_users))
   \<and> user_findUnique db_users ''root@example.org'' = Some user1
   \<and> fst (ensureSuperAdmin env0 hash0 ''u-9'' 7000 db_users) =
       db_users\<lparr>users := [user1\<lparr>u_role := ''SUPERADMIN'', u_status := ''APPROVED''\<rparr>, user2]\<rparr>
   \<and> fst (ensureSuperAdmin env0 hash0 ''u-10'' 8000
            (fst (ensureSuperAdmin env0 hash0 ''u-9'' 7000 db_users))) =
       fst (ensureSuperAdmin env0 hash0 ''u-9'' 7000 db_users)"
proof -
  have h: "SUPERADMIN_EMAIL env0 = Some ''root@example.org''" "''root@example.org'' \<noteq> []"
      "SUPERADMIN_PASSWORD env0 = Some ''pw''" "''pw'' \<noteq> []"
      "distinct (map u_email (users db_users))"
    by (simp_all add: env0_def db_users_def user1_def user2_def)
  have f: "user_findUnique db_users ''root@example.org'' = Some user1"
    by (simp add: user_findUnique_def db_users_def user1_def)
  have r: "u_role user1 \<noteq> ''SUPERADMIN''"
    by (simp add: user1_def)
  have u: "update_first (\<lambda>u. u_email u = ''root@example.org'')
             (\<lambda>u. u\<lparr>u_role := ''SUPERADMIN'', u_status := ''APPROVED''\<rparr>) (users db_users)
           = [user1\<lparr>u_role := ''SUPERADMIN'', u_status := ''APPROVED''\<rparr>, user2]"
    by (simp add: db_users_def user1_def)
  note A = ensureSuperAdmin_idempotent [OF h, of hash0 "''u-9''" 7000 hash0 "''u-10''" 8000,
      unfolded Let_def]
  from A have a: "fst (ensureSuperAdmin env0 hash0 ''u-10'' 8000
                    (fst (ensureSuperAdmin env0 hash0 ''u-9'' 7000 db_users))) =
                  fst (ensureSuperAdmin env0 hash0 ''u-9'' 7000 db_users)"
    by blast
  from A f have "fst (ensureSuperAdmin env0 hash0 ''u-9'' 7000 db_users) =
      (if u_role user1 \<noteq> ''SUPERADMIN''
       then db_users\<lparr>users := update_first (\<lambda>u. u_email u = ''root@example.org'')
              (\<lambda>u. u\<lparr>u_role := ''SUPERADMIN'', u_status := ''APPROVED''\<rparr>) (users db_users)\<rparr>
       else db_users)"
    by blast
  with r u have b: "fst (ensureSuperAdmin env0 hash0 ''u-9'' 7000 db_users) =
      db_users\<lparr>users := [user1\<lparr>u_role := ''SUPERADMIN'', u_status := ''APPROVED''\<rparr>, user2]\<rparr>"
    by simp
  from h f a b show ?thesis
    by blast
qed

section \<open>Properties of the drain of the provider's call list\<close>

lemma drain_step_page:
  assumes "fetchPage post limit sd ed (startAfter s) = Some cs"
  shows "drain_step post limit (sd div 1000) (ed div 1000) s =
     (if length cs = limit \<and> cs \<noteq> [] then
        Inl \<lparr>allCalls = allCalls s @ cs, startAfter = Some (call_id (last cs)),
             posted = posted s @ [body_at limit sd ed (startAfter s)], ds_log = ds_log s\<rparr>
      else Inr \<lparr>dr_value = Inr (allCalls s @ cs),
                dr_posted = posted s @ [body_at limit sd ed (startAfter s)],
                dr_log = ds_log s\<rparr>)"
  using assms
  by (auto simp: fetchPage_def drain_step_def getCalls_def body_at_def Let_def
        split: sum.splits option.splits)

lemma drain_loop_pages:
  assumes pages: "\<And>i. i \<le> n \<Longrightarrow> page_at (fetchPage post limit sd ed) i = Some (pg i)"
      and more: "\<And>i. i < n \<Longrightarrow> length (pg i) = limit \<and> pg i \<noteq> []"
      and final: "length (pg n) \<noteq> limit \<or> pg n = []"
      and k: "k \<le> n"
      and cur: "startAfter s = cursor_at (fetchPage post limit sd ed) k"
  shows "drain_loop post limit (sd div 1000) (ed div 1000) s =
     Some \<lparr>dr_value = Inr (allCalls s @ concat (map pg [k..<Suc n])),
           dr_posted = posted s @
             map (\<lambda>i. body_at limit sd ed (cursor_at (fetchPage post limit sd ed) i)) [k..<Suc n],
           dr_log = ds_log s\<rparr>"
  using k cur
proof (induction "n - k" arbitrary: k s)
  case 0
  then have kn: "k = n" by simp
  from pages[of n] 0 kn have p: "fetchPage post limit sd ed (startAfter s) = Some (pg n)"
    by (simp add: page_at_def)
  from final have nm: "(length (pg n) = limit \<and> pg n \<noteq> []) = False" by blast
  from 0 show ?case
    by (subst drain_loop.simps) (simp add: drain_step_page[OF p] kn nm)
next
  case (Suc m)
  then have kn: "k < n" by simp
  from pages[of k] Suc.prems kn have p: "fetchPage post limit sd ed (startAfter s) = Some (pg k)"
    by (simp add: page_at_def)
  from more[OF kn] have len: "length (pg k) = limit" "pg k \<noteq> []" by auto
  let ?s' = "\<lparr>allCalls = allCalls s @ pg k, startAfter = Some (call_id (last (pg k))),
             posted = posted s @ [body_at limit sd ed (startAfter s)], ds_log = ds_log s\<rparr>"
  have c: "startAfter ?s' = cursor_at (fetchPage post limit sd ed) (Suc k)"
    using p len Suc.prems by (cases "pg k") (simp_all)
  have m: "m = n - Suc k" using Suc.hyps(2) by simp
  have kk: "Suc k \<le> n" using kn by simp
  have "drain_loop post limit (sd div 1000) (ed div 1000) s =
        drain_loop post limit (sd div 1000) (ed div 1000) ?s'"
    by (subst drain_loop.simps) (simp add: drain_step_page[OF p] len)
  also note Suc.hyps(1)[OF m kk c]
  finally show ?case using kn Suc.prems
    by (simp add: upt_conv_Cons)
qed

lemma fetch0_any:
  "fetchPage post0 limit 0 86400000 None = Some (pages0 0)"
  by (simp add: fetchPage_def getCalls_def requestBody_def or_null_def post0_def
      nonzero_def pages0_def)

text \<open>
  Claim C4, as stated, fails: the loop goes on after a page exactly when the page is not
  empty and its length equals \<open>limit\<close>, so it also stops after a page that is not
  shorter than \<open>limit\<close>. The provider below has three pages, of 2, 2 and 1 records,
  whatever limit it is asked for. With \<open>limit = 1\<close> the first page has 2 records, which is
  not shorter than the limit, and the drain returns after that one request, with the two
  records of the first page only. With \<open>limit = 0\<close> no page is shorter than the limit;
  the drain asks for 100 records and returns after the first page as well.
\<close>

theorem getAllCallsInRange_stops_early_counterexample:
  "fetchPage post0 1 0 86400000 None
     = Some [rc ''call_a'' ''agent_1'', rc ''call_b'' ''agent_2'']
   \<and> fetchPage post0 1 0 86400000 (Some ''call_b'')
     = Some [rc ''call_c'' ''agent_1'', rc ''call_d'' ''agent_1'']
   \<and> getAllCallsInRange post0 0 86400000 1
     = Some \<lparr>dr_value = Inr [rc ''call_a'' ''agent_1'', rc ''call_b'' ''agent_2''],
             dr_posted = [\<lparr>b_limit = 1, b_start_after = None, b_start_timestamp = None,
                           b_end_timestamp = Some 86400\<rparr>],
             dr_log = []\<rparr>
   \<and> getAllCallsInRange post0 0 86400000 0
     = Some \<lparr>dr_value = Inr [rc ''call_a'' ''agent_1'', rc ''call_b'' ''agent_2''],
             dr_posted = [\<lparr>b_limit = 100, b_start_after = None, b_start_timestamp = None,
                           b_end_timestamp = Some 86400\<rparr>],
             dr_log = []\<rparr>"
proof -
  have a: "fetchPage post0 1 0 86400000 None
     = Some [rc ''call_a'' ''agent_1'', rc ''call_b'' ''agent_2'']"
    by (simp add: fetch0_any pages0_def)
  have b: "fetchPage post0 1 0 86400000 (Some ''call_b'')
     = Some [rc ''call_c'' ''agent_1'', rc ''call_d'' ''agent_1'']"
    by (simp add: fetchPage_def getCalls_def requestBody_def or_null_def post0_def
        nonzero_def)
  have s: "startAfter \<lparr>allCalls = [], startAfter = None, posted = [], ds_log = []\<rparr> = None"
    by simp
  have c: "getAllCallsInRange post0 0 86400000 1
     = Some \<lparr>dr_value = Inr [rc ''call_a'' ''agent_1'', rc ''call_b'' ''agent_2''],
             dr_posted = [\<lparr>b_limit = 1, b_start_after = None, b_start_timestamp = None,
                           b_end_timestamp = Some 86400\<rparr>],
             dr_log = []\<rparr>"
    unfolding getAllCallsInRange_def
    apply (subst drain_loop.simps)
    using drain_step_page [of post0 1 0 86400000
        "\<lparr>allCalls = [], startAfter = None, posted = [], ds_log = []\<rparr>", unfolded s, OF a]
    apply (simp add: body_at_def requestBody_def or_null_def nonzero_def)
    done
  have a0: "fetchPage post0 0 0 86400000 None
     = Some [rc ''call_a'' ''agent_1'', rc ''call_b'' ''agent_2'']"
    by (simp add: fetch0_any pages0_def)
  have d: "getAllCallsInRange post0 0 86400000 0
     = Some \<lparr>dr_value = Inr [rc ''call_a'' ''agent_1'', rc ''call_b'' ''agent_2''],
             dr_posted = [\<lparr>b_limit = 100, b_start_after = None, b_start_timestamp = None,
                           b_end_timestamp = Some 86400\<rparr>],
             dr_log = []\<rparr>"
    unfolding getAllCallsInRange_def
    apply (subst drain_loop.simps)
    using drain_step_page [of post0 0 0 86400000
        "\<lparr>allCalls = [], startAfter = None, posted = [], ds_log = []\<rparr>", unfolded s, OF a0]
    apply (simp add: body_at_def requestBody_def or_null_def nonzero_def)
    done
  from a b c d show ?thesis by (intro conjI)
qed

text \<open>
  Claim C4, amended: for every window and page limit, when the pages fetched at the
  threaded cursors are not empty and of exactly \<open>limit\<close> records up to the first page \<open>n\<close>
  that is empty or whose length differs from \<open>limit\<close>, shorter or longer (the test of
  the loop), the drain returns; it has posted exactly one request per page \<open>0..n\<close>, in
  order, the cursor of each request after the first being the identifier of the last
  record of the page before; and the array it returns is the concatenation of the
  pages \<open>0..n\<close> in order.
\<close>

theorem getAllCallsInRange_drains:
  assumes pages: "\<forall>i\<le>n. page_at (fetchPage post limit sd ed) i = Some (pg i)"
      and more: "\<forall>i<n. length (pg i) = limit \<and> pg i \<noteq> []"
      and final: "length (pg n) \<noteq> limit \<or> pg n = []"
  shows "getAllCallsInRange post sd ed limit =
     Some \<lparr>dr_value = Inr (concat (map pg [0..<Suc n])),
           dr_posted = map (\<lambda>i. body_at limit sd ed (cursor_at (fetchPage post limit sd ed) i)) [0..<Suc n],
           dr_log = []\<rparr>"
  unfolding getAllCallsInRange_def
  using drain_loop_pages [where pg=pg and k=0 and post=post and limit=limit and sd = sd and ed = ed and n = n and s="\<lparr>allCalls = [], startAfter = None, posted = [], ds_log = []\<rparr>"] assms
  by simp

lemma cursors0:
  "cursor_at (fetchPage post0 2 0 86400000) 0 = None"
  "cursor_at (fetchPage post0 2 0 86400000) (Suc 0) = Some ''call_b''"
  "cursor_at (fetchPage post0 2 0 86400000) 2 = Some ''call_d''"
  by (simp_all add: numeral_2_eq_2 fetchPage_def getCalls_def requestBody_def or_null_def
      post0_def rc_def nonzero_def)

lemma fetch0:
  "fetchPage post0 2 0 86400000 None = Some (pages0 0)"
  "fetchPage post0 2 0 86400000 (Some ''call_b'') = Some (pages0 (Suc 0))"
  "fetchPage post0 2 0 86400000 (Some ''call_d'') = Some (pages0 2)"
  by (simp_all add: fetchPage_def getCalls_def requestBody_def or_null_def post0_def
      nonzero_def pages0_def)

lemma pages0_ok:
  "\<forall>i\<le>2. page_at (fetchPage post0 2 0 86400000) i = Some (pages0 i)"
proof (intro allI impI)
  fix i :: nat assume "i \<le> 2"
  then consider "i = 0" | "i = Suc 0" | "i = 2" by linarith
  then show "page_at (fetchPage post0 2 0 86400000) i = Some (pages0 i)"
    by cases (simp_all only: page_at_def cursors0 fetch0)
qed

theorem getAllCallsInRange_drains_witness:
  "page_at (fetchPage post0 2 0 86400000) 0 = Some (pages0 0)
   \<and> page_at (fetchPage post0 2 0 86400000) (Suc 0) = Some (pages0 (Suc 0))
   \<and> page_at (fetchPage post0 2 0 86400000) 2 = Some (pages0 2)
   \<and> length (pages0 0) = 2 \<and> pages0 0 = [rc ''call_a'' ''agent_1'', rc ''call_b'' ''agent_2'']
   \<and> length (pages0 (Suc 0)) = 2
   \<and> pages0 (Suc 0) = [rc ''call_c'' ''agent_1'', rc ''call_d'' ''agent_1'']
   \<and> length (pages0 2) = 1
   \<and> getAllCallsInRange post0 0 86400000 2 =
       Some \<lparr>dr_value = Inr [rc ''call_a'' ''agent_1'', rc ''call_b'' ''agent_2'',
                             rc ''call_c'' ''agent_1'', rc ''call_d'' ''agent_1'',
                             rc ''call_e'' ''agent_2''],
             dr_posted = [body_at 2 0 86400000 None, body_at 2 0 86400000 (Some ''call_b''),
                          body_at 2 0 86400000 (Some ''call_d'')],
             dr_log = []\<rparr>"
proof -
  have f: "\<forall>i<2. length (pages0 i) = 2 \<and> pages0 i \<noteq> []" by (simp add: pages0_def)
  have s1: "length (pages0 2) = 1" by (simp add: pages0_def)
  then have s: "length (pages0 2) \<noteq> 2 \<or> pages0 2 = []" by simp
  have u: "[0..<Suc 2] = [0, Suc 0, 2]" by (simp add: upt_rec)
  have p: "concat [pages0 0, pages0 (Suc 0), pages0 2] =
      [rc ''call_a'' ''agent_1'', rc ''call_b'' ''agent_2'', rc ''call_c'' ''agent_1'',
       rc ''call_d'' ''agent_1'', rc ''call_e'' ''agent_2'']"
    by (simp add: pages0_def)
  have g: "getAllCallsInRange post0 0 86400000 2 =
       Some \<lparr>dr_value = Inr [rc ''call_a'' ''agent_1'', rc ''call_b'' ''agent_2'',
                             rc ''call_c'' ''agent_1'', rc ''call_d'' ''agent_1'',
                             rc ''call_e'' ''agent_2''],
             dr_posted = [body_at 2 0 86400000 None, body_at 2 0 86400000 (Some ''call_b''),
                          body_at 2 0 86400000 (Some ''call_d'')],
             dr_log = []\<rparr>"
    using getAllCallsInRange_drains [OF pages0_ok f s]
    by (simp only: u p list.map cursors0)
  have l: "length (pages0 0) = 2" "length (pages0 (Suc 0)) = 2"
    "pages0 0 = [rc ''call_a'' ''agent_1'', rc ''call_b'' ''agent_2'']"
    "pages0 (Suc 0) = [rc ''call_c'' ''agent_1'', rc ''call_d'' ''agent_1'']"
    by (simp_all add: pages0_def)
  have pg: "page_at (fetchPage post0 2 0 86400000) 0 = Some (pages0 0)"
    "page_at (fetchPage post0 2 0 86400000) (Suc 0) = Some (pages0 (Suc 0))"
    "page_at (fetchPage post0 2 0 86400000) 2 = Some (pages0 2)"
    using pages0_ok by simp_all
  from pg l s1 g show ?thesis by (intro conjI)
qed

section \<open>Properties of the sync of calls\<close>




lemma calls_agent_upsert: "calls (agent_upsert now nid a n d) = calls d"
  by (simp add: agent_upsert_def split: option.splits)

lemma agent_step_simps:
  "calls (s_db (agent_step w am a s)) = calls (s_db s)"
  "errorCount (agent_step w am a s) = errorCount s"
  "syncedCount (agent_step w am a s) = syncedCount s"
  "updatedCount (agent_step w am a s) = updatedCount s"
  "s_op (agent_step w am a s) = Suc (s_op s)"
  by (simp_all add: agent_step_def Let_def calls_agent_upsert split: option.splits)


lemma agent_step_log:
  "s_log (agent_step w am a s) =
     (case w_fault w (s_op s) of None \<Rightarrow> s_log s
      | Some m \<Rightarrow> s_log s @ [log_error ''Error creating/updating agent''
                    [(''agentId'', JStr a), (''error'', JStr m)]])"
  by (simp add: agent_step_def Let_def split: option.splits)

lemma upsert_agents_simps:
  "calls (s_db (upsert_agents w am ids s)) = calls (s_db s)"
  "errorCount (upsert_agents w am ids s) = errorCount s"
  "syncedCount (upsert_agents w am ids s) = syncedCount s"
  "updatedCount (upsert_agents w am ids s) = updatedCount s"
  "s_op (upsert_agents w am ids s) = s_op s + length ids"
  by (induction ids arbitrary: s; simp add: agent_step_simps)+


lemma upsert_agents_log_mono:
  "set (s_log s) \<subseteq> set (s_log (upsert_agents w am ids s))"
proof (induction ids arbitrary: s)
  case Nil then show ?case by simp
next
  case (Cons a ids)
  have "set (s_log s) \<subseteq> set (s_log (agent_step w am a s))"
    by (auto simp: agent_step_log split: option.splits)
  with Cons [of "agent_step w am a s"] show ?case by auto
qed


lemma upsert_agents_logged:
  "i < length ids \<Longrightarrow> w_fault w (s_op s + i) = Some m \<Longrightarrow>
     log_error ''Error creating/updating agent''
        [(''agentId'', JStr (ids ! i)), (''error'', JStr m)]
       \<in> set (s_log (upsert_agents w am ids s))"
proof (induction ids arbitrary: s i)
  case Nil then show ?case by simp
next
  case (Cons a ids)
  show ?case
  proof (cases i)
    case 0
    with Cons.prems have "log_error ''Error creating/updating agent''
        [(''agentId'', JStr a), (''error'', JStr m)] \<in> set (s_log (agent_step w am a s))"
      by (simp add: agent_step_log)
    with upsert_agents_log_mono [of "agent_step w am a s" w am ids] 0 show ?thesis by auto
  next
    case (Suc j)
    with Cons.prems Cons.IH [of j "agent_step w am a s"] show ?thesis
      by (simp add: agent_step_simps)
  qed
qed


lemma set_update_first_const:
  "set (update_first p (\<lambda>_. y) xs) \<subseteq> insert y (set xs)"
  by (induction xs) auto

lemma find_update_first_const:
  "find p xs \<noteq> None \<Longrightarrow> p y \<Longrightarrow> find p (update_first p (\<lambda>_. y) xs) = Some y"
  by (induction xs) auto

lemma call_upsert_shape:
  assumes "call_upsert now nid cd d = Inr (d', row)"
  shows "\<exists>ms secs base. d_duration_ms cd = Some ms \<and> d_duration_seconds cd = Some secs
     \<and> (call_findUnique d (d_call_id cd) \<noteq> None
          \<and> row = (write_call_data cd ms secs base)\<lparr>c_updated_at := now\<rparr>
          \<and> d' = d\<lparr>calls := update_first (\<lambda>r. c_call_id r = d_call_id cd) (\<lambda>r. row) (calls d)\<rparr>
        \<or> call_findUnique d (d_call_id cd) = None
          \<and> row = write_call_data cd ms secs base \<and> d' = d\<lparr>calls := calls d @ [row]\<rparr>)"
proof -
  from assms obtain ms secs where
    dur: "d_duration_ms cd = Some ms" "d_duration_seconds cd = Some secs"
    by (auto simp: call_upsert_def split: option.splits)
  show ?thesis
  proof (cases "call_findUnique d (d_call_id cd)")
    case None
    with assms dur show ?thesis
      by (simp add: call_upsert_def Let_def) blast
  next
    case (Some existing)
    with assms dur show ?thesis
      by (simp add: call_upsert_def Let_def) blast
  qed
qed

lemma call_upsert_Inr:
  assumes "call_upsert now nid cd d = Inr (d', row)"
  shows "call_findUnique d' (d_call_id cd) = Some row"
    and "agents d' = agents d" and "users d' = users d"
    and "set (calls d') \<subseteq> insert row (set (calls d))"
    and "d_duration_ms cd = Some (c_duration_ms row)"
    and "d_duration_seconds cd = Some (c_duration_seconds row)"
    and "c_call_id row = d_call_id cd" and "c_agent_id row = d_agent_id cd"
    and "c_start_timestamp row = d_start_timestamp cd"
    and "c_end_timestamp row = d_end_timestamp cd"
proof -
  from call_upsert_shape [OF assms] obtain ms secs base where
    a: "d_duration_ms cd = Some ms" "d_duration_seconds cd = Some secs"
    and b: "call_findUnique d (d_call_id cd) \<noteq> None
          \<and> row = (write_call_data cd ms secs base)\<lparr>c_updated_at := now\<rparr>
          \<and> d' = d\<lparr>calls := update_first (\<lambda>r. c_call_id r = d_call_id cd) (\<lambda>r. row) (calls d)\<rparr>
        \<or> call_findUnique d (d_call_id cd) = None
          \<and> row = write_call_data cd ms secs base \<and> d' = d\<lparr>calls := calls d @ [row]\<rparr>"
    by blast
  from b show k: "c_call_id row = d_call_id cd" by (auto simp: write_call_data_def)
  from b show "call_findUnique d' (d_call_id cd) = Some row"
  proof (elim disjE conjE)
    assume "call_findUnique d (d_call_id cd) \<noteq> None"
      and "d' = d\<lparr>calls := update_first (\<lambda>r. c_call_id r = d_call_id cd) (\<lambda>r. row) (calls d)\<rparr>"
    with k show ?thesis
      using find_update_first_const [of "\<lambda>r. c_call_id r = d_call_id cd" "calls d" row]
      by (simp add: call_findUnique_def)
  next
    assume "call_findUnique d (d_call_id cd) = None" and "d' = d\<lparr>calls := calls d @ [row]\<rparr>"
    with k show ?thesis
      using find_append_new [of "\<lambda>r. c_call_id r = d_call_id cd" "calls d" row]
      by (simp add: call_findUnique_def)
  qed
  from b show "agents d' = agents d" by auto
  from b show "users d' = users d" by auto
  from b show "set (calls d') \<subseteq> insert row (set (calls d))"
    using set_update_first_const [of "\<lambda>r. c_call_id r = d_call_id cd" row "calls d"] by auto
  from a b show "d_duration_ms cd = Some (c_duration_ms row)"
    by (auto simp: write_call_data_def)
  from a b show "d_duration_seconds cd = Some (c_duration_seconds row)"
    by (auto simp: write_call_data_def)
  from b show "c_agent_id row = d_agent_id cd" by (auto simp: write_call_data_def)
  from b show "c_start_timestamp row = d_start_timestamp cd" by (auto simp: write_call_data_def)
  from b show "c_end_timestamp row = d_end_timestamp cd" by (auto simp: write_call_data_def)
qed

lemma call_step_cases:
  "(\<exists>m k. call_step w c s = call_failed c m (s\<lparr>s_op := k\<rparr>))
   \<or> (\<exists>start end d' row.
         start_timestamp c = Some start \<and> end_timestamp c = Some end
       \<and> call_upsert (w_clock w (s_op s)) (w_new_id w (s_op s))
            (callData_of c start end) (s_db s) = Inr (d', row)
       \<and> (call_step w c s = s\<lparr>s_op := Suc (s_op s), s_db := d', syncedCount := Suc (syncedCount s)\<rparr>
          \<or> call_step w c s = s\<lparr>s_op := Suc (s_op s), s_db := d', updatedCount := Suc (updatedCount s)\<rparr>))"
proof (cases "start_timestamp c")
  case None
  have "call_step w c s = call_failed c ''Cannot convert undefined to a BigInt'' (s\<lparr>s_op := s_op s\<rparr>)"
    using None by (simp add: call_step_def)
  then show ?thesis by blast
next
  case (Some start)
  note st = this
  show ?thesis
  proof (cases "end_timestamp c")
    case None
    have "call_step w c s = call_failed c ''Cannot convert undefined to a BigInt'' (s\<lparr>s_op := s_op s\<rparr>)"
      using None st by (simp add: call_step_def)
    then show ?thesis by blast
  next
    case (Some en)
    note en = this
    show ?thesis
    proof (cases "w_fault w (s_op s)")
      case (Some m)
      then have "call_step w c s = call_failed c m (s\<lparr>s_op := Suc (s_op s)\<rparr>)"
        using st en by (simp add: call_step_def Let_def)
      then show ?thesis by blast
    next
      case None
      note nf = this
      show ?thesis
      proof (cases "call_upsert (w_clock w (s_op s)) (w_new_id w (s_op s)) (callData_of c start en) (s_db s)")
        case (Inl err)
        then have "call_step w c s = call_failed c (err_message err) (s\<lparr>s_op := Suc (s_op s)\<rparr>)"
          using st en nf by (simp add: call_step_def Let_def)
        then show ?thesis by blast
      next
        case (Inr p)
        obtain d' row where p: "p = (d', row)" by (cases p)
        with Inr st en nf have
          "call_step w c s = s\<lparr>s_op := Suc (s_op s), s_db := d', syncedCount := Suc (syncedCount s)\<rparr>
           \<or> call_step w c s = s\<lparr>s_op := Suc (s_op s), s_db := d', updatedCount := Suc (updatedCount s)\<rparr>"
          by (simp add: call_step_def Let_def)
        with Inr p st en show ?thesis by blast
      qed
    qed
  qed
qed



lemma call_step_count:
  "syncedCount (call_step w c s) + updatedCount (call_step w c s) + errorCount (call_step w c s)
     = Suc (syncedCount s + updatedCount s + errorCount s)"
  using call_step_cases [of w c s]
  by (auto simp: call_failed_def)

lemma call_step_upserts:
  assumes "start_timestamp c = Some start" and "end_timestamp c = Some en"
      and "duration_ms c = Some ms" and "w_fault w (s_op s) = None"
  shows "\<exists>row. call_upsert (w_clock w (s_op s)) (w_new_id w (s_op s))
                 (callData_of c start en) (s_db s) = Inr (s_db (call_step w c s), row)
           \<and> call_findUnique (s_db (call_step w c s)) (call_id c) = Some row
           \<and> stored_from c row"
proof -
  obtain d' row where u: "call_upsert (w_clock w (s_op s)) (w_new_id w (s_op s))
      (callData_of c start en) (s_db s) = Inr (d', row)"
    using assms(3)
    by (cases "call_findUnique (s_db s) (call_id c)")
       (auto simp: call_upsert_def callData_of_def Let_def)
  with assms have d: "s_db (call_step w c s) = d'"
    by (simp add: call_step_def Let_def)
  note r = call_upsert_Inr [OF u]
  have "stored_from c row"
    using r(5-10) assms(1,2) by (auto simp: stored_from_def callData_of_def)
  moreover from r(1) have "call_findUnique d' (call_id c) = Some row"
    by (simp add: callData_of_def)
  ultimately show ?thesis using u d by auto
qed

lemma call_step_rows:
  assumes "row \<in> set (calls (s_db (call_step w c s)))"
  shows "row \<in> set (calls (s_db s)) \<or> stored_from c row"
proof -
  from call_step_cases [of w c s] consider
    (failed) "calls (s_db (call_step w c s)) = calls (s_db s)"
  | (written) start en d' r where "start_timestamp c = Some start" "end_timestamp c = Some en"
      "call_upsert (w_clock w (s_op s)) (w_new_id w (s_op s)) (callData_of c start en) (s_db s) = Inr (d', r)"
      "s_db (call_step w c s) = d'"
    by (auto simp: call_failed_def)
  then show ?thesis
  proof cases
    case failed
    with assms show ?thesis by simp
  next
    case written
    note u = call_upsert_Inr [OF written(3)]
    have "stored_from c r"
      using u(5-10) written(1,2) by (auto simp: stored_from_def callData_of_def)
    with u(4) assms written(4) show ?thesis by auto
  qed
qed


lemma call_step_log:
  "count_msg ''Error processing call'' (s_log (call_step w c s)) + errorCount s
     = count_msg ''Error processing call'' (s_log s) + errorCount (call_step w c s)"
  "count_msg ''Error creating/updating agent'' (s_log (call_step w c s))
     = count_msg ''Error creating/updating agent'' (s_log s)"
  using call_step_cases [of w c s]
  by (auto simp: call_failed_def count_msg_def log_error_def)

lemma process_calls_append:
  "process_calls w (xs @ ys) s = process_calls w ys (process_calls w xs s)"
  by (induction xs arbitrary: s) auto

lemma process_calls_take_Suc:
  "j < length cs \<Longrightarrow>
     process_calls w (take (Suc j) cs) s = call_step w (cs ! j) (process_calls w (take j cs) s)"
  by (simp add: take_Suc_conv_app_nth process_calls_append)


lemma process_calls_count:
  "syncedCount (process_calls w cs s) + updatedCount (process_calls w cs s)
      + errorCount (process_calls w cs s)
     = syncedCount s + updatedCount s + errorCount s + length cs"
proof (induction cs arbitrary: s)
  case Nil then show ?case by simp
next
  case (Cons c cs)
  show ?case using Cons [of "call_step w c s"] call_step_count [of w c s] by simp
qed

lemma process_calls_rows:
  "row \<in> set (calls (s_db (process_calls w cs s))) \<Longrightarrow>
     row \<in> set (calls (s_db s)) \<or> (\<exists>c\<in>set cs. stored_from c row)"
proof (induction cs arbitrary: s)
  case Nil then show ?case by simp
next
  case (Cons c cs)
  from Cons.IH [of "call_step w c s"] Cons.prems
  have "row \<in> set (calls (s_db (call_step w c s))) \<or> (\<exists>c\<in>set cs. stored_from c row)" by simp
  with call_step_rows [of row w c s] show ?case by auto
qed


lemma process_calls_log:
  "count_msg ''Error processing call'' (s_log (process_calls w cs s)) + errorCount s
     = count_msg ''Error processing call'' (s_log s) + errorCount (process_calls w cs s)"
  "count_msg ''Error creating/updating agent'' (s_log (process_calls w cs s))
     = count_msg ''Error creating/updating agent'' (s_log s)"
proof (induction cs arbitrary: s)
  case Nil
  { case 1 show ?case by simp }
  { case 2 show ?case by simp }
next
  case (Cons c cs)
  { case 1 show ?case using Cons(1)[of "call_step w c s"] call_step_log(1)[of w c s] by simp }
  { case 2 show ?case using Cons(2)[of "call_step w c s"] call_step_log(2)[of w c s] by simp }
qed

lemma drain_step_log:
  assumes "ds_log s = []"
  shows "(case drain_step post limit st et s of
            Inl s' \<Rightarrow> ds_log s' = []
          | Inr r \<Rightarrow> (\<forall>cs. dr_value r = Inr cs \<longrightarrow> dr_log r = []))"
  using assms
  by (auto simp: drain_step_def getCalls_def Let_def split: sum.splits option.splits)

lemma drain_loop_log:
  "drain_loop post limit st et s = Some r \<Longrightarrow>
     ds_log s = [] \<longrightarrow> (\<forall>cs. dr_value r = Inr cs \<longrightarrow> dr_log r = [])"
proof (rule drain_loop.raw_induct [where P = "\<lambda>post limit st et s r.
         ds_log s = [] \<longrightarrow> (\<forall>cs. dr_value r = Inr cs \<longrightarrow> dr_log r = [])"])
  fix dl and post :: http_post and limit st et s r
  assume IH: "\<And>post limit st et s r. dl post limit st et s = Some r \<Longrightarrow>
     ds_log s = [] \<longrightarrow> (\<forall>cs. dr_value r = Inr cs \<longrightarrow> dr_log r = [])"
    and step: "(case drain_step post limit st et s of
                  Inl s' \<Rightarrow> dl post limit st et s' | Inr r \<Rightarrow> Some r) = Some r"
  show "ds_log s = [] \<longrightarrow> (\<forall>cs. dr_value r = Inr cs \<longrightarrow> dr_log r = [])"
  proof
    assume e: "ds_log s = []"
    show "\<forall>cs. dr_value r = Inr cs \<longrightarrow> dr_log r = []"
    proof (cases "drain_step post limit st et s")
      case (Inr r')
      with step have "r' = r" by simp
      with Inr drain_step_log [OF e, of post limit st et] show ?thesis by simp
    next
      case (Inl s')
      with step have a: "dl post limit st et s' = Some r" by simp
      from Inl drain_step_log [OF e, of post limit st et] have "ds_log s' = []" by simp
      with IH [OF a] show ?thesis by simp
    qed
  qed
qed assumption

lemma getAllCallsInRange_log:
  "getAllCallsInRange post sd ed limit = Some r \<Longrightarrow> dr_value r = Inr cs \<Longrightarrow> dr_log r = []"
  unfolding getAllCallsInRange_def
  by (drule drain_loop_log) simp

lemma fetch_agentMap_log:
  "count_msg ''Error processing call'' (snd (fetch_agentMap get)) = 0"
  "count_msg ''Error creating/updating agent'' (snd (fetch_agentMap get)) = 0"
  by (auto simp: fetch_agentMap_def getAgents_def count_msg_def log_warn_def log_error_def
        split: sum.splits option.splits list.splits)


lemma sync_calls_handler_drained:
  assumes "syncCallsSchema_validate body = Inr (days, agentId)"
      and "getAllCallsInRange post (now - days * 86400000) now 100 = Some dr"
      and "dr_value dr = Inr cs"
  shows "\<exists>res. sync_calls_handler w get post now d body = Some res
     \<and> hr_db res = s_db (process_calls w (filteredCalls_of agentId cs)
         (upsert_agents w (fst (fetch_agentMap get))
            (uniqueAgentIds_of (filteredCalls_of agentId cs))
            (sync_start d (snd (fetch_agentMap get)))))
     \<and> hr_log res = s_log (process_calls w (filteredCalls_of agentId cs)
         (upsert_agents w (fst (fetch_agentMap get))
            (uniqueAgentIds_of (filteredCalls_of agentId cs))
            (sync_start d (snd (fetch_agentMap get)))))"
proof -
  have l: "dr_log dr = []" using assms(2,3) by (rule getAllCallsInRange_log)
  obtain am l1 where f: "fetch_agentMap get = (am, l1)" by (cases "fetch_agentMap get")
  show ?thesis
  proof (cases cs)
    case Nil
    have "filteredCalls_of agentId [] = []"
      by (simp add: filteredCalls_of_def split: option.splits)
    with Nil assms l f show ?thesis
      by (simp add: sync_calls_handler_def Let_def uniqueAgentIds_of_def uniq_def sync_start_def)
  next
    case (Cons c cs')
    with assms l f show ?thesis
      by (simp add: sync_calls_handler_def Let_def)
  qed
qed

lemma sync_calls_handler_body:
  assumes "syncCallsSchema_validate body = Inr (days, agentId)"
      and "getAllCallsInRange post (now - days * 86400000) now 100 = Some dr"
      and "dr_value dr = Inr cs"
  shows "response_body (sync_calls_handler w get post now d body) =
     (if cs = [] then
        Some (JObj [(''success'', JBool True),
                    (''message'', JStr ''No calls found in the specified date range''),
                    (''callsSynced'', JNum 0),
                    (''dateRange'', JObj [(''start'', JDate (now - days * 86400000)),
                                          (''end'', JDate now)])])
      else
        (let s2 = process_calls w (filteredCalls_of agentId cs)
                    (upsert_agents w (fst (fetch_agentMap get))
                       (uniqueAgentIds_of (filteredCalls_of agentId cs))
                       (sync_start d (snd (fetch_agentMap get))))
         in Some (JObj [(''success'', JBool True),
                        (''message'', JStr ''Call sync completed''),
                        (''callsSynced'', JNum (of_nat (syncedCount s2))),
                        (''callsUpdated'', JNum (of_nat (updatedCount s2))),
                        (''errors'', JNum (of_nat (errorCount s2))),
                        (''dateRange'', JObj [(''start'', JDate (now - days * 86400000)),
                                              (''end'', JDate now)])])))"
proof -
  have l: "dr_log dr = []" using assms(2,3) by (rule getAllCallsInRange_log)
  obtain am l1 where f: "fetch_agentMap get = (am, l1)" by (cases "fetch_agentMap get")
  show ?thesis
  proof (cases cs)
    case Nil
    with assms l f show ?thesis
      by (simp add: sync_calls_handler_def response_body_def Let_def)
  next
    case (Cons c cs')
    with assms l f show ?thesis
      by (simp add: sync_calls_handler_def response_body_def Let_def)
  qed
qed

lemma drain_single_page:
  assumes "fetchPage post limit sd ed None = Some cs" and "length cs < limit"
  shows "getAllCallsInRange post sd ed limit =
     Some \<lparr>dr_value = Inr cs, dr_posted = [body_at limit sd ed None], dr_log = []\<rparr>"
proof -
  have "drain_step post limit (sd div 1000) (ed div 1000)
          \<lparr>allCalls = [], startAfter = None, posted = [], ds_log = []\<rparr>
        = Inr \<lparr>dr_value = Inr cs, dr_posted = [body_at limit sd ed None], dr_log = []\<rparr>"
    using drain_step_page [of post limit sd ed
        "\<lparr>allCalls = [], startAfter = None, posted = [], ds_log = []\<rparr>" cs] assms
    by simp
  then show ?thesis
    unfolding getAllCallsInRange_def by (subst drain_loop.simps) simp
qed

lemma first_page_empty:
  assumes "fetchPage post limit sd ed None = Some []" and "0 < limit"
  shows "\<exists>dr. getAllCallsInRange post sd ed limit = Some dr \<and> dr_value dr = Inr []"
  using drain_single_page [OF assms(1)] assms(2) by simp

lemma validate_body7: "syncCallsSchema_validate body7 = Inr (7, None)"
  by (simp add: syncCallsSchema_validate_def joi_integer_def body7_def)

lemma drain_post_one:
  "getAllCallsInRange post_one (1700000000000 - 7 * 86400000) 1700000000000 100 = Some drained_one"
proof -
  have "fetchPage post_one 100 (1700000000000 - 7 * 86400000) 1700000000000 None = Some [call_one]"
    by (simp add: fetchPage_def getCalls_def post_one_def call_one_def)
  from drain_single_page [OF this] show ?thesis
    by (simp add: drained_one_def)
qed

lemma agent_loop_one:
  "upsert_agents w0 (fst (fetch_agentMap get0)) [''agent_1''] (sync_start db0 (snd (fetch_agentMap get0)))
   = \<lparr>s_db = db0\<lparr>agents := [\<lparr>a_id = w_new_id w0 0, a_agent_id = ''agent_1'', a_agent_name = ''Front desk'',
                 a_status = ''ACTIVE'', a_created_at = 1700000000000, a_updated_at = 1700000000000\<rparr>]\<rparr>,
      s_op = Suc 0, s_log = [], syncedCount = 0, updatedCount = 0, errorCount = 0\<rparr>"
  by (simp add: fetch_agentMap_def getAgents_def get0_def agentMap_of_def sync_start_def
      agent_step_def agent_upsert_def agent_findUnique_def db0_def w0_def Let_def)

lemma drained_one_value: "dr_value drained_one = Inr [call_one]"
  by (simp add: drained_one_def)

lemma filtered_one: "filteredCalls_of None [call_one] = [call_one]"
  by (simp add: filteredCalls_of_def)

lemma ids_one: "uniqueAgentIds_of [call_one] = [''agent_1'']"
  by (simp add: uniqueAgentIds_of_def uniq_def call_one_def rc_def)

lemma agent_loop_down:
  "upsert_agents w_agent_down (fst (fetch_agentMap get0)) [''agent_1'']
     (sync_start db0 (snd (fetch_agentMap get0)))
   = \<lparr>s_db = db0, s_op = Suc 0,
      s_log = [log_error ''Error creating/updating agent''
                 [(''agentId'', JStr ''agent_1''), (''error'', JStr ''Connection lost'')]],
      syncedCount = 0, updatedCount = 0, errorCount = 0\<rparr>"
  by (simp add: fetch_agentMap_def getAgents_def get0_def agentMap_of_def sync_start_def
      agent_step_def w_agent_down_def w0_def Let_def)

lemma call_loop_down:
  "process_calls w_agent_down [call_one]
     \<lparr>s_db = db0, s_op = Suc 0,
      s_log = [log_error ''Error creating/updating agent''
                 [(''agentId'', JStr ''agent_1''), (''error'', JStr ''Connection lost'')]],
      syncedCount = 0, updatedCount = 0, errorCount = 0\<rparr>
   = \<lparr>s_db = db0\<lparr>calls := [write_call_data (callData_of call_one 1000 5000) 3000 3
         \<lparr>c_id = w_new_id w0 (Suc 0), c_call_id = [], c_agent_id = [],
          c_caller_info = None, c_start_timestamp = 0, c_end_timestamp = 0,
          c_duration_ms = 0, c_duration_seconds = 0, c_transcript = None,
          c_call_status = [], c_disconnection_reason = None, c_cost = 0,
          c_call_summary = None, c_user_sentiment = None, c_call_successful = False,
          c_recording_url = None, c_created_at = 1700000000001,
          c_updated_at = 1700000000001\<rparr>]\<rparr>,
      s_op = Suc (Suc 0),
      s_log = [log_error ''Error creating/updating agent''
                 [(''agentId'', JStr ''agent_1''), (''error'', JStr ''Connection lost'')]],
      syncedCount = Suc 0, updatedCount = 0, errorCount = 0\<rparr>"
  by (simp add: call_step_def call_upsert_def call_findUnique_def callData_of_def
      write_call_data_def call_one_def rc_def db0_def w_agent_down_def w0_def Let_def)


text \<open>
  Claim C1 says that the stored duration is the stored end timestamp minus the stored
  start timestamp. The sync does not compute the duration from the timestamps: it stores
  the provider's \<open>duration_ms\<close>. A record with start 1000, end 5000 and \<open>duration_ms\<close>
  3000 is stored with duration 3000, while end minus start is 4000.
\<close>

theorem sync_duration_not_derived_counterexample:
  "map_option (stored_durations \<circ> hr_db)
     (sync_calls_handler w0 get0 post_one 1700000000000 db0 body7) = Some [(3000, 4000)]"
proof -
  have fc: "filteredCalls_of None [call_one] = [call_one]"
    by (simp add: filteredCalls_of_def)
  have ids: "uniqueAgentIds_of [call_one] = [''agent_1'']"
    by (simp add: uniqueAgentIds_of_def uniq_def call_one_def rc_def)
  from sync_calls_handler_drained [OF validate_body7 drain_post_one, of "[call_one]" w0 get0 db0]
  obtain res where res: "sync_calls_handler w0 get0 post_one 1700000000000 db0 body7 = Some res"
    "hr_db res = s_db (process_calls w0 [call_one]
         (upsert_agents w0 (fst (fetch_agentMap get0)) [''agent_1'']
            (sync_start db0 (snd (fetch_agentMap get0)))))"
    by (auto simp: drained_one_def fc ids)
  have "stored_durations (hr_db res) = [(3000, 4000)]"
    unfolding res(2) agent_loop_one
    by (simp add: call_step_def call_upsert_def callData_of_def write_call_data_def
        agent_findUnique_def call_findUnique_def stored_durations_def call_one_def rc_def
        db0_def w0_def Let_def)
  with res(1) show ?thesis by simp
qed

text \<open>
  Claim C1, amended: after a run of the sync, every stored call is a row of the store as
  it was before the run, or comes from one of the fetched (and filtered) records: it has
  the record's call and agent identifiers and its start and end timestamps, its
  \<open>duration_ms\<close> is the record's \<open>duration_ms\<close>, and its \<open>duration_seconds\<close> is that
  number divided by 1000, rounded down.
\<close>

theorem sync_stored_duration_from_record:
  assumes "syncCallsSchema_validate body = Inr (days, agentId)"
      and "getAllCallsInRange post (now - days * 86400000) now 100 = Some dr"
      and "dr_value dr = Inr cs"
  shows "\<exists>res. sync_calls_handler w get post now d body = Some res
     \<and> (\<forall>row\<in>set (calls (hr_db res)).
           row \<in> set (calls d) \<or> (\<exists>c\<in>set (filteredCalls_of agentId cs). stored_from c row))"
proof -
  let ?fc = "filteredCalls_of agentId cs"
  let ?s1 = "upsert_agents w (fst (fetch_agentMap get)) (uniqueAgentIds_of ?fc)
               (sync_start d (snd (fetch_agentMap get)))"
  from sync_calls_handler_drained [OF assms, of w get d] obtain res where
    res: "sync_calls_handler w get post now d body = Some res"
      "hr_db res = s_db (process_calls w ?fc ?s1)"
    by blast
  have c: "calls (s_db ?s1) = calls d"
    by (simp add: upsert_agents_simps sync_start_def)
  have "row \<in> set (calls d) \<or> (\<exists>c\<in>set ?fc. stored_from c row)"
    if "row \<in> set (calls (hr_db res))" for row
    using process_calls_rows [of row w ?fc ?s1] that res(2) c by simp
  with res(1) show ?thesis by blast
qed

theorem sync_stored_duration_from_record_witness:
  "syncCallsSchema_validate body7 = Inr (7, None)
   \<and> getAllCallsInRange post_one (1700000000000 - 7 * 86400000) 1700000000000 100
       = Some drained_one
   \<and> dr_value drained_one = Inr [call_one]
   \<and> (\<exists>res. sync_calls_handler w0 get0 post_one 1700000000000 db0 body7 = Some res
        \<and> (\<forall>row\<in>set (calls (hr_db res)).
              row \<in> set (calls db0) \<or> (\<exists>c\<in>set [call_one]. stored_from c row)))"
  using sync_stored_duration_from_record [OF validate_body7 drain_post_one drained_one_value, of w0 get0 db0]
    validate_body7 drain_post_one drained_one_value
  by (simp only: filtered_one)

text \<open>
  Claim C2 says that when the provider returns no records the response carries all three
  counters at zero. The handler answers that case early with a body that has
  \<open>callsSynced\<close> only: the keys \<open>callsUpdated\<close> and \<open>errors\<close> are absent.
\<close>

theorem sync_no_calls_counters_counterexample:
  "response_body (sync_calls_handler w0 get0 post_empty 1700000000000 db1 body7) =
     Some (JObj [(''success'', JBool True),
                 (''message'', JStr ''No calls found in the specified date range''),
                 (''callsSynced'', JNum 0),
                 (''dateRange'', JObj [(''start'', JDate 1699395200000),
                                       (''end'', JDate 1700000000000)])])
   \<and> jget ''callsUpdated''
        (JObj [(''success'', JBool True),
                 (''message'', JStr ''No calls found in the specified date range''),
                 (''callsSynced'', JNum 0),
                 (''dateRange'', JObj [(''start'', JDate 1699395200000),
                                       (''end'', JDate 1700000000000)])]) = None
   \<and> jget ''errors''
        (JObj [(''success'', JBool True),
                 (''message'', JStr ''No calls found in the specified date range''),
                 (''callsSynced'', JNum 0),
                 (''dateRange'', JObj [(''start'', JDate 1699395200000),
                                       (''end'', JDate 1700000000000)])]) = None"
proof -
  have v: "syncCallsSchema_validate body7 = Inr (7, None)"
    by (simp add: syncCallsSchema_validate_def joi_integer_def body7_def)
  have p: "fetchPage post_empty 100 (1700000000000 - 7 * 86400000) 1700000000000 None = Some []"
    by (simp add: fetchPage_def getCalls_def post_empty_def)
  from first_page_empty [OF p] obtain dr where
    dr: "getAllCallsInRange post_empty (1700000000000 - 7 * 86400000) 1700000000000 100 = Some dr"
      "dr_value dr = Inr []"
    by auto
  from sync_calls_handler_body [OF v dr, of w0 get0 db1] show ?thesis
    by simp
qed

text \<open>
  Claim C2, amended: for every valid sync request for which the provider's first page in
  the window is empty, the handler responds (it does not throw), leaves the store as it
  was, and the body is \<open>success: true\<close>, the message "No calls found in the specified
  date range", \<open>callsSynced: 0\<close> and the date range; it has no key \<open>callsUpdated\<close> and no
  key \<open>errors\<close>.
\<close>

theorem sync_no_calls_response:
  assumes "syncCallsSchema_validate body = Inr (days, agentId)"
      and "fetchPage post 100 (now - days * 86400000) now None = Some []"
  shows "\<exists>res b. sync_calls_handler w get post now d body = Some res
     \<and> hr_db res = d
     \<and> response_body (Some res) = Some b
     \<and> b = JObj [(''success'', JBool True),
                  (''message'', JStr ''No calls found in the specified date range''),
                  (''callsSynced'', JNum 0),
                  (''dateRange'', JObj [(''start'', JDate (now - days * 86400000)),
                                        (''end'', JDate now)])]
     \<and> jget ''success'' b = Some (JBool True)
     \<and> jget ''callsSynced'' b = Some (JNum 0)
     \<and> jget ''callsUpdated'' b = None
     \<and> jget ''errors'' b = None"
proof -
  from first_page_empty [OF assms(2)] obtain dr where
    dr: "getAllCallsInRange post (now - days * 86400000) now 100 = Some dr" "dr_value dr = Inr []"
    by auto
  from sync_calls_handler_drained [OF assms(1) dr, of w get d] obtain res where
    res: "sync_calls_handler w get post now d body = Some res"
      "hr_db res = s_db (process_calls w (filteredCalls_of agentId [])
         (upsert_agents w (fst (fetch_agentMap get))
            (uniqueAgentIds_of (filteredCalls_of agentId []))
            (sync_start d (snd (fetch_agentMap get)))))"
    by blast
  have e: "filteredCalls_of agentId [] = []"
    by (simp add: filteredCalls_of_def split: option.splits)
  from res(2) have "hr_db res = d"
    by (simp add: e uniqueAgentIds_of_def uniq_def sync_start_def)
  moreover from sync_calls_handler_body [OF assms(1) dr, of w get d] res(1)
  have "response_body (Some res) =
     Some (JObj [(''success'', JBool True),
                  (''message'', JStr ''No calls found in the specified date range''),
                  (''callsSynced'', JNum 0),
                  (''dateRange'', JObj [(''start'', JDate (now - days * 86400000)),
                                        (''end'', JDate now)])])"
    by simp
  ultimately show ?thesis using res(1) by simp
qed

theorem sync_no_calls_response_witness:
  "syncCallsSchema_validate body7 = Inr (7, None)
   \<and> fetchPage post_empty 100 (1700000000000 - 7 * 86400000) 1700000000000 None = Some []
   \<and> (\<exists>res. sync_calls_handler w0 get0 post_empty 1700000000000 db1 body7 = Some res
        \<and> hr_db res = db1
        \<and> response_body (Some res) =
            Some (JObj [(''success'', JBool True),
                  (''message'', JStr ''No calls found in the specified date range''),
                  (''callsSynced'', JNum 0),
                  (''dateRange'', JObj [(''start'', JDate (1700000000000 - 7 * 86400000)),
                                        (''end'', JDate 1700000000000)])]))"
proof -
  have p: "fetchPage post_empty 100 (1700000000000 - 7 * 86400000) 1700000000000 None = Some []"
    by (simp add: fetchPage_def getCalls_def post_empty_def)
  from sync_no_calls_response [OF validate_body7 p, of w0 get0 db1] validate_body7 p show ?thesis
    by blast
qed




text \<open>
  Claim C10: in every run of the sync whose drain returns records, the error counter is
  still 0 when the loop over the agents is done, whichever upserts failed; each failed
  agent upsert has its entry "Error creating/updating agent" in the log; the loop over
  the calls then processes every filtered call, whatever became of its agent: the three
  counters add up to their number, and each call that has its two timestamps and its
  duration and whose own storage operation does not fail is upserted, the store after it
  being the result of \<open>call_upsert\<close> on the store before it and holding under the call's
  identifier the row written from the record; the store the handler leaves is the store
  after the last call; and \<open>errors\<close> in the response is the number of
  "Error processing call" entries of the log, that is, of call-processing failures.
\<close>

theorem sync_agent_failure_not_counted:
  fixes w :: world and agentId :: "string option" and cs :: "retell_call list"
  defines "fc \<equiv> filteredCalls_of agentId cs"
  defines "ids \<equiv> uniqueAgentIds_of fc"
  assumes "syncCallsSchema_validate body = Inr (days, agentId)"
      and "getAllCallsInRange post (now - days * 86400000) now 100 = Some dr"
      and "dr_value dr = Inr cs"
      and "cs \<noteq> []"
  shows "\<exists>res b s1 s2. sync_calls_handler w get post now d body = Some res
     \<and> s1 = upsert_agents w (fst (fetch_agentMap get)) ids
              (sync_start d (snd (fetch_agentMap get)))
     \<and> s2 = process_calls w fc s1
     \<and> hr_db res = s_db s2
     \<and> errorCount s1 = 0
     \<and> (\<forall>i<length ids. \<forall>m. w_fault w i = Some m \<longrightarrow>
           log_error ''Error creating/updating agent''
             [(''agentId'', JStr (ids ! i)), (''error'', JStr m)] \<in> set (hr_log res))
     \<and> (\<forall>j<length fc. \<forall>start en ms.
           start_timestamp (fc ! j) = Some start \<and> end_timestamp (fc ! j) = Some en
           \<and> duration_ms (fc ! j) = Some ms
           \<and> w_fault w (s_op (process_calls w (take j fc) s1)) = None \<longrightarrow>
           (\<exists>row. call_upsert (w_clock w (s_op (process_calls w (take j fc) s1)))
                     (w_new_id w (s_op (process_calls w (take j fc) s1)))
                     (callData_of (fc ! j) start en)
                     (s_db (process_calls w (take j fc) s1))
                   = Inr (s_db (process_calls w (take (Suc j) fc) s1), row)
                \<and> call_findUnique (s_db (process_calls w (take (Suc j) fc) s1))
                     (call_id (fc ! j)) = Some row
                \<and> stored_from (fc ! j) row))
     \<and> response_body (Some res) = Some b
     \<and> jget ''errors'' b = Some (JNum (of_nat (errorCount s2)))
     \<and> errorCount s2 = count_msg ''Error processing call'' (hr_log res)
     \<and> syncedCount s2 + updatedCount s2 + errorCount s2 = length fc"
proof -
  let ?s0 = "sync_start d (snd (fetch_agentMap get))"
  let ?s1 = "upsert_agents w (fst (fetch_agentMap get)) ids ?s0"
  let ?s2 = "process_calls w fc ?s1"
  from sync_calls_handler_drained [OF assms(3-5), of w get d] obtain res where
    res: "sync_calls_handler w get post now d body = Some res"
      "hr_log res = s_log ?s2" "hr_db res = s_db ?s2"
    unfolding fc_def ids_def by blast
  have e1: "errorCount ?s1 = 0" "syncedCount ?s1 = 0" "updatedCount ?s1 = 0"
    by (simp_all add: upsert_agents_simps sync_start_def)
  have lg: "log_error ''Error creating/updating agent''
             [(''agentId'', JStr (ids ! i)), (''error'', JStr m)] \<in> set (hr_log res)"
    if "i < length ids" "w_fault w i = Some m" for i m
  proof -
    from that have "w_fault w (s_op ?s0 + i) = Some m" by (simp add: sync_start_def)
    from upsert_agents_logged [OF that(1) this, of "fst (fetch_agentMap get)"]
    have "log_error ''Error creating/updating agent''
             [(''agentId'', JStr (ids ! i)), (''error'', JStr m)] \<in> set (s_log ?s1)" .
    moreover have "set (s_log s) \<subseteq> set (s_log (process_calls w xs s))" for xs s
    proof (induction xs arbitrary: s)
      case Nil then show ?case by simp
    next
      case (Cons c xs)
      have "set (s_log s) \<subseteq> set (s_log (call_step w c s))"
        using call_step_cases [of w c s] by (auto simp: call_failed_def)
      with Cons [of "call_step w c s"] show ?case by auto
    qed
    ultimately show ?thesis unfolding res(2) by blast
  qed
  have up: "\<forall>j<length fc. \<forall>start en ms.
           start_timestamp (fc ! j) = Some start \<and> end_timestamp (fc ! j) = Some en
           \<and> duration_ms (fc ! j) = Some ms
           \<and> w_fault w (s_op (process_calls w (take j fc) ?s1)) = None \<longrightarrow>
           (\<exists>row. call_upsert (w_clock w (s_op (process_calls w (take j fc) ?s1)))
                     (w_new_id w (s_op (process_calls w (take j fc) ?s1)))
                     (callData_of (fc ! j) start en)
                     (s_db (process_calls w (take j fc) ?s1))
                   = Inr (s_db (process_calls w (take (Suc j) fc) ?s1), row)
                \<and> call_findUnique (s_db (process_calls w (take (Suc j) fc) ?s1))
                     (call_id (fc ! j)) = Some row
                \<and> stored_from (fc ! j) row)"
  proof (intro allI impI)
    fix j start en ms
    assume j: "j < length fc"
      and h: "start_timestamp (fc ! j) = Some start \<and> end_timestamp (fc ! j) = Some en
           \<and> duration_ms (fc ! j) = Some ms
           \<and> w_fault w (s_op (process_calls w (take j fc) ?s1)) = None"
    from h have h1: "start_timestamp (fc ! j) = Some start"
      and h2: "end_timestamp (fc ! j) = Some en"
      and h3: "duration_ms (fc ! j) = Some ms"
      and h4: "w_fault w (s_op (process_calls w (take j fc) ?s1)) = None" by simp_all
    show "\<exists>row. call_upsert (w_clock w (s_op (process_calls w (take j fc) ?s1)))
                     (w_new_id w (s_op (process_calls w (take j fc) ?s1)))
                     (callData_of (fc ! j) start en)
                     (s_db (process_calls w (take j fc) ?s1))
                   = Inr (s_db (process_calls w (take (Suc j) fc) ?s1), row)
                \<and> call_findUnique (s_db (process_calls w (take (Suc j) fc) ?s1))
                     (call_id (fc ! j)) = Some row
                \<and> stored_from (fc ! j) row"
      unfolding process_calls_take_Suc [OF j]
      using h1 h2 h3 h4 by (rule call_step_upserts)
  qed
  define b where "b = JObj [(''success'', JBool True),
                        (''message'', JStr ''Call sync completed''),
                        (''callsSynced'', JNum (of_nat (syncedCount ?s2))),
                        (''callsUpdated'', JNum (of_nat (updatedCount ?s2))),
                        (''errors'', JNum (of_nat (errorCount ?s2))),
                        (''dateRange'', JObj [(''start'', JDate (now - days * 86400000)),
                                              (''end'', JDate now)])]"
  have b: "response_body (Some res) = Some b"
    using sync_calls_handler_body [OF assms(3-5), of w get d] assms(6) res(1)
    by (simp add: Let_def fc_def ids_def b_def)
  have je: "jget ''errors'' b = Some (JNum (of_nat (errorCount ?s2)))"
    by (simp add: b_def)
  have "count_msg ''Error processing call'' (s_log ?s1) = 0"
  proof -
    have "count_msg ''Error processing call'' (s_log (upsert_agents w am xs s))
            = count_msg ''Error processing call'' (s_log s)" for am xs s
      by (induction xs arbitrary: s)
         (auto simp: agent_step_log count_msg_def log_error_def split: option.splits)
    then show ?thesis
      using fetch_agentMap_log(1) [of get] by (simp add: sync_start_def)
  qed
  with process_calls_log(1) [of w fc ?s1] e1
  have ec: "errorCount ?s2 = count_msg ''Error processing call'' (hr_log res)"
    unfolding res(2) by simp
  have sm: "syncedCount ?s2 + updatedCount ?s2 + errorCount ?s2 = length fc"
    using process_calls_count [of w fc ?s1] e1 by simp
  have lg': "\<forall>i<length ids. \<forall>m. w_fault w i = Some m \<longrightarrow>
           log_error ''Error creating/updating agent''
             [(''agentId'', JStr (ids ! i)), (''error'', JStr m)] \<in> set (hr_log res)"
    using lg by blast
  show ?thesis
    apply (rule exI [of _ res], rule exI [of _ b], rule exI [of _ ?s1], rule exI [of _ ?s2])
    apply (intro conjI refl res(1) res(3) e1(1) lg' up b je ec sm)
    done
qed

theorem sync_agent_failure_not_counted_witness:
  "syncCallsSchema_validate body7 = Inr (7, None)
   \<and> getAllCallsInRange post_one (1700000000000 - 7 * 86400000) 1700000000000 100
       = Some drained_one
   \<and> dr_value drained_one = Inr [call_one] \<and> [call_one] \<noteq> []
   \<and> w_fault w_agent_down 0 = Some ''Connection lost''
   \<and> (\<exists>res b row. sync_calls_handler w_agent_down get0 post_one 1700000000000 db0 body7
                     = Some res
        \<and> log_error ''Error creating/updating agent''
             [(''agentId'', JStr ''agent_1''), (''error'', JStr ''Connection lost'')]
            \<in> set (hr_log res)
        \<and> agent_findUnique (hr_db res) ''agent_1'' = None
        \<and> call_upsert (w_clock w_agent_down (Suc 0)) (w_new_id w_agent_down (Suc 0))
            (callData_of call_one 1000 5000) db0 = Inr (hr_db res, row)
        \<and> call_findUnique (hr_db res) ''call_1'' = Some row
        \<and> stored_from call_one row
        \<and> response_body (Some res) = Some b
        \<and> jget ''errors'' b = Some (JNum 0))"
proof -
  let ?s1 = "upsert_agents w_agent_down (fst (fetch_agentMap get0)) [''agent_1'']
               (sync_start db0 (snd (fetch_agentMap get0)))"
  have ne: "[call_one] \<noteq> []" by simp
  have f: "w_fault w_agent_down 0 = Some ''Connection lost''"
    by (simp add: w_agent_down_def)
  have c1: "start_timestamp call_one = Some 1000 \<and> end_timestamp call_one = Some 5000
           \<and> duration_ms call_one = Some 3000
           \<and> w_fault w_agent_down (Suc 0) = None"
    by (simp add: call_one_def rc_def w_agent_down_def w0_def)
  from sync_agent_failure_not_counted [OF validate_body7 drain_post_one drained_one_value ne,
      of w_agent_down get0 db0]
  obtain res b where
    r: "sync_calls_handler w_agent_down get0 post_one 1700000000000 db0 body7 = Some res"
    and h: "hr_db res = s_db (process_calls w_agent_down [call_one] ?s1)"
    and l: "\<forall>i<length [''agent_1'']. \<forall>m. w_fault w_agent_down i = Some m \<longrightarrow>
           log_error ''Error creating/updating agent''
             [(''agentId'', JStr ([''agent_1''] ! i)), (''error'', JStr m)] \<in> set (hr_log res)"
    and u: "\<forall>j<length [call_one]. \<forall>start en ms.
           start_timestamp ([call_one] ! j) = Some start \<and> end_timestamp ([call_one] ! j) = Some en
           \<and> duration_ms ([call_one] ! j) = Some ms
           \<and> w_fault w_agent_down (s_op (process_calls w_agent_down (take j [call_one]) ?s1)) = None \<longrightarrow>
           (\<exists>row. call_upsert (w_clock w_agent_down (s_op (process_calls w_agent_down (take j [call_one]) ?s1)))
                     (w_new_id w_agent_down (s_op (process_calls w_agent_down (take j [call_one]) ?s1)))
                     (callData_of ([call_one] ! j) start en)
                     (s_db (process_calls w_agent_down (take j [call_one]) ?s1))
                   = Inr (s_db (process_calls w_agent_down (take (Suc j) [call_one]) ?s1), row)
                \<and> call_findUnique (s_db (process_calls w_agent_down (take (Suc j) [call_one]) ?s1))
                     (call_id ([call_one] ! j)) = Some row
                \<and> stored_from ([call_one] ! j) row)"
    and b: "response_body (Some res) = Some b"
    and e: "jget ''errors'' b = Some (JNum (of_nat (errorCount (process_calls w_agent_down [call_one] ?s1))))"
    unfolding filtered_one ids_one by blast
  from l f have lg: "log_error ''Error creating/updating agent''
             [(''agentId'', JStr ''agent_1''), (''error'', JStr ''Connection lost'')]
            \<in> set (hr_log res)"
    by force
  from e have e0: "jget ''errors'' b = Some (JNum 0)"
    unfolding agent_loop_down call_loop_down by simp
  have na: "agent_findUnique (hr_db res) ''agent_1'' = None"
    unfolding h agent_loop_down call_loop_down
    by (simp add: agent_findUnique_def db0_def)
  have s1: "s_op ?s1 = Suc 0" "s_db ?s1 = db0"
    unfolding agent_loop_down by simp_all
  have cid: "call_id call_one = ''call_1''" by (simp add: call_one_def rc_def)
  have t0: "process_calls w_agent_down (take 0 [call_one]) ?s1 = ?s1" by simp
  have t1: "take (Suc 0) [call_one] = [call_one]" by simp
  have t2: "[call_one] ! 0 = call_one" by simp
  have l1: "0 < length [call_one]" by simp
  note u1 = u [rule_format, of 0 1000 5000 3000, unfolded t0 t1 t2 s1 cid]
  from u1 [OF l1 c1]
  obtain row where
    w1: "call_upsert (w_clock w_agent_down (Suc 0)) (w_new_id w_agent_down (Suc 0))
            (callData_of call_one 1000 5000) db0
          = Inr (s_db (process_calls w_agent_down [call_one] ?s1), row)"
    and w2: "call_findUnique (s_db (process_calls w_agent_down [call_one] ?s1)) ''call_1'' = Some row"
    and w3: "stored_from call_one row"
    by blast
  have "\<exists>res b row. sync_calls_handler w_agent_down get0 post_one 1700000000000 db0 body7
                     = Some res
        \<and> log_error ''Error creating/updating agent''
             [(''agentId'', JStr ''agent_1''), (''error'', JStr ''Connection lost'')]
            \<in> set (hr_log res)
        \<and> agent_findUnique (hr_db res) ''agent_1'' = None
        \<and> call_upsert (w_clock w_agent_down (Suc 0)) (w_new_id w_agent_down (Suc 0))
            (callData_of call_one 1000 5000) db0 = Inr (hr_db res, row)
        \<and> call_findUnique (hr_db res) ''call_1'' = Some row
        \<and> stored_from call_one row
        \<and> response_body (Some res) = Some b
        \<and> jget ''errors'' b = Some (JNum 0)"
    apply (rule exI [of _ res], rule exI [of _ b], rule exI [of _ row])
    apply (intro conjI r lg na w1 [folded h] w2 [folded h] w3 b e0)
    done
  then show ?thesis
    using validate_body7 drain_post_one drained_one_value ne f by (intro conjI)
qed

end
